(* ===== verification/Prelude.thy ===== *)
theory Prelude
  imports Main "HOL-Library.Word" "HOL-Library.Char_ord" "HOL-Library.List_Lexorder"
begin

text \<open>
  Shared vocabulary of the development: Go's multiple-value returns as a
  \<open>result\<close> type with sequencing, the unsigned and signed machine integers the
  code uses, the ordered key-value store behind \<open>collections.Map\<close>, and the
  generic lemmas on lists and stores the component theories rely on.
\<close>

section \<open>Results\<close>

text \<open>
  A Go function returning \<open>(T, error)\<close> is a \<open>result\<close>: \<open>Ok\<close> carries the value,
  \<open>Err\<close> the error.  \<open>Panic\<close> is a run-time panic; unlike an error it cannot be
  caught by the \<open>if err != nil\<close> branches of the code.
\<close>

datatype ('e, 'a) result = Ok 'a | Err 'e | Panic

named_theorems result_simps \<open>how sequenced computations can succeed or fail\<close>

fun andThen :: "('e, 'a) result \<Rightarrow> ('a \<Rightarrow> ('e, 'b) result) \<Rightarrow> ('e, 'b) result" where
  "andThen (Ok x) f = f x"
| "andThen (Err e) f = Err e"
| "andThen Panic f = Panic"

fun orErr :: "('f, 'a) result \<Rightarrow> 'e \<Rightarrow> ('e, 'a) result" where
  "orErr (Ok x) e = Ok x"
| "orErr (Err e') e = Err e"
| "orErr Panic e = Panic"

definition must :: "'a option \<Rightarrow> ('e, 'a) result" where
  "must v = (case v of None \<Rightarrow> Panic | Some x \<Rightarrow> Ok x)"

definition okOr :: "'a option \<Rightarrow> 'e \<Rightarrow> ('e, 'a) result" where
  "okOr v e = (case v of None \<Rightarrow> Err e | Some x \<Rightarrow> Ok x)"

fun isOk :: "('e, 'a) result \<Rightarrow> bool" where
  "isOk (Ok x) = True"
| "isOk (Err e) = False"
| "isOk Panic = False"

lemma andThen_eq_Ok [simp, result_simps]:
  "andThen m f = Ok y \<longleftrightarrow> (\<exists>x. m = Ok x \<and> f x = Ok y)"
  by (cases m) auto

lemma andThen_eq_Err [result_simps]:
  "andThen m f = Err e \<longleftrightarrow> m = Err e \<or> (\<exists>x. m = Ok x \<and> f x = Err e)"
  by (cases m) auto

lemma orErr_eq_Ok [simp, result_simps]: "orErr m e = Ok y \<longleftrightarrow> m = Ok y"
  by (cases m) auto

lemma orErr_eq_Err [result_simps]: "orErr m e = Err e' \<longleftrightarrow> e' = e \<and> (\<exists>f. m = Err f)"
  by (cases m) auto

lemma must_eq_Ok [simp, result_simps]: "must v = Ok y \<longleftrightarrow> v = Some y"
  by (auto simp: must_def split: option.splits)

lemma must_not_Err [simp]: "must v \<noteq> Err e"
  by (auto simp: must_def split: option.splits)

lemma okOr_eq_Ok [simp, result_simps]: "okOr v e = Ok y \<longleftrightarrow> v = Some y"
  by (auto simp: okOr_def split: option.splits)

lemma okOr_eq_Err [result_simps]: "okOr v e = Err e' \<longleftrightarrow> v = None \<and> e' = e"
  by (auto simp: okOr_def split: option.splits)

lemma must_simps [simp]: "must (Some x) = Ok x" "must None = Panic"
  by (simp_all add: must_def)

lemma okOr_simps [simp]: "okOr (Some x) e = Ok x" "okOr None e = Err e"
  by (simp_all add: okOr_def)

lemma isOk_iff: "isOk r \<longleftrightarrow> (\<exists>x. r = Ok x)"
  by (cases r) auto

lemma isOkE:
  assumes "isOk r"
  obtains x where "r = Ok x"
  using assms by (cases r) auto

text \<open>Validation code returns only an error.\<close>

type_synonym 'e checked = "('e, unit) result"

section \<open>Machine integers\<close>

type_synonym byte = "8 word"
type_synonym u64 = "64 word"

abbreviation (input) maxUint64 :: u64 where
  "maxUint64 \<equiv> - 1"

definition i64 :: "int \<Rightarrow> int" where
  \<comment> \<open>the value an int64 holds after a computation: two's complement wrap-around\<close>
  "i64 x = ((x + 2 ^ 63) mod 2 ^ 64) - 2 ^ 63"

lemma i64_id: "- (2 ^ 63) \<le> x \<Longrightarrow> x < 2 ^ 63 \<Longrightarrow> i64 x = x"
  by (simp add: i64_def)

lemma unat_plus1: "unat (x :: u64) + 1 < 2 ^ 64 \<Longrightarrow> unat (x + 1) = unat x + 1"
  by (simp add: unat_word_ariths)

lemma unat_minus1: "0 < (x :: u64) \<Longrightarrow> unat (x - 1) = unat x - 1"
  by (metis unat_gt_0 unat_minus_one word_gt_0)

definition bytes_of :: "string \<Rightarrow> byte list" where
  \<comment> \<open>the conversion \<open>[]byte(s)\<close>\<close>
  "bytes_of s = map (\<lambda>c. word_of_int (int (of_char c))) s"

section \<open>The ordered key-value store\<close>

text \<open>
  A \<open>collections.Map\<close> keeps its entries in ascending key order.  It is an
  association list in that order; \<open>kv_entries\<close> is what \<open>Walk\<close> and iterators see.
\<close>

type_synonym ('k, 'v) kv = "('k \<times> 'v) list"

definition kv_get :: "('k, 'v) kv \<Rightarrow> 'k \<Rightarrow> 'v option" where
  "kv_get m k = map_of m k"

fun kv_set :: "'k::linorder \<Rightarrow> 'v \<Rightarrow> ('k, 'v) kv \<Rightarrow> ('k, 'v) kv" where
  "kv_set k v [] = [(k, v)]"
| "kv_set k v ((k', v') # m) =
     (if k < k' then (k, v) # (k', v') # m
      else if k = k' then (k, v) # m
      else (k', v') # kv_set k v m)"

definition kv_del :: "'k \<Rightarrow> ('k, 'v) kv \<Rightarrow> ('k, 'v) kv" where
  "kv_del k m = filter (\<lambda>e. fst e \<noteq> k) m"

definition kv_ok :: "('k::linorder, 'v) kv \<Rightarrow> bool" where
  "kv_ok m \<longleftrightarrow> sorted_wrt (<) (map fst m)"

lemma kv_get_Nil [simp]: "kv_get [] k = None"
  by (simp add: kv_get_def)

lemma kv_get_Cons: "kv_get ((k', v) # m) k = (if k' = k then Some v else kv_get m k)"
  by (auto simp: kv_get_def)

lemma kv_get_set [simp]: "kv_get (kv_set k v m) k' = (if k' = k then Some v else kv_get m k')"
  by (induction m) (auto simp: kv_get_Cons)

lemma kv_get_del [simp]: "kv_get (kv_del k m) k' = (if k' = k then None else kv_get m k')"
  by (induction m) (auto simp: kv_get_Cons kv_get_def kv_del_def)

lemma kv_ok_Nil [simp]: "kv_ok []"
  by (simp add: kv_ok_def)

lemma kv_ok_Cons: "kv_ok ((k, v) # m) \<longleftrightarrow> (\<forall>e \<in> set m. k < fst e) \<and> kv_ok m"
  by (auto simp: kv_ok_def)

lemma set_kv_set: "set (kv_set k v m) \<subseteq> insert (k, v) (set m)"
  by (induction m rule: kv_set.induct) auto

lemma kv_ok_set [simp]: "kv_ok m \<Longrightarrow> kv_ok (kv_set k v m)"
proof (induction k v m rule: kv_set.induct)
  case (1 k v)
  show ?case by (simp add: kv_ok_Cons)
next
  case (2 k v k' v' m)
  then show ?case
    using set_kv_set [of k v m] by (auto simp: kv_ok_Cons)
qed

lemma kv_ok_del [simp]: "kv_ok m \<Longrightarrow> kv_ok (kv_del k m)"
  by (induction m) (auto simp: kv_ok_Cons kv_del_def)

lemma kv_ok_distinct: "kv_ok m \<Longrightarrow> distinct (map fst m)"
  by (auto simp: kv_ok_def strict_sorted_iff)

lemma kv_get_eq_Some: "kv_ok m \<Longrightarrow> kv_get m k = Some v \<longleftrightarrow> (k, v) \<in> set m"
  by (simp add: kv_get_def kv_ok_distinct)

lemma kv_get_None: "kv_get m k = None \<longleftrightarrow> k \<notin> fst ` set m"
  by (auto simp: kv_get_def map_of_eq_None_iff)

lemma kv_get_SomeD: "kv_get m k = Some v \<Longrightarrow> (k, v) \<in> set m"
  by (simp add: kv_get_def map_of_SomeD)

lemma kv_set_map:
  "kv_ok m \<Longrightarrow> kv_get m k \<noteq> None \<Longrightarrow>
   kv_set k v m = map (\<lambda>e. if fst e = k then (k, v) else e) m"
proof (induction k v m rule: kv_set.induct)
  case (2 k v k' v' m)
  show ?case
  proof (cases "k' = k")
    case True
    with 2 have "\<forall>e \<in> set m. fst e \<noteq> k" by (auto simp: kv_ok_Cons)
    then have "map (\<lambda>e. if fst e = k then (k, v) else e) m = m"
      by (intro map_idI) auto
    with True show ?thesis by simp
  next
    case False
    with 2 have "k' < k" by (auto simp: kv_ok_Cons kv_get_Cons kv_get_None image_def)
    with 2 False show ?thesis by (auto simp: kv_ok_Cons kv_get_Cons)
  qed
qed simp

lemma kv_set_append: "kv_ok (m @ [(k, v)]) \<Longrightarrow> kv_set k v m = m @ [(k, v)]"
  by (induction k v m rule: kv_set.induct) (auto simp: kv_ok_Cons)

lemma kv_ok_append: "kv_ok (as @ bs) \<Longrightarrow> kv_ok as \<and> kv_ok bs"
  by (simp add: kv_ok_def sorted_wrt_append)

lemma foldl_kv_set_sorted:
  "kv_ok (m @ l) \<Longrightarrow> foldl (\<lambda>m e. kv_set (fst e) (snd e) m) m l = m @ l"
proof (induction l arbitrary: m)
  case (Cons e l)
  then have "kv_ok (m @ [(fst e, snd e)])"
    using kv_ok_append [of "m @ [e]" l] by simp
  with Cons kv_set_append [OF this] show ?case by simp
qed simp

definition kv_all :: "('k \<Rightarrow> 'v \<Rightarrow> bool) \<Rightarrow> ('k, 'v) kv \<Rightarrow> bool" where
  "kv_all P m \<longleftrightarrow> (\<forall>e \<in> set m. P (fst e) (snd e))"

lemma kv_all_Nil [simp]: "kv_all P []"
  by (simp add: kv_all_def)

lemma kv_all_set: "kv_all P m \<Longrightarrow> P k v \<Longrightarrow> kv_all P (kv_set k v m)"
  using set_kv_set [of k v m] by (auto simp: kv_all_def)

lemma kv_all_del: "kv_all P m \<Longrightarrow> kv_all P (kv_del k m)"
  by (auto simp: kv_all_def kv_del_def)

lemma kv_all_get: "kv_all P m \<Longrightarrow> kv_get m k = Some v \<Longrightarrow> P k v"
  using kv_get_SomeD by (fastforce simp: kv_all_def)

lemma kv_all_mono: "kv_all P m \<Longrightarrow> (\<And>k v. P k v \<Longrightarrow> Q k v) \<Longrightarrow> kv_all Q m"
  by (auto simp: kv_all_def)

lemma kv_all_iff: "kv_ok m \<Longrightarrow> kv_all P m \<longleftrightarrow> (\<forall>k v. kv_get m k = Some v \<longrightarrow> P k v)"
  by (auto simp: kv_all_def kv_get_eq_Some)

lemma kv_all_set_iff:
  "kv_ok m \<Longrightarrow> kv_all P (kv_set k v m) \<longleftrightarrow> P k v \<and> kv_all (\<lambda>k' v'. k' \<noteq> k \<longrightarrow> P k' v') m"
  by (auto simp: kv_all_iff)

text \<open>Sums over a store, and how one write changes them.\<close>

definition kv_sum :: "('v \<Rightarrow> 'n::comm_monoid_add) \<Rightarrow> ('k, 'v) kv \<Rightarrow> 'n" where
  "kv_sum f m = (\<Sum>e\<leftarrow>m. f (snd e))"

definition opt_val :: "('v \<Rightarrow> 'n::comm_monoid_add) \<Rightarrow> 'v option \<Rightarrow> 'n" where
  "opt_val f v = (case v of None \<Rightarrow> 0 | Some x \<Rightarrow> f x)"

lemma opt_val_simps [simp]: "opt_val f None = 0" "opt_val f (Some x) = f x"
  by (simp_all add: opt_val_def)

lemma kv_sum_Nil [simp]: "kv_sum f [] = 0"
  by (simp add: kv_sum_def)

lemma kv_sum_Cons [simp]: "kv_sum f ((k, v) # m) = f v + kv_sum f m"
  by (simp add: kv_sum_def)

lemma kv_get_below: "\<forall>e \<in> set m. k < fst e \<Longrightarrow> kv_get m (k::'k::linorder) = None"
  by (auto simp: kv_get_None)

lemma kv_sum_set:
  "kv_ok m \<Longrightarrow> kv_sum f (kv_set k v m) + opt_val f (kv_get m k) = kv_sum f m + f v"
proof (induction k v m rule: kv_set.induct)
  case (1 k v)
  show ?case by simp
next
  case (2 k v k' v' m)
  note ok = "2.prems" [unfolded kv_ok_Cons]
  consider "k < k'" | "k = k'" | "k' < k" by fastforce
  then show ?case
  proof cases
    case 1
    with ok have "kv_get ((k', v') # m) k = None"
      by (fastforce simp: kv_get_None)
    with 1 show ?thesis by (simp add: ac_simps)
  next
    case 2
    then show ?thesis by (simp add: kv_get_Cons ac_simps)
  next
    case 3
    with "2.IH" ok have
      "kv_sum f (kv_set k v m) + opt_val f (kv_get m k) = kv_sum f m + f v" by auto
    moreover from 3 have "\<not> k < k'" and "k \<noteq> k'" by auto
    ultimately show ?thesis by (simp add: kv_get_Cons ac_simps)
  qed
qed

lemma kv_sum_set_cancel:
  fixes f :: "'v \<Rightarrow> 'n::cancel_comm_monoid_add"
  assumes "kv_ok m" and "f v = opt_val f (kv_get m k)"
  shows "kv_sum f (kv_set k v m) = kv_sum f m"
  using kv_sum_set [OF assms(1), of f k v] assms(2) by simp

lemma kv_sum_mono:
  fixes f :: "'v \<Rightarrow> int"
  assumes "\<And>v. 0 \<le> f v" and "kv_get m k = Some v"
  shows "f v \<le> kv_sum f m"
proof -
  have nn: "0 \<le> kv_sum f m'" for m' :: "('k, 'v) kv"
    using assms(1) by (induction m') auto
  show ?thesis
    using assms(2)
  proof (induction m)
    case (Cons e m)
    obtain k' v' where e: "e = (k', v')" by fastforce
    show ?case
    proof (cases "k' = k")
      case True
      with Cons.prems e nn [of m] show ?thesis by (simp add: kv_get_Cons)
    next
      case False
      with Cons e assms(1) [of v'] show ?thesis by (simp add: kv_get_Cons)
    qed
  qed simp
qed

lemma kv_sum_mono_all:
  fixes f :: "'v \<Rightarrow> int"
  assumes "kv_all (\<lambda>_ v. 0 \<le> f v) m" and "kv_get m k = Some v"
  shows "f v \<le> kv_sum f m"
proof -
  have "kv_sum (\<lambda>v. max 0 (f v)) m = kv_sum f m"
    using assms(1) unfolding kv_sum_def kv_all_def by (intro arg_cong [where f = sum_list] map_cong) auto
  moreover have "max 0 (f v) \<le> kv_sum (\<lambda>v. max 0 (f v)) m"
    using kv_sum_mono [where f = "\<lambda>v. max 0 (f v)", OF _ assms(2)] by simp
  ultimately show ?thesis by simp
qed

lemma kv_sum_set_old:
  fixes f :: "'v \<Rightarrow> int"
  assumes "kv_ok m"
  shows "kv_sum f (kv_set k v m) = kv_sum f m - opt_val f (kv_get m k) + f v"
  using kv_sum_set [OF assms, of f k v] by simp

lemma kv_sum_cong: "(\<And>k v. (k, v) \<in> set m \<Longrightarrow> f v = g v) \<Longrightarrow> kv_sum f m = kv_sum g m"
  unfolding kv_sum_def by (rule arg_cong [where f = sum_list]) auto

lemma kv_sum_zero: "(\<And>k v. (k, v) \<in> set m \<Longrightarrow> f v = 0) \<Longrightarrow> kv_sum f m = 0"
  using kv_sum_cong [of m f "\<lambda>_. 0"] by (simp add: kv_sum_def)

text \<open>The store as an interface: what its clients may rely on.\<close>

locale ordered_store =
  fixes lookup :: "'m \<Rightarrow> 'k::linorder \<Rightarrow> 'v option"
    and update :: "'k \<Rightarrow> 'v \<Rightarrow> 'm \<Rightarrow> 'm"
    and remove :: "'k \<Rightarrow> 'm \<Rightarrow> 'm"
    and entries :: "'m \<Rightarrow> ('k \<times> 'v) list"
    and ok :: "'m \<Rightarrow> bool"
  assumes lookup_update: "lookup (update k v m) k' = (if k' = k then Some v else lookup m k')"
    and lookup_remove: "lookup (remove k m) k' = (if k' = k then None else lookup m k')"
    and entries_lookup: "ok m \<Longrightarrow> (k, v) \<in> set (entries m) \<longleftrightarrow> lookup m k = Some v"
    and entries_sorted: "ok m \<Longrightarrow> sorted_wrt (<) (map fst (entries m))"
    and ok_update: "ok m \<Longrightarrow> ok (update k v m)"
    and ok_remove: "ok m \<Longrightarrow> ok (remove k m)"
begin

lemma entries_ext:
  assumes "ok m" and "ok m'" and "\<And>k. lookup m k = lookup m' k"
  shows "entries m = entries m'"
proof -
  have canon: "entries n = map (\<lambda>k. (k, the (lookup n k))) (map fst (entries n))" if "ok n" for n
    unfolding map_map
  proof (rule map_idI [symmetric])
    fix e assume "e \<in> set (entries n)"
    then have "lookup n (fst e) = Some (snd e)"
      using entries_lookup [OF that, of "fst e" "snd e"] by simp
    then show "((\<lambda>k. (k, the (lookup n k))) \<circ> fst) e = e" by simp
  qed
  have "set (entries m) = set (entries m')"
    using assms by (auto simp: entries_lookup)
  then have "set (map fst (entries m)) = set (map fst (entries m'))"
    by simp
  then have "map fst (entries m) = map fst (entries m')"
    using assms(1,2) entries_sorted by (intro strict_sorted_equal) auto
  then show ?thesis
    using canon [OF assms(1)] canon [OF assms(2)] assms(3) by simp
qed

lemma update_commute:
  assumes "ok m" and "k \<noteq> k'"
  shows "entries (update k v (update k' v' m)) = entries (update k' v' (update k v m))"
  using assms by (intro entries_ext) (auto simp: ok_update lookup_update)

end

interpretation kvs: ordered_store
  "kv_get :: ('k::linorder, 'v) kv \<Rightarrow> 'k \<Rightarrow> 'v option" kv_set kv_del "\<lambda>m. m" kv_ok
  by unfold_locales (auto simp: kv_get_eq_Some kv_ok_def [symmetric])

section \<open>Lists\<close>

lemma filter_fst_sorted:
  "sorted_wrt (<) (map fst m) \<Longrightarrow> sorted_wrt (<) (map fst (filter P m))"
  by (induction m) auto

fun dedup_from :: "'a list \<Rightarrow> 'a list \<Rightarrow> 'a list" where
  \<comment> \<open>the idiom \<open>if _, ok := seen[x]; !ok { seen[x] = struct{}{}; out = append(out, x) }\<close>\<close>
  "dedup_from acc [] = acc"
| "dedup_from acc (x # xs) = (if x \<in> set acc then dedup_from acc xs else dedup_from (acc @ [x]) xs)"

lemma filter_drop_prefix: "distinct ks \<Longrightarrow> filter (\<lambda>k. k \<notin> set (take n ks)) ks = drop n ks"
proof -
  assume d: "distinct ks"
  have "filter P (take n ks @ drop n ks) = filter P (drop n ks)" if "\<forall>k \<in> set (take n ks). \<not> P k" for P
    using that by (simp del: append_take_drop_id)
  moreover have "filter (\<lambda>k. k \<notin> set (take n ks)) (drop n ks) = drop n ks"
    using d by (intro filter_True) (meson disjoint_iff set_take_disj_set_drop_if_distinct order_refl)
  ultimately show ?thesis by simp
qed

lemma set_dedup_from [simp]: "set (dedup_from acc xs) = set acc \<union> set xs"
  by (induction acc xs rule: dedup_from.induct) auto

lemma distinct_dedup_from [simp]: "distinct acc \<Longrightarrow> distinct (dedup_from acc xs)"
  by (induction acc xs rule: dedup_from.induct) auto

section \<open>Message delivery\<close>

text \<open>
  A message server takes the block context, the state and a message and returns
  the new state and a response.  A failing or panicking message leaves the
  state as it was: the application discards the store branch it ran on.
\<close>

type_synonym ('c, 's, 'm, 'e, 'r) server = "'c \<Rightarrow> 's \<Rightarrow> 'm \<Rightarrow> ('e, 's \<times> 'r) result"

definition deliver :: "('c, 's, 'm, 'e, 'r) server \<Rightarrow> 'c \<times> 'm \<Rightarrow> 's \<Rightarrow> 's" where
  "deliver h cm s = (case h (fst cm) s (snd cm) of Ok (s', _) \<Rightarrow> s' | Err _ \<Rightarrow> s | Panic \<Rightarrow> s)"

definition deliverAll :: "('c, 's, 'm, 'e, 'r) server \<Rightarrow> ('c \<times> 'm) list \<Rightarrow> 's \<Rightarrow> 's" where
  "deliverAll h cms s = fold (deliver h) cms s"

primrec admissible_run ::
  "('c, 's, 'm, 'e, 'r) server \<Rightarrow> ('c \<Rightarrow> 's \<Rightarrow> 'm \<Rightarrow> bool) \<Rightarrow> ('c \<times> 'm) list \<Rightarrow> 's \<Rightarrow> bool" where
  \<comment> \<open>every message of the run meets the condition in the state it is delivered in\<close>
  "admissible_run h adm [] s \<longleftrightarrow> True"
| "admissible_run h adm (cm # cms) s \<longleftrightarrow>
     adm (fst cm) s (snd cm) \<and> admissible_run h adm cms (deliver h cm s)"

locale msg_server =
  fixes handle :: "('c, 's, 'm, 'e, 'r) server"
    and adm :: "'c \<Rightarrow> 's \<Rightarrow> 'm \<Rightarrow> bool"
    and inv :: "'s \<Rightarrow> bool"
  assumes preserves: "inv s \<Longrightarrow> adm c s m \<Longrightarrow> handle c s m = Ok (s', r) \<Longrightarrow> inv s'"
begin

lemma deliver_inv: "inv s \<Longrightarrow> adm (fst cm) s (snd cm) \<Longrightarrow> inv (deliver handle cm s)"
  by (auto simp: deliver_def preserves split: result.splits)

lemma deliverAll_inv: "inv s \<Longrightarrow> admissible_run handle adm cms s \<Longrightarrow> inv (deliverAll handle cms s)"
  by (induction cms arbitrary: s) (auto simp: deliverAll_def deliver_inv)

end

end
