(* ===== verification/Sdk.thy ===== *)
theory Sdk
  imports Prelude "HOL-Library.Signed_Division"
begin

text \<open>
  What the modules use of the Cosmos SDK and of Go's \<open>time\<close> package.  The SDK is
  not part of the repository, so its functions are the fields of a parameter
  \<open>E :: 'x sdk\<close> that every definition using them takes; \<open>'x\<close> is the state the
  SDK's own bank and account keepers hold.  The documented behaviour the code
  relies on is the locale \<open>sdk_laws\<close>.  A reference implementation of the whole
  interface (\<open>ref_sdk\<close>) interprets it and makes the model executable.
\<close>

section \<open>Coins\<close>

type_synonym addr = "byte list"

record coin =
  Denom :: string
  Amount :: int

type_synonym coins = "coin list"

text \<open>The amount a list of coins holds of a denom, and the canonical form of
  \<open>sdk.Coins\<close>: ascending denoms, no duplicates, positive amounts.\<close>

definition amt :: "coins \<Rightarrow> string \<Rightarrow> int" where
  "amt cs d = (\<Sum>c\<leftarrow>cs. if Denom c = d then Amount c else 0)"

definition coins_ok :: "coins \<Rightarrow> bool" where
  "coins_ok cs \<longleftrightarrow> sorted_wrt (<) (map Denom cs) \<and> (\<forall>c \<in> set cs. 0 < Amount c)"

definition coins_nn :: "coins \<Rightarrow> bool" where
  "coins_nn cs \<longleftrightarrow> sorted_wrt (<) (map Denom cs) \<and> (\<forall>c \<in> set cs. 0 \<le> Amount c)"

lemma amt_Nil [simp]: "amt [] d = 0"
  by (simp add: amt_def)

lemma amt_Cons [simp]: "amt (c # cs) d = (if Denom c = d then Amount c else 0) + amt cs d"
  by (simp add: amt_def)

lemma amt_append [simp]: "amt (as @ bs) d = amt as d + amt bs d"
  by (simp add: amt_def)

lemma coins_ok_Nil [simp]: "coins_ok []"
  by (simp add: coins_ok_def)

lemma coins_nn_single [simp]: "coins_nn [c] \<longleftrightarrow> 0 \<le> Amount c"
  by (simp add: coins_nn_def)

lemma coins_ok_single [simp]: "coins_ok [c] \<longleftrightarrow> 0 < Amount c"
  by (simp add: coins_ok_def)

lemma coins_ok_nn: "coins_ok cs \<Longrightarrow> coins_nn cs"
  by (auto simp: coins_ok_def coins_nn_def less_imp_le)

lemma coins_ok_Cons:
  "coins_ok (c # cs) \<longleftrightarrow> (\<forall>c' \<in> set cs. Denom c < Denom c') \<and> 0 < Amount c \<and> coins_ok cs"
  by (auto simp: coins_ok_def)

lemma amt_absent: "d \<notin> Denom ` set cs \<Longrightarrow> amt cs d = 0"
  by (induction cs) auto

lemma amt_below: "\<forall>c' \<in> set cs. d < Denom c' \<Longrightarrow> amt cs d = 0"
  by (rule amt_absent) auto

lemma amt_mem: "coins_ok cs \<Longrightarrow> c \<in> set cs \<Longrightarrow> amt cs (Denom c) = Amount c"
proof (induction cs)
  case (Cons b cs)
  then show ?case
    by (auto simp: coins_ok_Cons amt_below dest: bspec)
qed simp

lemma amt_nonneg: "coins_nn cs \<Longrightarrow> 0 \<le> amt cs d"
  by (induction cs) (auto simp: coins_nn_def)

lemma amt_ok_nonneg [simp]: "coins_ok cs \<Longrightarrow> 0 \<le> amt cs d"
  by (rule amt_nonneg [OF coins_ok_nn])

lemma amt_pos_iff: "coins_ok cs \<Longrightarrow> 0 < amt cs d \<longleftrightarrow> d \<in> Denom ` set cs"
proof
  assume ok: "coins_ok cs" and "d \<in> Denom ` set cs"
  then obtain c where "c \<in> set cs" and "d = Denom c" by auto
  with ok show "0 < amt cs d" by (auto simp: amt_mem coins_ok_def)
next
  assume "coins_ok cs" and "0 < amt cs d"
  then show "d \<in> Denom ` set cs" by (metis amt_absent less_irrefl)
qed

lemma coins_ok_empty_iff: "coins_ok cs \<Longrightarrow> (\<forall>c \<in> set cs. Amount c = 0) \<longleftrightarrow> cs = []"
  by (cases cs) (auto simp: coins_ok_def)

lemma coins_ext:
  assumes "coins_ok as" and "coins_ok bs" and eq: "\<And>d. amt as d = amt bs d"
  shows "as = bs"
proof -
  have dn: "set (map Denom as) = set (map Denom bs)"
    using amt_pos_iff [OF assms(1)] amt_pos_iff [OF assms(2)] eq by auto
  then have m: "map Denom as = map Denom bs"
    using assms(1,2) by (intro strict_sorted_equal) (auto simp: coins_ok_def)
  have canon: "cs = map (\<lambda>d. \<lparr>Denom = d, Amount = amt cs d\<rparr>) (map Denom cs)"
    if "coins_ok cs" for cs
    unfolding map_map using amt_mem [OF that] by (intro map_idI [symmetric]) auto
  show ?thesis
    using canon [OF assms(1)] canon [OF assms(2)] m eq by simp
qed

section \<open>The interface\<close>

record 'x sdk =
  \<comment> \<open>addresses: \<open>types\<close>, \<open>types/address\<close>, and \<open>crypto/sha256\<close>\<close>
  AccAddressFromBech32 :: "string \<Rightarrow> addr option"
  AccAddressString :: "addr \<Rightarrow> string"
  ModuleAddress :: "string \<Rightarrow> byte list \<Rightarrow> addr"
  Sum256 :: "byte list \<Rightarrow> byte list"
  \<comment> \<open>\<open>url.Parse\<close>: the scheme, the host and whether user information is present\<close>
  ParseURL :: "string \<Rightarrow> (string \<times> string \<times> bool) option"
  \<comment> \<open>\<open>sdk.Coin\<close>, \<open>sdk.Coins\<close> and \<open>math.Int\<close>; \<open>None\<close> is a panic\<close>
  CoinIsValid :: "coin \<Rightarrow> bool"
  NewCoin :: "string \<Rightarrow> int \<Rightarrow> coin option"
  NewCoins :: "coin list \<Rightarrow> coins option"
  CoinsAdd :: "coins \<Rightarrow> coin list \<Rightarrow> coins option"
  CoinsSub :: "coins \<Rightarrow> coin list \<Rightarrow> coins option"
  CoinsAmountOf :: "coins \<Rightarrow> string \<Rightarrow> int"
  CoinsIsZero :: "coins \<Rightarrow> bool"
  CoinsIsValid :: "coins \<Rightarrow> bool"
  CoinsEqual :: "coins \<Rightarrow> coins \<Rightarrow> bool"
  IntMul :: "int \<Rightarrow> int \<Rightarrow> int option"
  IntQuo :: "int \<Rightarrow> int \<Rightarrow> int"
  IntMod :: "int \<Rightarrow> int \<Rightarrow> int"
  \<comment> \<open>\<open>x/bank\<close> and \<open>x/auth\<close> keepers; \<open>None\<close> is a returned error\<close>
  GetBalance :: "'x \<Rightarrow> addr \<Rightarrow> string \<Rightarrow> coin"
  GetAllBalances :: "'x \<Rightarrow> addr \<Rightarrow> coins"
  SendCoins :: "'x \<Rightarrow> addr \<Rightarrow> addr \<Rightarrow> coins \<Rightarrow> 'x option"
  HasAccount :: "'x \<Rightarrow> addr \<Rightarrow> bool"
  RegisterAccount :: "'x \<Rightarrow> addr \<Rightarrow> 'x"

abbreviation bal :: "'x sdk \<Rightarrow> 'x \<Rightarrow> addr \<Rightarrow> string \<Rightarrow> int" where
  "bal E x a d \<equiv> Amount (GetBalance E x a d)"

locale sdk_laws =
  fixes E :: "'x sdk"
  assumes bech32_reencode:
      "AccAddressFromBech32 E s = Some a \<Longrightarrow>
       AccAddressFromBech32 E (AccAddressString E a) = Some a"
    and bech32_empty: "AccAddressFromBech32 E [] = None"
    and CoinIsValid_nonneg: "CoinIsValid E c \<Longrightarrow> 0 \<le> Amount c"
    and NewCoin_law: "NewCoin E d n = Some c \<Longrightarrow> c = \<lparr>Denom = d, Amount = n\<rparr> \<and> 0 \<le> n"
    and NewCoins_single: "NewCoins E [c] = Some cs \<Longrightarrow> 0 < Amount c \<Longrightarrow> cs = [c]"
    and CoinsAdd_law:
      "CoinsAdd E as bs = Some cs \<Longrightarrow> coins_ok as \<Longrightarrow> coins_nn bs \<Longrightarrow>
       coins_ok cs \<and> (\<forall>d. amt cs d = amt as d + amt bs d)"
    and CoinsSub_law:
      "CoinsSub E as bs = Some cs \<Longrightarrow> coins_ok as \<Longrightarrow> coins_nn bs \<Longrightarrow>
       coins_ok cs \<and> (\<forall>d. amt cs d = amt as d - amt bs d)"
    and CoinsAmountOf_law: "coins_ok as \<Longrightarrow> CoinsAmountOf E as d = amt as d"
    and CoinsIsZero_law: "CoinsIsZero E as \<longleftrightarrow> (\<forall>c \<in> set as. Amount c = 0)"
    and CoinsIsValid_law: "CoinsIsValid E as \<Longrightarrow> coins_ok as"
    and CoinsEqual_law: "coins_ok as \<Longrightarrow> coins_ok bs \<Longrightarrow> CoinsEqual E as bs \<longleftrightarrow> as = bs"
    and IntMul_law: "IntMul E m n = Some k \<Longrightarrow> k = m * n"
    and IntQuo_law: "0 \<le> m \<Longrightarrow> 0 < n \<Longrightarrow> IntQuo E m n = m div n"
    and IntMod_law: "0 < n \<Longrightarrow> IntMod E m n = m mod n"
    and GetBalance_Denom: "Denom (GetBalance E x a d) = d"
    and GetBalance_nonneg: "0 \<le> bal E x a d"
    and SendCoins_law:
      "SendCoins E x f t cs = Some x' \<Longrightarrow> coins_ok cs \<Longrightarrow>
       bal E x' a d = bal E x a d - (if a = f then amt cs d else 0) + (if a = t then amt cs d else 0)"
    and RegisterAccount_bal: "bal E (RegisterAccount E x b) a d = bal E x a d"
    and NewCoins_law:
      "NewCoins E cs = Some cs' \<Longrightarrow> coins_ok cs \<Longrightarrow> coins_ok cs' \<and> (\<forall>d. amt cs' d = amt cs d)"
    and GetAllBalances_law: "coins_ok (GetAllBalances E x a) \<and> (\<forall>d. amt (GetAllBalances E x a) d = bal E x a d)"
    and SendCoins_valid: "SendCoins E x f t cs = Some x' \<Longrightarrow> coins_ok cs"
      \<comment> \<open>the bank refuses coins that are not valid\<close>
begin

lemma CoinsAdd_ok: "CoinsAdd E as bs = Some cs \<Longrightarrow> coins_ok as \<Longrightarrow> coins_nn bs \<Longrightarrow> coins_ok cs"
  using CoinsAdd_law by blast

lemma CoinsAdd_amt:
  "CoinsAdd E as bs = Some cs \<Longrightarrow> coins_ok as \<Longrightarrow> coins_nn bs \<Longrightarrow> amt cs d = amt as d + amt bs d"
  using CoinsAdd_law by blast

lemma CoinsIsZero_ok: "coins_ok as \<Longrightarrow> CoinsIsZero E as \<longleftrightarrow> as = []"
  by (simp add: CoinsIsZero_law coins_ok_empty_iff)

lemma SendCoins_total:
  assumes "SendCoins E x f t cs = Some x'" and "coins_ok cs" and "f \<noteq> t"
  shows "bal E x' f d + bal E x' t d = bal E x f d + bal E x t d"
  using assms by (simp add: SendCoins_law)

lemma SendCoins_frame:
  assumes "SendCoins E x f t cs = Some x'" and "coins_ok cs" and "a \<noteq> f" and "a \<noteq> t"
  shows "bal E x' a d = bal E x a d"
  using assms by (simp add: SendCoins_law)

end

section \<open>A reference implementation\<close>

record ref_bank =
  ref_tab :: "(addr, coins) kv"
  ref_accs :: "addr list"
  ref_supply :: "(string, int) kv"

fun ref_add1 :: "coin \<Rightarrow> coins \<Rightarrow> coins" where
  "ref_add1 c [] = (if Amount c = 0 then [] else [c])"
| "ref_add1 c (b # bs) =
     (if Amount c = 0 then b # bs
      else if Denom c < Denom b then c # b # bs
      else if Denom c = Denom b then b\<lparr>Amount := Amount b + Amount c\<rparr> # bs
      else b # ref_add1 c bs)"

definition ref_add :: "coins \<Rightarrow> coins \<Rightarrow> coins option" where
  "ref_add as bs =
     (let cs = fold ref_add1 bs as
      in if \<forall>c \<in> set cs. Amount c < 2 ^ 256 then Some cs else None)"

definition ref_sub :: "coins \<Rightarrow> coins \<Rightarrow> coins option" where
  "ref_sub as bs =
     (if (\<forall>b \<in> set bs. Amount b \<le> amt as (Denom b)) \<and> coins_ok bs
      then Some (filter (\<lambda>c. Amount c \<noteq> 0) (map (\<lambda>c. c\<lparr>Amount := Amount c - amt bs (Denom c)\<rparr>) as))
      else None)"

definition ref_row :: "ref_bank \<Rightarrow> addr \<Rightarrow> coins" where
  "ref_row x a = (case kv_get (ref_tab x) a of
       None \<Rightarrow> [] | Some cs \<Rightarrow> if coins_ok cs then cs else [])"

definition ref_put :: "ref_bank \<Rightarrow> addr \<Rightarrow> coins \<Rightarrow> ref_bank" where
  "ref_put x a cs = x\<lparr>ref_tab := kv_set a cs (ref_tab x)\<rparr>"

definition ref_send :: "ref_bank \<Rightarrow> addr \<Rightarrow> addr \<Rightarrow> coins \<Rightarrow> ref_bank option" where
  "ref_send x f t cs =
     (case ref_sub (ref_row x f) cs of
        None \<Rightarrow> None
      | Some r \<Rightarrow>
          (let x1 = ref_put x f r
           in case ref_add (ref_row x1 t) cs of
                None \<Rightarrow> None
              | Some r' \<Rightarrow> Some (ref_put x1 t r')))"

definition ref_hrp :: string where
  "ref_hrp = ''manifest1''"

definition ref_decode :: "string \<Rightarrow> addr option" where
  "ref_decode s = (if take 9 s = ref_hrp \<and> 9 < length s then Some (bytes_of (drop 9 s)) else None)"

definition ref_encode :: "addr \<Rightarrow> string" where
  "ref_encode a = ref_hrp @ map (\<lambda>b. char_of (unat b)) a"

definition ref_sdk :: "ref_bank sdk" where
  "ref_sdk = \<lparr>
     AccAddressFromBech32 = ref_decode,
     AccAddressString = ref_encode,
     ModuleAddress = (\<lambda>m k. bytes_of m @ k),
     Sum256 = (\<lambda>k. k),
     ParseURL = (\<lambda>u. if take 8 u = ''https://''
        then Some (''https'', drop 8 u, CHR ''@'' \<in> set u) else None),
     CoinIsValid = (\<lambda>c. Denom c \<noteq> [] \<and> 0 \<le> Amount c),
     NewCoin = (\<lambda>d n. if d \<noteq> [] \<and> 0 \<le> n then Some \<lparr>Denom = d, Amount = n\<rparr> else None),
     NewCoins = (\<lambda>cs. ref_add [] cs),
     CoinsAdd = ref_add,
     CoinsSub = ref_sub,
     CoinsAmountOf = amt,
     CoinsIsZero = (\<lambda>cs. \<forall>c \<in> set cs. Amount c = 0),
     CoinsIsValid = coins_ok,
     CoinsEqual = (\<lambda>as bs. as = bs),
     IntMul = (\<lambda>m n. if \<bar>m * n\<bar> < 2 ^ 256 then Some (m * n) else None),
     IntQuo = (\<lambda>m n. m sdiv n),
     IntMod = (\<lambda>m n. m mod \<bar>n\<bar>),
     GetBalance = (\<lambda>x a d. \<lparr>Denom = d, Amount = amt (ref_row x a) d\<rparr>),
     GetAllBalances = ref_row,
     SendCoins = ref_send,
     HasAccount = (\<lambda>x a. a \<in> set (ref_accs x)),
     RegisterAccount = (\<lambda>x a. x\<lparr>ref_accs := a # ref_accs x\<rparr>)\<rparr>"

lemma ref_add1_mem: "c' \<in> set (ref_add1 c cs) \<Longrightarrow> Denom c' = Denom c \<or> Denom c' \<in> Denom ` set cs"
  by (induction c cs rule: ref_add1.induct) (auto split: if_splits)

lemma ref_add1_ok: "coins_ok cs \<Longrightarrow> 0 \<le> Amount c \<Longrightarrow> coins_ok (ref_add1 c cs)"
proof (induction c cs rule: ref_add1.induct)
  case (2 c b bs)
  then show ?case
    by (auto simp: coins_ok_Cons dest!: ref_add1_mem)
qed simp

lemma ref_add1_amt: "amt (ref_add1 c cs) d = amt cs d + amt [c] d"
  by (induction c cs rule: ref_add1.induct) auto

lemma ref_fold_add:
  "coins_ok as \<Longrightarrow> \<forall>b \<in> set bs. 0 \<le> Amount b \<Longrightarrow>
   coins_ok (fold ref_add1 bs as) \<and> amt (fold ref_add1 bs as) d = amt as d + amt bs d"
  by (induction bs arbitrary: as) (auto simp: ref_add1_ok ref_add1_amt)

lemma ref_sub_law:
  assumes "ref_sub as bs = Some cs" and "coins_ok as"
  shows "coins_ok cs \<and> amt cs d = amt as d - amt bs d"
proof -
  let ?f = "\<lambda>c. c\<lparr>Amount := Amount c - amt bs (Denom c)\<rparr>"
  from assms(1) have le: "\<forall>b \<in> set bs. Amount b \<le> amt as (Denom b)" and okb: "coins_ok bs"
    and cs: "cs = filter (\<lambda>c. Amount c \<noteq> 0) (map ?f as)"
    by (auto simp: ref_sub_def split: if_splits)
  have bound: "amt bs d \<le> amt as d" for d
  proof (cases "d \<in> Denom ` set bs")
    case True
    with le okb show ?thesis by (auto simp: amt_mem)
  next
    case False
    with assms(2) show ?thesis by (simp add: amt_absent)
  qed
  have ok: "coins_ok (filter (\<lambda>c. Amount c \<noteq> 0) (map ?f cs'))"
    if "coins_ok cs'" and "\<forall>c \<in> set cs'. amt bs (Denom c) \<le> Amount c" for cs'
    using that by (induction cs') (auto simp: coins_ok_Cons)
  have eq: "amt (filter (\<lambda>c. Amount c \<noteq> 0) (map ?f cs')) d =
      (if d \<in> Denom ` set cs' then amt cs' d - amt bs d else 0)" if "coins_ok cs'" for cs'
    using that
  proof (induction cs')
    case (Cons c cs')
    then show ?case
      by (auto simp: coins_ok_Cons amt_absent)
  qed simp
  have "\<forall>c \<in> set as. amt bs (Denom c) \<le> Amount c"
    using bound assms(2) by (metis amt_mem)
  moreover have "d \<notin> Denom ` set as \<Longrightarrow> amt bs d = 0"
    using bound [of d] okb by (simp add: amt_absent order_antisym)
  ultimately show ?thesis
    using ok [OF assms(2)] eq [OF assms(2)] cs amt_absent [of d as] by auto
qed

lemma ref_add_law:
  assumes "ref_add as bs = Some cs" and "coins_ok as" and "coins_nn bs"
  shows "coins_ok cs \<and> amt cs d = amt as d + amt bs d"
  using assms ref_fold_add [of as bs d]
  by (auto simp: ref_add_def Let_def coins_nn_def split: if_splits)

lemma ref_row_ok [simp]: "coins_ok (ref_row x a)"
  by (simp add: ref_row_def split: option.splits)

lemma ref_row_put [simp]:
  "coins_ok cs \<Longrightarrow> ref_row (ref_put x a cs) b = (if b = a then cs else ref_row x b)"
  by (simp add: ref_row_def ref_put_def)

lemma ref_send_law:
  assumes "ref_send x f t cs = Some x'" and ok: "coins_ok cs"
  shows "amt (ref_row x' a) d = amt (ref_row x a) d
     - (if a = f then amt cs d else 0) + (if a = t then amt cs d else 0)"
proof -
  from assms obtain r r' where r: "ref_sub (ref_row x f) cs = Some r"
    and r': "ref_add (ref_row (ref_put x f r) t) cs = Some r'"
    and x': "x' = ref_put (ref_put x f r) t r'"
    by (auto simp: ref_send_def Let_def split: option.splits)
  note rl = ref_sub_law [OF r ref_row_ok]
  note rl' = ref_add_law [OF r' ref_row_ok coins_ok_nn [OF ok]]
  show ?thesis
    using rl rl' [of d] rl [of d] x' by auto
qed

lemma ref_encode_decode: "ref_decode s = Some a \<Longrightarrow> ref_decode (ref_encode a) = Some a"
proof -
  assume "ref_decode s = Some a"
  then have len: "a \<noteq> []" by (auto simp: ref_decode_def bytes_of_def split: if_splits)
  have "bytes_of (map (\<lambda>b. char_of (unat b)) a) = a"
    unfolding bytes_of_def map_map
    by (intro map_idI) (simp add: of_char_of take_bit_nat_eq_self_iff
        unsigned_less [where 'b = 8, simplified])
  with len show ?thesis
    by (simp add: ref_decode_def ref_encode_def ref_hrp_def)
qed

interpretation ref: sdk_laws ref_sdk
proof (unfold_locales, goal_cases)
  case (1 s a)
  then show ?case by (simp add: ref_sdk_def ref_encode_decode)
next
  case 2
  then show ?case by (simp add: ref_sdk_def ref_decode_def ref_hrp_def)
next
  case (6 as bs cs)
  then show ?case
    using ref_add_law by (auto simp: ref_sdk_def)
next
  case (7 as bs cs)
  then show ?case using ref_sub_law by (auto simp: ref_sdk_def)
next
  case (13 m n)
  then show ?case by (cases "m = 0") (simp_all add: ref_sdk_def signed_divide_int_def)
next
  case (17 x f t cs x' a d)
  then show ?case using ref_send_law [of x f t cs x' a d] by (simp add: ref_sdk_def)
next
  case (18 x b a d)
  then show ?case by (simp add: ref_sdk_def ref_row_def)
next
  case (19 cs cs')
  then show ?case using ref_add_law [of "[]" cs cs'] by (auto simp: ref_sdk_def coins_ok_nn)
next
  case (21 x f t cs x')
  then show ?case by (auto simp: ref_sdk_def ref_send_def ref_sub_def split: option.splits if_split_asm)
qed (auto simp: ref_sdk_def ref_add_def Let_def split: if_splits)

section \<open>Time\<close>

text \<open>
  A \<open>time.Time\<close> is the nanosecond count since the Unix epoch; a \<open>time.Duration\<close>
  is an int64 count of nanoseconds, and \<open>Sub\<close> saturates at its bounds.
\<close>

type_synonym time = int
type_synonym duration = int

definition Second :: duration where
  "Second = 1000000000"

definition zeroTime :: time where
  \<comment> \<open>January 1, year 1: the zero value of \<open>time.Time\<close>\<close>
  "zeroTime = - 62135596800 * 1000000000"

definition timeSub :: "time \<Rightarrow> time \<Rightarrow> duration" where
  "timeSub t u = max (- (2 ^ 63)) (min (2 ^ 63 - 1) (t - u))"

definition UnixMilli :: "time \<Rightarrow> int" where
  "UnixMilli t = i64 (t div 1000000)"

lemma timeSub_pos_iff [simp]: "0 < timeSub t u \<longleftrightarrow> u < t"
  by (auto simp: timeSub_def)

lemma timeSub_le_0_iff [simp]: "timeSub t u \<le> 0 \<longleftrightarrow> t \<le> u"
  by (auto simp: timeSub_def)

lemma timeSub_neg_iff [simp]: "timeSub t u < 0 \<longleftrightarrow> t < u"
  by (auto simp: timeSub_def)

text \<open>The context of a block: what \<open>sdk.Context\<close> offers the keepers.\<close>

record block_ctx =
  BlockTime :: time
  HeaderHash :: "byte list"
  ChainID :: string

section \<open>Events\<close>

text \<open>An event carries its type and attributes; the printed form of coins and
  numbers stays symbolic.\<close>

datatype attr = AStr string | ACoins coins | ACoin coin | ANat nat | AInt int | AHex "byte list"

datatype event = Event string "(string \<times> attr) list"

end
