(* ===== verification/Uuid.thy ===== *)
theory Uuid
  imports Sdk
begin

text \<open>
  \<open>pkg/uuid\<close>: deterministic UUIDv7 generation and validation.  A UUID is built as
  16 bytes (48-bit millisecond timestamp, version nibble and 12-bit sequence,
  variant bits and 62 bits of an FNV-1a hash) and printed as lower-case hex.
\<close>

unbundle bit_operations_syntax

section \<open>Definitions\<close>

definition fnvPrime :: u64 where
  "fnvPrime = 1099511628211"

definition fnvOffset :: u64 where
  "fnvOffset = 14695981039346656037"

definition fnvStep :: "u64 \<Rightarrow> byte \<Rightarrow> u64" where
  "fnvStep hash b = (hash XOR ucast b) * fnvPrime"

definition PutUint64 :: "u64 \<Rightarrow> byte list" where
  \<comment> \<open>\<open>binary.BigEndian.PutUint64\<close>\<close>
  "PutUint64 v = map (\<lambda>k. ucast (drop_bit k v)) [56, 48, 40, 32, 24, 16, 8, 0]"

definition hashEntropy :: "byte list \<Rightarrow> string \<Rightarrow> string \<Rightarrow> u64 \<Rightarrow> u64" where
  "hashEntropy headerHash chainID moduleName sequence =
     (let h0 = fnvOffset;
          h1 = foldl fnvStep h0 headerHash;
          h2 = foldl fnvStep h1 (bytes_of chainID);
          h3 = foldl fnvStep h2 (bytes_of moduleName)
      in foldl fnvStep h3 (PutUint64 sequence))"

definition hexDigit :: "nat \<Rightarrow> char" where
  "hexDigit n = (if n < 10 then char_of (48 + n) else char_of (87 + n))"

definition hexByte :: "byte \<Rightarrow> string" where
  "hexByte b = [hexDigit (unat b div 16), hexDigit (unat b mod 16)]"

definition hexBytes :: "byte list \<Rightarrow> string" where
  \<comment> \<open>the verb \<open>%x\<close> on a byte slice\<close>
  "hexBytes bs = concat (map hexByte bs)"

definition formatUUID :: "byte list \<Rightarrow> string" where
  "formatUUID uuid =
     hexBytes (take 4 uuid) @ ''-'' @
     hexBytes (take 2 (drop 4 uuid)) @ ''-'' @
     hexBytes (take 2 (drop 6 uuid)) @ ''-'' @
     hexBytes (take 2 (drop 8 uuid)) @ ''-'' @
     hexBytes (take 6 (drop 10 uuid))"

definition uuidBytes :: "u64 \<Rightarrow> u64 \<Rightarrow> u64 \<Rightarrow> byte list" where
  "uuidBytes ms sequence nodeHash =
     [ucast (drop_bit 40 ms), ucast (drop_bit 32 ms), ucast (drop_bit 24 ms),
      ucast (drop_bit 16 ms), ucast (drop_bit 8 ms), ucast ms,
      0x70 OR ucast (drop_bit 8 sequence AND 0x0F), ucast (sequence AND 0xFF),
      0x80 OR ucast (drop_bit 56 nodeHash AND 0x3F), ucast (drop_bit 48 nodeHash),
      ucast (drop_bit 40 nodeHash), ucast (drop_bit 32 nodeHash), ucast (drop_bit 24 nodeHash),
      ucast (drop_bit 16 nodeHash), ucast (drop_bit 8 nodeHash), ucast nodeHash]"

definition GenerateUUIDv7WithEntropy ::
  "time \<Rightarrow> byte list \<Rightarrow> string \<Rightarrow> string \<Rightarrow> u64 \<Rightarrow> string" where
  "GenerateUUIDv7WithEntropy t headerHash chainID moduleName sequence =
     (let ms = word_of_int (UnixMilli t);
          nodeHash = hashEntropy headerHash chainID moduleName sequence
      in formatUUID (uuidBytes ms sequence nodeHash))"

definition GenerateUUIDv7 :: "block_ctx \<Rightarrow> string \<Rightarrow> u64 \<Rightarrow> string" where
  "GenerateUUIDv7 ctx moduleName sequence =
     GenerateUUIDv7WithEntropy (BlockTime ctx) (HeaderHash ctx) (ChainID ctx) moduleName sequence"

definition GenerateUUIDv7FromTime :: "time \<Rightarrow> string \<Rightarrow> u64 \<Rightarrow> string" where
  "GenerateUUIDv7FromTime t moduleName sequence =
     GenerateUUIDv7WithEntropy t [] [] moduleName sequence"

definition isHex :: "char \<Rightarrow> bool" where
  "isHex c \<longleftrightarrow> (CHR ''0'' \<le> c \<and> c \<le> CHR ''9'') \<or> (CHR ''a'' \<le> c \<and> c \<le> CHR ''f'')"

definition uuidPattern :: "(char \<Rightarrow> bool) list" where
  "uuidPattern =
     replicate 8 isHex @ [(=) CHR ''-''] @
     replicate 4 isHex @ [(=) CHR ''-''] @
     [(=) CHR ''7''] @ replicate 3 isHex @ [(=) CHR ''-''] @
     [\<lambda>c. c \<in> set ''89ab''] @ replicate 3 isHex @ [(=) CHR ''-''] @
     replicate 12 isHex"

definition IsValidUUIDv7 :: "string \<Rightarrow> bool" where
  "IsValidUUIDv7 s = list_all2 (\<lambda>p c. p c) uuidPattern s"

definition IsValidUUID :: "string \<Rightarrow> bool" where
  "IsValidUUID s = IsValidUUIDv7 s"

datatype uuid_error = UuidEmpty | UuidInvalidFormat

definition ValidateUUIDv7 :: "string \<Rightarrow> uuid_error checked" where
  "ValidateUUIDv7 s =
     (if s = [] then Err UuidEmpty
      else if \<not> IsValidUUIDv7 s then Err UuidInvalidFormat
      else Ok ())"

section \<open>Hex printing\<close>

lemma hexDigit_isHex: "n < 16 \<Longrightarrow> isHex (hexDigit n)"
proof -
  assume "n < 16"
  then have "n \<in> {0, 1, 2, 3, 4, 5, 6, 7, 8, 9, 10, 11, 12, 13, 14, 15}"
    by (simp, presburger)
  then show ?thesis
    by (auto simp: isHex_def hexDigit_def less_eq_char_def)
qed

lemma of_char_hexDigit:
  "n < 16 \<Longrightarrow> (of_char (hexDigit n) :: nat) = (if n < 10 then 48 + n else 87 + n)"
  by (auto simp: hexDigit_def of_char_of)

lemma hexDigit_less: "m < n \<Longrightarrow> n < 16 \<Longrightarrow> hexDigit m < hexDigit n"
  by (auto simp: less_char_def of_char_hexDigit)

lemma hexDigit_inject: "m < 16 \<Longrightarrow> n < 16 \<Longrightarrow> hexDigit m = hexDigit n \<longleftrightarrow> m = n"
  by (metis hexDigit_less less_irrefl linorder_neqE_nat)

lemma unat_byte: "unat (b :: byte) < 256"
  using unsigned_less [of b] by simp

lemma byte_nibbles [simp]: "unat (b :: byte) div 16 < 16" "unat (b :: byte) mod 16 < 16"
  using unat_byte [of b] by auto

lemma hexByte_inject: "hexByte a = hexByte b \<longleftrightarrow> a = b"
proof
  assume "hexByte a = hexByte b"
  then have "unat a div 16 = unat b div 16" and "unat a mod 16 = unat b mod 16"
    by (simp_all add: hexByte_def hexDigit_inject)
  then have "unat a = unat b" by (metis div_mod_decomp)
  then show "a = b" by (rule unsigned_word_eqI)
qed simp

lemma hexByte_less: "a < b \<Longrightarrow> hexByte a < hexByte b"
proof -
  assume "a < b"
  then have lt: "unat a < unat b" by (simp add: word_less_nat_alt)
  show ?thesis
  proof (cases "unat a div 16 = unat b div 16")
    case True
    with lt have "unat a mod 16 < unat b mod 16"
      by (metis add_less_cancel_left div_mod_decomp)
    with True show ?thesis by (simp add: hexByte_def hexDigit_less)
  next
    case False
    with lt have "unat a div 16 < unat b div 16"
      by (meson div_le_mono le_neq_implies_less less_imp_le)
    then show ?thesis by (simp add: hexByte_def hexDigit_less)
  qed
qed

lemma hexBytes_simps [simp]:
  "hexBytes [] = []" "hexBytes (b # bs) = hexByte b @ hexBytes bs"
  by (simp_all add: hexBytes_def)

lemma length_hexByte [simp]: "length (hexByte b) = 2"
  by (simp add: hexByte_def)

lemma hexByte_isHex [simp]: "\<forall>c \<in> set (hexByte b). isHex c"
  by (simp add: hexByte_def hexDigit_isHex)

lemma append_less_left: "(as @ xs :: string) < as @ ys \<longleftrightarrow> xs < ys"
  by (induction as) auto

lemma append_less_prefix:
  "length as = length bs \<Longrightarrow> (as :: string) < bs \<Longrightarrow> as @ xs < bs @ ys"
  by (induction as bs rule: list_induct2) auto

section \<open>Validity of generated identifiers\<close>

lemma hexByte_eq: "hexByte b = [x, y] \<longleftrightarrow> x = hexDigit (unat b div 16) \<and> y = hexDigit (unat b mod 16)"
  by (auto simp: hexByte_def)

text \<open>The bytes as numbers.\<close>

lemma or_disjoint: "m < 2 ^ k \<Longrightarrow> push_bit k c OR m = push_bit k c + (m :: nat)"
proof -
  assume "m < 2 ^ k"
  then have m: "take_bit k m = m" by (simp add: take_bit_nat_eq_self_iff)
  have "push_bit k c AND take_bit k m = 0"
    by (rule bit_eqI) (auto simp: bit_simps)
  then have "push_bit k c + take_bit k m = push_bit k c OR take_bit k m"
    by (rule disjunctive_add_eq_or)
  then show ?thesis using m by simp
qed

lemma or_nibble: "m < 16 \<Longrightarrow> (112 :: nat) OR m = 112 + m"
  using or_disjoint [of m 4 7] by (simp add: push_bit_eq_mult)

lemma or_variant: "m < 64 \<Longrightarrow> (128 :: nat) OR m = 128 + m"
  using or_disjoint [of m 7 1] by (simp add: push_bit_eq_mult)

lemma and_mask_nat: "n AND 15 = n mod (16 :: nat)" "n AND 63 = n mod (64 :: nat)"
  "n AND 255 = n mod (256 :: nat)"
  using take_bit_eq_mask [of 4 n] take_bit_eq_mask [of 6 n] take_bit_eq_mask [of 8 n]
  by (simp_all add: mask_eq_exp_minus_1 take_bit_eq_mod)

lemma unat_drop_bit: "unat (drop_bit k (v :: u64)) = unat v div 2 ^ k"
proof -
  have "unat v < 2 ^ 64" using unsigned_less [of v] by simp
  then show ?thesis
    unfolding unsigned_drop_bit_eq by (simp add: drop_bit_eq_div take_bit_nat_eq_self)
qed

lemma unat_byte_of: "unat (ucast (drop_bit k (v :: u64)) :: byte) = unat v div 2 ^ k mod 256"
  by (simp add: unsigned_ucast_eq unat_drop_bit take_bit_eq_mod del: drop_bit_eq_div)

lemma unat_low_byte: "unat (ucast (v :: u64) :: byte) = unat v mod 256"
  by (simp add: unsigned_ucast_eq take_bit_eq_mod)

lemma unat_version_byte:
  "unat ((0x70 :: byte) OR ucast (drop_bit 8 (s :: u64) AND 0x0F)) = 112 + unat s div 256 mod 16"
  by (simp add: unsigned_or_eq unsigned_ucast_eq unsigned_and_eq unat_drop_bit
      take_bit_eq_mod and_mask_nat or_nibble mod_mod_cancel)

lemma unat_sequence_byte: "unat (ucast ((s :: u64) AND 0xFF) :: byte) = unat s mod 256"
  by (simp add: unsigned_ucast_eq unsigned_and_eq take_bit_eq_mod and_mask_nat)

lemma unat_variant_byte:
  "unat ((0x80 :: byte) OR ucast (drop_bit 56 (h :: u64) AND 0x3F)) = 128 + unat h div 2 ^ 56 mod 64"
  by (simp add: unsigned_or_eq unsigned_ucast_eq unsigned_and_eq unat_drop_bit
      take_bit_eq_mod and_mask_nat or_variant mod_mod_cancel)

lemmas unat_uuid_byte =
  unat_byte_of unat_low_byte unat_version_byte unat_sequence_byte unat_variant_byte

section \<open>Big-endian digits\<close>

text \<open>\<open>be n x\<close> are the last \<open>n\<close> base-256 digits of \<open>x\<close>, most significant first.\<close>

fun be :: "nat \<Rightarrow> nat \<Rightarrow> nat list" where
  "be 0 x = []"
| "be (Suc n) x = (x div 256 ^ n mod 256) # be n x"

lemma mod_256_Suc: "x mod 256 ^ Suc n = (x div 256 ^ n mod 256) * 256 ^ n + x mod (256 ^ n :: nat)"
  using mod_mult2_eq [of x "256 ^ n" 256] by (simp add: mult.commute)

lemma be_inject: "be n x = be n y \<longleftrightarrow> x mod 256 ^ n = y mod 256 ^ n"
proof (induction n)
  case (Suc n)
  show ?case
  proof
    assume "be (Suc n) x = be (Suc n) y"
    with Suc show "x mod 256 ^ Suc n = y mod 256 ^ Suc n"
      by (simp only: mod_256_Suc be.simps list.inject)
  next
    assume eq: "x mod 256 ^ Suc n = y mod 256 ^ Suc n"
    have lo: "z mod 256 ^ n = z mod 256 ^ Suc n mod 256 ^ n" for z :: nat
      by (simp add: mod_mod_cancel)
    have hi: "z div 256 ^ n mod 256 = z mod 256 ^ Suc n div 256 ^ n" for z :: nat
      by (simp add: mod_256_Suc del: power_Suc)
    show "be (Suc n) x = be (Suc n) y"
      using Suc lo [of x] lo [of y] hi [of x] hi [of y] eq by simp
  qed
qed simp

lemma be_less: "x mod 256 ^ n < y mod 256 ^ n \<Longrightarrow> be n x < be n y"
proof (induction n)
  case (Suc n)
  let ?h = "\<lambda>z. z div 256 ^ n mod 256" and ?l = "\<lambda>z. z mod (256 ^ n :: nat)"
  from Suc.prems have lt: "?h x * 256 ^ n + ?l x < ?h y * 256 ^ n + ?l y"
    by (simp only: mod_256_Suc)
  have "?h x \<le> ?h y"
  proof (rule ccontr)
    assume "\<not> ?h x \<le> ?h y"
    then have "Suc (?h y) * 256 ^ n \<le> ?h x * 256 ^ n"
      by (intro mult_le_mono1) simp
    moreover have "?l y < 256 ^ n" by simp
    ultimately have "?h y * 256 ^ n + ?l y < ?h x * 256 ^ n + ?l x"
      unfolding mult_Suc by linarith
    with lt show False by simp
  qed
  moreover have "?l x < ?l y" if "?h x = ?h y"
    using lt that by simp
  ultimately show ?case
    using Suc.IH by (cases "?h x = ?h y") auto
qed simp

section \<open>Properties of generated identifiers\<close>

abbreviation unixMs :: "time \<Rightarrow> u64" where
  "unixMs t \<equiv> word_of_int (UnixMilli t)"

lemma length_uuidBytes [simp]: "length (uuidBytes ms sq h) = 16"
  by (simp add: uuidBytes_def)

lemma formatUUID_split:
  "formatUUID (uuidBytes ms sq h) =
     hexBytes (take 4 (uuidBytes ms sq h)) @ ''-'' @
     hexBytes (take 2 (drop 4 (uuidBytes ms sq h))) @ drop 13 (formatUUID (uuidBytes ms sq h))"
  by (simp add: formatUUID_def uuidBytes_def hexByte_def)

lemma formatUUID_inject:
  "formatUUID (uuidBytes ms sq h) = formatUUID (uuidBytes ms' sq' h') \<longleftrightarrow>
   uuidBytes ms sq h = uuidBytes ms' sq' h'"
proof
  assume "formatUUID (uuidBytes ms sq h) = formatUUID (uuidBytes ms' sq' h')"
  then show "uuidBytes ms sq h = uuidBytes ms' sq' h'"
    unfolding formatUUID_def uuidBytes_def
    by (simp add: hexByte_inject)
qed simp

lemma hexDigit_chars:
  "hexDigit 7 = CHR ''7''" "hexDigit 8 = CHR ''8''" "hexDigit 9 = CHR ''9''"
  "hexDigit 10 = CHR ''a''" "hexDigit 11 = CHR ''b''"
  by code_simp+

lemma variant_nibble:
  "m < 64 \<Longrightarrow> (128 + m) div 16 \<in> {8, 9, 10, 11 :: nat}"
  by (auto simp: div_less_iff_less_mult)

lemma uuidPattern_eq:
  "uuidPattern =
     [isHex, isHex, isHex, isHex, isHex, isHex, isHex, isHex, (=) CHR ''-'',
      isHex, isHex, isHex, isHex, (=) CHR ''-'',
      (=) CHR ''7'', isHex, isHex, isHex, (=) CHR ''-'',
      \<lambda>c. c \<in> set ''89ab'', isHex, isHex, isHex, (=) CHR ''-'',
      isHex, isHex, isHex, isHex, isHex, isHex, isHex, isHex, isHex, isHex, isHex, isHex]"
  by (simp add: uuidPattern_def numeral_eq_Suc)

lemma formatUUID_valid_bytes:
  assumes "hexDigit (unat b6 div 16) = CHR ''7''" and "hexDigit (unat b8 div 16) \<in> set ''89ab''"
  shows "IsValidUUIDv7 (formatUUID [b0, b1, b2, b3, b4, b5, b6, b7, b8, b9, b10, b11, b12, b13, b14, b15])"
  using assms
  by (simp add: IsValidUUIDv7_def uuidPattern_eq formatUUID_def hexByte_def hexDigit_isHex)

lemma formatUUID_valid: "IsValidUUIDv7 (formatUUID (uuidBytes ms sq h))"
proof -
  have "(112 + m) div 16 = (7 :: nat)" if "m < 16" for m
    using that by simp
  then have v: "hexDigit (unat ((0x70 :: byte) OR ucast (drop_bit 8 sq AND 0x0F)) div 16) = CHR ''7''"
    unfolding unat_version_byte by (simp add: hexDigit_chars)
  have "unat ((0x80 :: byte) OR ucast (drop_bit 56 h AND 0x3F)) div 16 \<in> {8, 9, 10, 11}"
    unfolding unat_variant_byte by (rule variant_nibble) simp
  then have w: "hexDigit (unat ((0x80 :: byte) OR ucast (drop_bit 56 h AND 0x3F)) div 16) \<in> set ''89ab''"
    by (auto simp: hexDigit_chars)
  show ?thesis
    unfolding uuidBytes_def by (rule formatUUID_valid_bytes [OF v w])
qed

lemma be_numeral: "be (numeral k) x = (x div 256 ^ pred_numeral k mod 256) # be (pred_numeral k) x"
  by (simp only: numeral_eq_Suc be.simps)

lemma be_6:
  "be 6 x = [x div 2 ^ 40 mod 256, x div 2 ^ 32 mod 256, x div 2 ^ 24 mod 256,
     x div 2 ^ 16 mod 256, x div 2 ^ 8 mod 256, x mod 256]"
  by (simp add: be_numeral)

lemma be_7: "be 7 x = (x div 2 ^ 48 mod 256) # be 6 x"
  by (simp add: be_numeral [of "num.Bit1 (num.Bit1 num.One)"])

lemma unat_uuidBytes:
  "map unat (uuidBytes ms sq h) =
     be 6 (unat ms) @
     [112 + unat sq div 256 mod 16, unat sq mod 256, 128 + unat h div 2 ^ 56 mod 64] @
     be 7 (unat h)"
  unfolding uuidBytes_def be_6 be_7 list.map append.simps
  by (simp only: unat_byte_of unat_version_byte unat_sequence_byte unat_variant_byte)
     (simp only: unat_low_byte)

lemma mod_pieces:
  fixes k l m n :: nat
  assumes "0 < k" and "0 < l"
  shows "m div k mod l = n div k mod l \<and> m mod k = n mod k \<longleftrightarrow> m mod (k * l) = n mod (k * l)"
proof -
  have hi: "z mod (k * l) div k = z div k mod l" for z
    using assms by (simp add: mod_mult2_eq)
  have lo: "z mod (k * l) mod k = z mod k" for z
    by (simp add: mod_mod_cancel)
  show ?thesis
    using hi [of m] hi [of n] lo [of m] lo [of n] by (auto simp: mod_mult2_eq)
qed

lemma seq12_iff:
  "112 + m div 256 mod 16 = 112 + n div 256 mod 16 \<and> m mod 256 = n mod 256 \<longleftrightarrow>
   m mod 2 ^ 12 = n mod (2 ^ 12 :: nat)"
  using mod_pieces [of 256 16 m n] by simp

lemma node62_iff:
  "128 + m div 2 ^ 56 mod 64 = 128 + n div 2 ^ 56 mod 64 \<and> be 7 m = be 7 n \<longleftrightarrow>
   m mod 2 ^ 62 = n mod (2 ^ 62 :: nat)"
  using mod_pieces [of "2 ^ 56" 64 m n] be_inject [of 7 m n] by simp

lemma uuidBytes_inject:
  "uuidBytes ms sq h = uuidBytes ms' sq' h' \<longleftrightarrow>
   unat ms mod 2 ^ 48 = unat ms' mod 2 ^ 48 \<and>
   unat sq mod 2 ^ 12 = unat sq' mod 2 ^ 12 \<and>
   unat h mod 2 ^ 62 = unat h' mod 2 ^ 62"
proof -
  have "uuidBytes ms sq h = uuidBytes ms' sq' h' \<longleftrightarrow>
      map unat (uuidBytes ms sq h) = map unat (uuidBytes ms' sq' h')"
    by (metis (mono_tags, lifting) inj_onI list.inj_map_strong unsigned_word_eqI)
  also have "\<dots> \<longleftrightarrow> be 6 (unat ms) = be 6 (unat ms') \<and>
      (112 + unat sq div 256 mod 16 = 112 + unat sq' div 256 mod 16 \<and> unat sq mod 256 = unat sq' mod 256) \<and>
      (128 + unat h div 2 ^ 56 mod 64 = 128 + unat h' div 2 ^ 56 mod 64 \<and> be 7 (unat h) = be 7 (unat h'))"
    unfolding unat_uuidBytes by (auto simp: be_6)
  finally show ?thesis
    unfolding seq12_iff node62_iff by (simp add: be_inject)
qed

lemma hex_less: "a < b \<Longrightarrow> hexByte a @ xs < hexByte b @ ys"
  by (rule append_less_prefix) (simp_all add: hexByte_less)

lemma hex_same: "hexByte a @ xs < hexByte a @ ys \<longleftrightarrow> xs < ys"
  by (rule append_less_left)

lemma hex_step:
  "hexByte a @ xs < hexByte b @ ys \<longleftrightarrow> unat a < unat b \<or> unat a = unat b \<and> xs < ys"
proof -
  consider "unat a < unat b" | "unat b < unat a" | "a = b"
    by (metis linorder_neqE_nat unsigned_word_eqI)
  then show ?thesis
  proof cases
    case 1
    then show ?thesis by (simp add: hex_less word_less_nat_alt)
  next
    case 2
    then have "hexByte b @ ys < hexByte a @ xs" by (simp add: hex_less word_less_nat_alt)
    with 2 show ?thesis by auto
  next
    case 3
    then show ?thesis by (simp add: hex_same)
  qed
qed

lemma formatUUID_less_bytes:
  assumes "map unat [a0, a1, a2, a3, a4, a5 :: byte] < map unat [b0, b1, b2, b3, b4, b5 :: byte]"
  shows "formatUUID (a0 # a1 # a2 # a3 # a4 # a5 # as) < formatUUID (b0 # b1 # b2 # b3 # b4 # b5 # bs)"
proof -
  have dash: "''-'' @ xs < ''-'' @ ys \<longleftrightarrow> xs < ys" for xs ys :: string
    by simp
  show ?thesis
    using assms unfolding formatUUID_def
    by (auto simp: hex_step dash simp del: append_Cons)
qed

lemma formatUUID_less:
  assumes "unat ms mod 2 ^ 48 < unat ms' mod 2 ^ 48"
  shows "formatUUID (uuidBytes ms sq h) < formatUUID (uuidBytes ms' sq' h')"
proof -
  have "be 6 (unat ms) < be 6 (unat ms')"
    using assms by (intro be_less) simp
  then show ?thesis
    unfolding uuidBytes_def
    by (intro formatUUID_less_bytes) (simp only: list.map unat_byte_of unat_low_byte unat_drop_bit be_6)
qed

text \<open>
  Claim C36.  Every identifier the generator produces is a well-formed UUIDv7: it
  passes the validation every message and genesis file applies to identifiers.
\<close>

theorem GenerateUUIDv7_valid:
  "IsValidUUID (GenerateUUIDv7 ctx moduleName sequence) \<and>
   ValidateUUIDv7 (GenerateUUIDv7 ctx moduleName sequence) = Ok ()"
proof -
  have v: "IsValidUUIDv7 (GenerateUUIDv7 ctx moduleName sequence)"
    by (simp add: GenerateUUIDv7_def GenerateUUIDv7WithEntropy_def Let_def formatUUID_valid)
  then have "GenerateUUIDv7 ctx moduleName sequence \<noteq> []"
    by (auto simp: IsValidUUIDv7_def uuidPattern_eq)
  with v show ?thesis by (simp add: IsValidUUID_def ValidateUUIDv7_def)
qed

text \<open>
  Claim C37.  Exactly which inputs collide: two generated identifiers are equal iff
  their millisecond timestamps agree in 48 bits, their sequence numbers in the low
  12 bits and their entropy hashes in the low 62 bits.
\<close>

theorem GenerateUUIDv7_collision:
  "GenerateUUIDv7WithEntropy t hh ch m sq = GenerateUUIDv7WithEntropy t' hh' ch' m' sq' \<longleftrightarrow>
   unat (unixMs t) mod 2 ^ 48 = unat (unixMs t') mod 2 ^ 48 \<and>
   unat sq mod 2 ^ 12 = unat sq' mod 2 ^ 12 \<and>
   unat (hashEntropy hh ch m sq) mod 2 ^ 62 = unat (hashEntropy hh' ch' m' sq') mod 2 ^ 62"
  by (simp only: GenerateUUIDv7WithEntropy_def Let_def formatUUID_inject uuidBytes_inject)

lemma unixMs_nat:
  assumes "0 \<le> t" and "t div 1000000 < 2 ^ 48"
  shows "unat (unixMs t) mod 2 ^ 48 = nat (t div 1000000)"
proof -
  let ?q = "t div 1000000"
  have q: "0 \<le> ?q" and q48: "?q < 2 ^ 48" using assms by simp_all
  then have "UnixMilli t = ?q" by (simp add: UnixMilli_def i64_id)
  then have "uint (unixMs t) = ?q"
    using q q48 by (simp add: uint_word_of_int_eq take_bit_int_eq_self)
  then have "unat (unixMs t) = nat ?q" by (simp flip: nat_uint_eq)
  moreover have "nat ?q < 2 ^ 48" using q q48 by (simp add: nat_less_iff)
  ultimately show ?thesis by simp
qed

text \<open>
  Claim C38.  Identifiers sort by creation time: for block times between the epoch
  and the 48-bit millisecond limit, an identifier from an earlier millisecond is
  smaller as a string, so the lease store iterates in creation order.
\<close>

theorem GenerateUUIDv7_time_ordered:
  assumes "0 \<le> t" and "t div 1000000 < t' div 1000000" and "t' div 1000000 < 2 ^ 48"
  shows "GenerateUUIDv7WithEntropy t hh ch m sq < GenerateUUIDv7WithEntropy t' hh' ch' m' sq'"
proof -
  have t': "0 \<le> t'" using assms(1,2)
    using zdiv_mono1 [of t' t 1000000] by linarith
  have "0 \<le> t div 1000000" using assms(1) by simp
  then have q0: "0 < t' div 1000000" using assms(2) by linarith
  have "unat (unixMs t) mod 2 ^ 48 < unat (unixMs t') mod 2 ^ 48"
    using unixMs_nat [of t] unixMs_nat [of t'] assms t' q0 by (simp add: nat_mono_iff)
  then show ?thesis
    by (simp add: GenerateUUIDv7WithEntropy_def Let_def formatUUID_less)
qed

theorem GenerateUUIDv7_time_ordered_witness:
  "GenerateUUIDv7WithEntropy 1700000000000000000 [] ''c'' ''billing'' 1
     < GenerateUUIDv7WithEntropy 1700000000001000000 [] ''c'' ''billing'' 0"
  by (rule GenerateUUIDv7_time_ordered) simp_all

end
