(* ===== verification/Dns.thy ===== *)
theory Dns
  imports Prelude "HOL-Library.Sublist"
begin

text \<open>
  The name checks of \<open>x/billing/types/msgs.go\<close>: RFC 1123 labels, custom-domain
  FQDNs and reserved suffixes, with the functions of Go's \<open>strings\<close> package they
  use.  A string is a list of bytes.
\<close>

section \<open>The \<open>strings\<close> package\<close>

definition isUpperByte :: "char \<Rightarrow> bool" where
  "isUpperByte c \<longleftrightarrow> CHR ''A'' \<le> c \<and> c \<le> CHR ''Z''"

definition lowerByte :: "char \<Rightarrow> char" where
  "lowerByte c = (if isUpperByte c then char_of (of_char c + (32 :: nat)) else c)"

definition ToLower :: "string \<Rightarrow> string" where
  \<comment> \<open>\<open>strings.ToLower\<close> on ASCII text\<close>
  "ToLower s = map lowerByte s"

definition isSpaceByte :: "char \<Rightarrow> bool" where
  "isSpaceByte c \<longleftrightarrow> of_char c \<in> {9, 10, 11, 12, 13, 32 :: nat}"

definition TrimSpace :: "string \<Rightarrow> string" where
  "TrimSpace s = rev (dropWhile isSpaceByte (rev (dropWhile isSpaceByte s)))"

fun Split :: "char \<Rightarrow> string \<Rightarrow> string list" where
  \<comment> \<open>\<open>strings.Split\<close> at a separator of one byte\<close>
  "Split x [] = [[]]"
| "Split x (c # cs) =
     (if c = x then [] # Split x cs
      else (case Split x cs of [] \<Rightarrow> [[c]] | l # ls \<Rightarrow> (c # l) # ls))"

abbreviation SplitDot :: "string \<Rightarrow> string list" where
  "SplitDot \<equiv> Split (CHR ''.'')"

definition HasSuffix :: "string \<Rightarrow> string \<Rightarrow> bool" where
  "HasSuffix s suf \<longleftrightarrow> length suf \<le> length s \<and> drop (length s - length suf) s = suf"

fun containsScheme :: "string \<Rightarrow> bool" where
  \<comment> \<open>\<open>strings.Contains(s, "://")\<close>\<close>
  "containsScheme [] = False"
| "containsScheme (c # cs) \<longleftrightarrow> take 3 (c # cs) = ''://'' \<or> containsScheme cs"

section \<open>Definitions\<close>

definition MaxServiceNameLength :: nat where
  "MaxServiceNameLength = 63"

definition MaxCustomDomainLength :: nat where
  "MaxCustomDomainLength = 253"

definition isLowerByte :: "char \<Rightarrow> bool" where
  "isLowerByte c \<longleftrightarrow> CHR ''a'' \<le> c \<and> c \<le> CHR ''z''"

definition isDigitByte :: "char \<Rightarrow> bool" where
  "isDigitByte c \<longleftrightarrow> CHR ''0'' \<le> c \<and> c \<le> CHR ''9''"

fun labelLoop :: "nat \<Rightarrow> nat \<Rightarrow> string \<Rightarrow> bool" where
  \<comment> \<open>the loop over \<open>name\<close>: \<open>i\<close> is the index of the next byte, \<open>n\<close> the length\<close>
  "labelLoop i n [] = True"
| "labelLoop i n (c # cs) =
     (if isLowerByte c then labelLoop (i + 1) n cs
      else if isDigitByte c then labelLoop (i + 1) n cs
      else if c = CHR ''-'' then
        (if i = 0 \<or> i = n - 1 then False else labelLoop (i + 1) n cs)
      else False)"

definition IsValidDNSLabel :: "string \<Rightarrow> bool" where
  "IsValidDNSLabel name =
     (let n = length name
      in if n = 0 \<or> n > MaxServiceNameLength then False else labelLoop 0 n name)"

datatype fqdn_error =
    EmptyDomain | DomainTooLong | NotLowercase | HasScheme | ForbiddenCharacter
  | LeadingDot | TrailingDot | NoSeparator | BadLabel | NumericTLD

definition IsValidFQDN :: "string \<Rightarrow> fqdn_error checked" where
  "IsValidFQDN domain =
     (let n = length domain
      in if n = 0 then Err EmptyDomain
         else if n > MaxCustomDomainLength then Err DomainTooLong
         else if domain \<noteq> ToLower domain then Err NotLowercase
         else if containsScheme domain then Err HasScheme
         else if \<exists>c \<in> set domain. c \<in> set [CHR ''/'', CHR '' '', CHR 0x09, CHR ''@'', CHR ''*'', CHR ''?'', CHR ''#'']
           then Err ForbiddenCharacter
         else if domain ! 0 = CHR ''.'' then Err LeadingDot
         else if domain ! (n - 1) = CHR ''.'' then Err TrailingDot
         else
           (let labels = SplitDot domain
            in if length labels < 2 then Err NoSeparator
               else if \<exists>l \<in> set labels. \<not> IsValidDNSLabel l then Err BadLabel
               else
                 (let tld = labels ! (length labels - 1)
                  in if \<not> (\<exists>c \<in> set tld. c < CHR ''0'' \<or> c > CHR ''9'') then Err NumericTLD
                     else Ok ())))"

fun MatchesReservedSuffix :: "string \<Rightarrow> string list \<Rightarrow> bool" where
  "MatchesReservedSuffix domain [] = False"
| "MatchesReservedSuffix domain (raw # reserved) =
     (let d = ToLower domain; s = ToLower raw
      in if length s < 2 \<or> s ! 0 \<noteq> CHR ''.'' then True
         else if HasSuffix d s then True
         else if d = drop 1 s then True
         else MatchesReservedSuffix domain reserved)"

section \<open>Labels\<close>

text \<open>The declarative form of a label, and that the loop decides it.\<close>

definition labelByte :: "char \<Rightarrow> bool" where
  "labelByte c \<longleftrightarrow> isLowerByte c \<or> isDigitByte c \<or> c = CHR ''-''"

lemma dash_not_alnum [simp]: "\<not> isLowerByte CHR ''-''" "\<not> isDigitByte CHR ''-''"
  by code_simp+

lemma dot_not_label [simp]: "\<not> labelByte CHR ''.''"
  by code_simp

lemma labelLoop_iff:
  "labelLoop i n cs \<longleftrightarrow>
   (\<forall>c \<in> set cs. labelByte c) \<and>
   (\<forall>j < length cs. cs ! j = CHR ''-'' \<longrightarrow> i + j \<noteq> 0 \<and> i + j \<noteq> n - 1)"
proof (induction i n cs rule: labelLoop.induct)
  case (2 i n c cs)
  show ?case
    using 2 by (auto simp: labelByte_def nth_Cons All_less_Suc2 split: nat.splits)
qed simp

lemma IsValidDNSLabel_iff:
  "IsValidDNSLabel l \<longleftrightarrow>
   l \<noteq> [] \<and> length l \<le> 63 \<and> (\<forall>c \<in> set l. labelByte c) \<and>
   hd l \<noteq> CHR ''-'' \<and> last l \<noteq> CHR ''-''"
proof (cases "l = []")
  case False
  have "(\<forall>j < length l. l ! j = CHR ''-'' \<longrightarrow> j \<noteq> 0 \<and> j \<noteq> length l - 1) \<longleftrightarrow>
      hd l \<noteq> CHR ''-'' \<and> last l \<noteq> CHR ''-''"
  proof -
    have "0 < length l" and "length l - 1 < length l" using False by auto
    then show ?thesis
      using False by (metis hd_conv_nth last_conv_nth)
  qed
  with False show ?thesis
    by (auto simp: IsValidDNSLabel_def Let_def MaxServiceNameLength_def labelLoop_iff)
qed (simp add: IsValidDNSLabel_def)

section \<open>Splitting and joining\<close>

fun Join :: "char \<Rightarrow> string list \<Rightarrow> string" where
  "Join x [] = []"
| "Join x [l] = l"
| "Join x (l # ls) = l @ x # Join x ls"

abbreviation JoinDot :: "string list \<Rightarrow> string" where
  "JoinDot \<equiv> Join (CHR ''.'')"

lemma Split_nonempty [simp]: "Split x s \<noteq> []"
  by (cases s) (auto split: list.splits)

lemma Join_Cons: "ls \<noteq> [] \<Longrightarrow> Join x (l # ls) = l @ x # Join x ls"
  by (cases ls) auto

lemma Join_Split [simp]: "Join x (Split x s) = s"
proof (induction s)
  case (Cons c cs)
  obtain l ls where l: "Split x cs = l # ls"
    using Split_nonempty [of x cs] by (meson list.exhaust)
  with Cons show ?case
    by (cases ls) (auto simp: Join_Cons)
qed simp

lemma Split_none: "x \<notin> set l \<Longrightarrow> Split x l = [l]"
  by (induction l) auto

lemma Split_first: "x \<notin> set l \<Longrightarrow> Split x (l @ x # s) = l # Split x s"
  by (induction l) auto

lemma Split_Join:
  "ls \<noteq> [] \<Longrightarrow> \<forall>l \<in> set ls. x \<notin> set l \<Longrightarrow> Split x (Join x ls) = ls"
  by (induction x ls rule: Join.induct) (auto simp: Split_none Split_first)

lemma set_Join: "set (Join x ls) \<subseteq> insert x (\<Union>l \<in> set ls. set l)"
  by (induction x ls rule: Join.induct) auto

lemma Split_append: "Split x (p @ x # s) = Split x p @ Split x s"
  by (induction p) (auto split: list.splits)

lemma Join_append:
  "as \<noteq> [] \<Longrightarrow> bs \<noteq> [] \<Longrightarrow> Join x (as @ bs) = Join x as @ x # Join x bs"
  by (induction x as rule: Join.induct) (auto simp: Join_Cons)

section \<open>Domains\<close>

lemma label_lower: "labelByte c \<Longrightarrow> lowerByte c = c"
  by (auto simp: labelByte_def lowerByte_def isUpperByte_def isLowerByte_def isDigitByte_def
      less_eq_char_def)

lemma forbidden_not_label:
  "c \<in> set [CHR ''/'', CHR '' '', CHR 0x09, CHR ''@'', CHR ''*'', CHR ''?'', CHR ''#''] \<Longrightarrow>
   \<not> labelByte c \<and> c \<noteq> CHR ''.''"
proof -
  have "list_all (\<lambda>c. \<not> labelByte c \<and> c \<noteq> CHR ''.'')
     [CHR ''/'', CHR '' '', CHR 0x09, CHR ''@'', CHR ''*'', CHR ''?'', CHR ''#'']"
    by code_simp
  then show "c \<in> set [CHR ''/'', CHR '' '', CHR 0x09, CHR ''@'', CHR ''*'', CHR ''?'', CHR ''#''] \<Longrightarrow>
    \<not> labelByte c \<and> c \<noteq> CHR ''.''"
    unfolding list_all_iff by blast
qed

lemma containsScheme_colon: "containsScheme s \<Longrightarrow> CHR '':'' \<in> set s"
  by (induction s) (auto dest: arg_cong [where f = set])

lemma colon_not_label: "\<not> labelByte CHR '':''"
  by code_simp

lemma dot_lower [simp]: "lowerByte CHR ''.'' = CHR ''.''"
  by code_simp

lemma label_nodot: "IsValidDNSLabel l \<Longrightarrow> CHR ''.'' \<notin> set l \<and> l \<noteq> []"
  by (auto simp: IsValidDNSLabel_iff)

lemma digit_range: "isDigitByte c \<longleftrightarrow> \<not> (c < CHR ''0'' \<or> c > CHR ''9'')"
  by (auto simp: isDigitByte_def)

text \<open>
  The documented grammar, without the functions of the code: a label has 1 to 63 lower-case
  letters, digits and hyphens and neither starts nor ends with a hyphen.
\<close>

definition rfc1123_label :: "string \<Rightarrow> bool" where
  "rfc1123_label l \<longleftrightarrow> 1 \<le> length l \<and> length l \<le> 63 \<and>
     set l \<subseteq> set ''abcdefghijklmnopqrstuvwxyz0123456789-'' \<and> hd l \<noteq> CHR ''-'' \<and> last l \<noteq> CHR ''-''"

lemma byte_classes:
  "labelByte c \<longleftrightarrow> c \<in> set ''abcdefghijklmnopqrstuvwxyz0123456789-''" "isDigitByte c \<longleftrightarrow> c \<in> set ''0123456789''"
proof -
  have "list_all (\<lambda>c. (labelByte c \<longleftrightarrow> c \<in> set ''abcdefghijklmnopqrstuvwxyz0123456789-'') \<and>
      (isDigitByte c \<longleftrightarrow> c \<in> set ''0123456789'')) (map char_of [0..<256 :: nat])" by code_simp
  moreover have "char_of (of_char c :: nat) \<in> set (map char_of [0..<256 :: nat])" unfolding set_map by (rule imageI) simp
  ultimately show "labelByte c \<longleftrightarrow> c \<in> set ''abcdefghijklmnopqrstuvwxyz0123456789-''"
    "isDigitByte c \<longleftrightarrow> c \<in> set ''0123456789''" unfolding list_all_iff char_of_char by blast+
qed

lemma label_grammar: "rfc1123_label l \<longleftrightarrow> IsValidDNSLabel l"
  by (auto simp: rfc1123_label_def IsValidDNSLabel_iff byte_classes(1) Suc_le_eq simp del: set_simps)


definition fqdn :: "string list \<Rightarrow> bool" where
  "fqdn labels \<longleftrightarrow>
     2 \<le> length labels \<and> length (JoinDot labels) \<le> 253 \<and>
     (\<forall>l \<in> set labels. rfc1123_label l) \<and> (\<exists>c \<in> set (last labels). c \<notin> set ''0123456789'')"

lemma fqdn_labels:
  "fqdn labels \<longleftrightarrow> 2 \<le> length labels \<and> length (JoinDot labels) \<le> 253 \<and>
     (\<forall>l \<in> set labels. IsValidDNSLabel l) \<and> (\<exists>c \<in> set (last labels). \<not> isDigitByte c)"
  unfolding fqdn_def byte_classes(2) label_grammar ..

lemma fqdn_bytes: "fqdn ls \<Longrightarrow> \<forall>c \<in> set (JoinDot ls). labelByte c \<or> c = CHR ''.''"
  using set_Join [of "CHR ''.''" ls] by (fastforce simp: fqdn_labels IsValidDNSLabel_iff)

lemma JoinDot_ends:
  assumes "ls \<noteq> []" and "\<forall>l \<in> set ls. l \<noteq> []"
  shows "JoinDot ls \<noteq> [] \<and> hd (JoinDot ls) = hd (hd ls) \<and> last (JoinDot ls) = last (last ls)"
  using assms by (induction "CHR ''.''" ls rule: Join.induct) auto

lemma fqdn_accepted:
  assumes "fqdn ls"
  shows "IsValidFQDN (JoinDot ls) = Ok ()"
proof -
  let ?d = "JoinDot ls"
  have ls: "ls \<noteq> []" and lab: "\<forall>l \<in> set ls. IsValidDNSLabel l" and n: "length ?d \<le> 253"
    using assms by (auto simp: fqdn_labels)
  have split: "SplitDot ?d = ls"
    using ls lab by (intro Split_Join) (auto dest: label_nodot)
  have ends: "?d \<noteq> []" "hd ?d = hd (hd ls)" "last ?d = last (last ls)"
    using JoinDot_ends [of ls] ls lab by (auto dest: label_nodot)
  have bytes: "\<forall>c \<in> set ?d. labelByte c \<or> c = CHR ''.''"
    using fqdn_bytes [OF assms] .
  have "ToLower ?d = ?d"
    unfolding ToLower_def using bytes by (intro map_idI) (auto dest: label_lower)
  moreover have "\<not> containsScheme ?d"
    using bytes colon_not_label by (auto dest: containsScheme_colon)
  moreover have "\<not> (\<exists>c \<in> set ?d. c \<in> set [CHR ''/'', CHR '' '', CHR 0x09, CHR ''@'', CHR ''*'', CHR ''?'', CHR ''#''])"
    using bytes forbidden_not_label by blast
  moreover have "?d ! 0 \<noteq> CHR ''.''" "?d ! (length ?d - 1) \<noteq> CHR ''.''"
    using ends ls lab label_nodot [of "hd ls"] label_nodot [of "last ls"]
    by (metis hd_conv_nth hd_in_set, metis last_conv_nth last_in_set)
  moreover have "\<exists>c \<in> set (ls ! (length ls - 1)). c < CHR ''0'' \<or> c > CHR ''9''"
    using assms ls by (auto simp: fqdn_labels last_conv_nth digit_range)
  ultimately show ?thesis
    using assms n ends(1) lab
    by (simp add: IsValidFQDN_def Let_def split MaxCustomDomainLength_def fqdn_labels
        del: set_simps not_less)
qed

text \<open>
  Claim C39.  The domain check accepts exactly the names made of at least two labels of 1 to
  63 lower-case letters, digits and inner hyphens, joined by dots, at most 253 bytes long,
  whose last label has a byte that is not a digit;
  its other checks (case, scheme, forbidden bytes, leading and trailing dots) never
  reject anything the label rules would accept.
\<close>

theorem IsValidFQDN_iff: "IsValidFQDN d = Ok () \<longleftrightarrow> (\<exists>labels. d = JoinDot labels \<and> fqdn labels)"
proof
  assume ok: "IsValidFQDN d = Ok ()"
  let ?ls = "SplitDot d"
  have "fqdn ?ls"
    using ok
    by (auto simp: IsValidFQDN_def Let_def fqdn_labels MaxCustomDomainLength_def last_conv_nth
        digit_range split: if_splits simp del: set_simps)
  then show "\<exists>labels. d = JoinDot labels \<and> fqdn labels"
    by (intro exI [of _ ?ls]) simp
next
  assume "\<exists>labels. d = JoinDot labels \<and> fqdn labels"
  then show "IsValidFQDN d = Ok ()" by (auto intro: fqdn_accepted)
qed

section \<open>Reserved suffixes\<close>

lemma HasSuffix_iff: "HasSuffix s suf \<longleftrightarrow> (\<exists>p. s = p @ suf)"
  by (auto simp: HasSuffix_def) (metis append_take_drop_id)

lemma suffix_labels:
  "(HasSuffix d (CHR ''.'' # x) \<or> d = x) \<longleftrightarrow> suffix (SplitDot x) (SplitDot d)"
proof
  assume "HasSuffix d (CHR ''.'' # x) \<or> d = x"
  then show "suffix (SplitDot x) (SplitDot d)"
    by (auto simp: HasSuffix_iff Split_append suffix_def)
next
  assume "suffix (SplitDot x) (SplitDot d)"
  then obtain ls where ls: "SplitDot d = ls @ SplitDot x" by (auto simp: suffix_def)
  then have d: "d = JoinDot (ls @ SplitDot x)" by (metis Join_Split)
  show "HasSuffix d (CHR ''.'' # x) \<or> d = x"
  proof (cases "ls = []")
    case False
    then have "d = JoinDot ls @ CHR ''.'' # x" using d by (simp add: Join_append)
    then show ?thesis by (auto simp: HasSuffix_iff)
  qed (use d in simp)
qed

text \<open>
  For a suffix list that passed parameter validation (every entry starts
  with a dot and has a second byte), a domain is reserved exactly when, after
  lower-casing, the labels of some reserved zone are the last labels of the domain:
  the zone's apex and all its subdomains, and no name that merely ends in the same
  characters.
\<close>

lemma MatchesReservedSuffix_iff:
  assumes "\<forall>s \<in> set reserved. 2 \<le> length s \<and> s ! 0 = CHR ''.''"
  shows "MatchesReservedSuffix d reserved \<longleftrightarrow>
    (\<exists>s \<in> set reserved. suffix (SplitDot (drop 1 (ToLower s))) (SplitDot (ToLower d)))"
  using assms
proof (induction d reserved rule: MatchesReservedSuffix.induct)
  case (2 d raw reserved)
  let ?s = "ToLower raw"
  have raw: "2 \<le> length ?s" "?s ! 0 = CHR ''.''"
    using "2.prems" by (auto simp: ToLower_def nth_map [OF order_less_le_trans, of _ 2])
  then have s: "?s = CHR ''.'' # drop 1 ?s" by (cases ?s) auto
  have "HasSuffix (ToLower d) ?s \<or> ToLower d = drop 1 ?s \<longleftrightarrow>
      suffix (SplitDot (drop 1 ?s)) (SplitDot (ToLower d))"
    using suffix_labels [of "ToLower d" "drop 1 ?s"] s by metis
  with 2 raw show ?case by (auto simp: Let_def)
qed simp

end
