(* ===== verification/Sku_Types.thy ===== *)
theory Sku_Types
  imports Sdk Uuid
begin

text \<open>
  \<open>x/sku/types\<close>: providers, SKUs and their prices, the module parameters, the
  messages and their stateless validation, and genesis validation.
\<close>

section \<open>Data\<close>

datatype sku_error =
    ErrInvalidSKU | SkuErrSKUNotFound | SkuErrUnauthorized | ErrInvalidConfig
  | ErrInvalidProvider | SkuErrProviderNotFound | ErrInvalidAPIURL
  | SkuErrStore \<comment> \<open>an error of the storage layer\<close>

datatype Unit = UNIT_UNSPECIFIED | UNIT_PER_HOUR | UNIT_PER_DAY | UNIT_OTHER int

record Provider =
  provider_Uuid :: string
  Address :: string
  PayoutAddress :: string
  provider_MetaHash :: "byte list"
  provider_Active :: bool
  ApiUrl :: string

record SKU =
  sku_Uuid :: string
  sku_ProviderUuid :: string
  sku_Name :: string
  sku_Unit :: Unit
  BasePrice :: coin
  sku_MetaHash :: "byte list"
  sku_Active :: bool

record SkuParams =
  sku_AllowedList :: "string list"

definition MaxAPIURLLength :: nat where "MaxAPIURLLength = 2048"
definition MaxSKUNameLength :: nat where "MaxSKUNameLength = 256"
definition sku_MaxMetaHashLength :: nat where "sku_MaxMetaHashLength = 64"
definition DefaultDeactivateSKULimit :: u64 where "DefaultDeactivateSKULimit = 50"
definition MaxDeactivateSKULimit :: u64 where "MaxDeactivateSKULimit = 100"

section \<open>Prices (unit.go)\<close>

definition SecondsPerHour :: int where "SecondsPerHour = 3600"
definition SecondsPerDay :: int where "SecondsPerDay = 86400"

fun divisorForUnit :: "Unit \<Rightarrow> int option" where
  "divisorForUnit UNIT_PER_HOUR = Some SecondsPerHour"
| "divisorForUnit UNIT_PER_DAY = Some SecondsPerDay"
| "divisorForUnit _ = None"

definition CalculatePricePerSecond :: "'x sdk \<Rightarrow> coin \<Rightarrow> Unit \<Rightarrow> int \<times> bool" where
  "CalculatePricePerSecond E basePrice unit =
     (case divisorForUnit unit of
        None \<Rightarrow> (0, False)
      | Some divisor \<Rightarrow>
          (let perSecond = IntQuo E (Amount basePrice) divisor
           in if perSecond = 0 then (0, False)
              else if IntMod E (Amount basePrice) divisor \<noteq> 0 then (0, False)
              else (perSecond, True)))"

datatype price_error = InvalidUnit | ZeroRate | InexactRate int

definition ValidatePriceAndUnit :: "'x sdk \<Rightarrow> coin \<Rightarrow> Unit \<Rightarrow> price_error checked" where
  "ValidatePriceAndUnit E basePrice unit =
     (case divisorForUnit unit of
        None \<Rightarrow> Err InvalidUnit
      | Some divisor \<Rightarrow>
          (let perSecond = IntQuo E (Amount basePrice) divisor
           in if perSecond = 0 then Err ZeroRate
              else
                (let remainder = IntMod E (Amount basePrice) divisor
                 in if remainder \<noteq> 0 then Err (InexactRate remainder) else Ok ())))"

section \<open>Parameters (params.go)\<close>

definition sku_DefaultParams :: SkuParams where
  "sku_DefaultParams = \<lparr>sku_AllowedList = []\<rparr>"

fun allowedListLoop :: "'x sdk \<Rightarrow> 'e \<Rightarrow> string set \<Rightarrow> string list \<Rightarrow> 'e checked" where
  \<comment> \<open>the loop of both modules' \<open>Params.Validate\<close> over the allowed list\<close>
  "allowedListLoop E err seen [] = Ok ()"
| "allowedListLoop E err seen (addr # as) =
     (if AccAddressFromBech32 E addr = None then Err err
      else if addr \<in> seen then Err err
      else allowedListLoop E err (insert addr seen) as)"

definition SkuParams_Validate :: "'x sdk \<Rightarrow> SkuParams \<Rightarrow> sku_error checked" where
  "SkuParams_Validate E p = allowedListLoop E ErrInvalidConfig {} (sku_AllowedList p)"

definition SkuParams_IsAllowed :: "SkuParams \<Rightarrow> string \<Rightarrow> bool" where
  "SkuParams_IsAllowed p addr \<longleftrightarrow> addr \<in> set (sku_AllowedList p)"

section \<open>Messages (msgs.go)\<close>

record MsgCreateProvider =
  cp_Authority :: string
  cp_Address :: string
  cp_PayoutAddress :: string
  cp_MetaHash :: "byte list"
  cp_ApiUrl :: string

record MsgUpdateProvider =
  up_Authority :: string
  up_Uuid :: string
  up_Address :: string
  up_PayoutAddress :: string
  up_MetaHash :: "byte list"
  up_Active :: bool
  up_ApiUrl :: string

record MsgDeactivateProvider =
  dp_Authority :: string
  dp_Uuid :: string
  dp_Limit :: u64

record MsgCreateSKU =
  cs_Authority :: string
  cs_ProviderUuid :: string
  cs_Name :: string
  cs_Unit :: Unit
  cs_BasePrice :: coin
  cs_MetaHash :: "byte list"

record MsgUpdateSKU =
  us_Authority :: string
  us_Uuid :: string
  us_ProviderUuid :: string
  us_Name :: string
  us_Unit :: Unit
  us_BasePrice :: coin
  us_MetaHash :: "byte list"
  us_Active :: bool

record MsgDeactivateSKU =
  ds_Authority :: string
  ds_Uuid :: string

record SkuMsgUpdateParams =
  sup_Authority :: string
  sup_Params :: SkuParams

definition ValidateAPIURL :: "'x sdk \<Rightarrow> string \<Rightarrow> sku_error checked" where
  "ValidateAPIURL E apiURL =
     (if length apiURL > MaxAPIURLLength then Err ErrInvalidAPIURL
      else (case ParseURL E apiURL of
              None \<Rightarrow> Err ErrInvalidAPIURL
            | Some (scheme, host, user) \<Rightarrow>
                if scheme \<noteq> ''https'' then Err ErrInvalidAPIURL
                else if host = [] then Err ErrInvalidAPIURL
                else if user then Err ErrInvalidAPIURL
                else Ok ()))"

definition MsgCreateProvider_Validate :: "'x sdk \<Rightarrow> MsgCreateProvider \<Rightarrow> sku_error checked" where
  "MsgCreateProvider_Validate E msg =
     (if AccAddressFromBech32 E (cp_Authority msg) = None then Err SkuErrUnauthorized
      else if AccAddressFromBech32 E (cp_Address msg) = None then Err ErrInvalidProvider
      else if AccAddressFromBech32 E (cp_PayoutAddress msg) = None then Err ErrInvalidProvider
      else if length (cp_MetaHash msg) > sku_MaxMetaHashLength then Err ErrInvalidProvider
      else if cp_ApiUrl msg \<noteq> [] then ValidateAPIURL E (cp_ApiUrl msg)
      else Ok ())"

definition MsgUpdateProvider_Validate :: "'x sdk \<Rightarrow> MsgUpdateProvider \<Rightarrow> sku_error checked" where
  "MsgUpdateProvider_Validate E msg =
     (if AccAddressFromBech32 E (up_Authority msg) = None then Err SkuErrUnauthorized
      else if ValidateUUIDv7 (up_Uuid msg) \<noteq> Ok () then Err ErrInvalidProvider
      else if AccAddressFromBech32 E (up_Address msg) = None then Err ErrInvalidProvider
      else if AccAddressFromBech32 E (up_PayoutAddress msg) = None then Err ErrInvalidProvider
      else if length (up_MetaHash msg) > sku_MaxMetaHashLength then Err ErrInvalidProvider
      else if up_ApiUrl msg \<noteq> [] then ValidateAPIURL E (up_ApiUrl msg)
      else Ok ())"

definition MsgDeactivateProvider_Validate ::
  "'x sdk \<Rightarrow> MsgDeactivateProvider \<Rightarrow> sku_error checked" where
  "MsgDeactivateProvider_Validate E msg =
     (if AccAddressFromBech32 E (dp_Authority msg) = None then Err SkuErrUnauthorized
      else if ValidateUUIDv7 (dp_Uuid msg) \<noteq> Ok () then Err ErrInvalidProvider
      else if dp_Limit msg > MaxDeactivateSKULimit then Err ErrInvalidProvider
      else Ok ())"

definition MsgCreateSKU_Validate :: "'x sdk \<Rightarrow> MsgCreateSKU \<Rightarrow> sku_error checked" where
  "MsgCreateSKU_Validate E msg =
     (if AccAddressFromBech32 E (cs_Authority msg) = None then Err SkuErrUnauthorized
      else if ValidateUUIDv7 (cs_ProviderUuid msg) \<noteq> Ok () then Err ErrInvalidSKU
      else if cs_Name msg = [] then Err ErrInvalidSKU
      else if length (cs_Name msg) > MaxSKUNameLength then Err ErrInvalidSKU
      else if cs_Unit msg = UNIT_UNSPECIFIED then Err ErrInvalidSKU
      else if \<not> CoinIsValid E (cs_BasePrice msg) \<or> Amount (cs_BasePrice msg) = 0 then Err ErrInvalidSKU
      else if ValidatePriceAndUnit E (cs_BasePrice msg) (cs_Unit msg) \<noteq> Ok () then Err ErrInvalidSKU
      else if length (cs_MetaHash msg) > sku_MaxMetaHashLength then Err ErrInvalidSKU
      else Ok ())"

definition MsgUpdateSKU_Validate :: "'x sdk \<Rightarrow> MsgUpdateSKU \<Rightarrow> sku_error checked" where
  "MsgUpdateSKU_Validate E msg =
     (if AccAddressFromBech32 E (us_Authority msg) = None then Err SkuErrUnauthorized
      else if ValidateUUIDv7 (us_Uuid msg) \<noteq> Ok () then Err ErrInvalidSKU
      else if ValidateUUIDv7 (us_ProviderUuid msg) \<noteq> Ok () then Err ErrInvalidSKU
      else if us_Name msg = [] then Err ErrInvalidSKU
      else if length (us_Name msg) > MaxSKUNameLength then Err ErrInvalidSKU
      else if us_Unit msg = UNIT_UNSPECIFIED then Err ErrInvalidSKU
      else if \<not> CoinIsValid E (us_BasePrice msg) \<or> Amount (us_BasePrice msg) = 0 then Err ErrInvalidSKU
      else if ValidatePriceAndUnit E (us_BasePrice msg) (us_Unit msg) \<noteq> Ok () then Err ErrInvalidSKU
      else if length (us_MetaHash msg) > sku_MaxMetaHashLength then Err ErrInvalidSKU
      else Ok ())"

definition MsgDeactivateSKU_Validate :: "'x sdk \<Rightarrow> MsgDeactivateSKU \<Rightarrow> sku_error checked" where
  "MsgDeactivateSKU_Validate E msg =
     (if AccAddressFromBech32 E (ds_Authority msg) = None then Err SkuErrUnauthorized
      else if ValidateUUIDv7 (ds_Uuid msg) \<noteq> Ok () then Err ErrInvalidSKU
      else Ok ())"

definition SkuMsgUpdateParams_Validate :: "'x sdk \<Rightarrow> SkuMsgUpdateParams \<Rightarrow> sku_error checked" where
  "SkuMsgUpdateParams_Validate E msg =
     (if AccAddressFromBech32 E (sup_Authority msg) = None then Err SkuErrUnauthorized
      else SkuParams_Validate E (sup_Params msg))"

section \<open>Genesis (genesis.go)\<close>

record SkuGenesis =
  sg_Params :: SkuParams
  sg_Providers :: "Provider list"
  sg_Skus :: "SKU list"
  sg_ProviderSequence :: u64
  sg_SkuSequence :: u64

definition sku_DefaultGenesis :: SkuGenesis where
  "sku_DefaultGenesis = \<lparr>sg_Params = sku_DefaultParams, sg_Providers = [], sg_Skus = [],
     sg_ProviderSequence = 0, sg_SkuSequence = 0\<rparr>"

fun genesisProviders :: "'x sdk \<Rightarrow> string set \<Rightarrow> Provider list \<Rightarrow> (sku_error, string set) result" where
  "genesisProviders E seen [] = Ok seen"
| "genesisProviders E seen (p # ps) =
     (if ValidateUUIDv7 (provider_Uuid p) \<noteq> Ok () then Err ErrInvalidProvider
      else if provider_Uuid p \<in> seen then Err ErrInvalidProvider
      else if Address p = [] then Err ErrInvalidProvider
      else if AccAddressFromBech32 E (Address p) = None then Err ErrInvalidProvider
      else if PayoutAddress p = [] then Err ErrInvalidProvider
      else if AccAddressFromBech32 E (PayoutAddress p) = None then Err ErrInvalidProvider
      else if ApiUrl p \<noteq> [] \<and> ValidateAPIURL E (ApiUrl p) \<noteq> Ok () then Err ErrInvalidProvider
      else genesisProviders E (insert (provider_Uuid p) seen) ps)"

fun genesisSKUs :: "'x sdk \<Rightarrow> string set \<Rightarrow> string set \<Rightarrow> SKU list \<Rightarrow> sku_error checked" where
  "genesisSKUs E provs seen [] = Ok ()"
| "genesisSKUs E provs seen (s # ss) =
     (if ValidateUUIDv7 (sku_Uuid s) \<noteq> Ok () then Err ErrInvalidSKU
      else if sku_Uuid s \<in> seen then Err ErrInvalidSKU
      else if ValidateUUIDv7 (sku_ProviderUuid s) \<noteq> Ok () then Err ErrInvalidSKU
      else if sku_ProviderUuid s \<notin> provs then Err ErrInvalidSKU
      else if sku_Name s = [] then Err ErrInvalidSKU
      else if length (sku_Name s) > MaxSKUNameLength then Err ErrInvalidSKU
      else if sku_Unit s = UNIT_UNSPECIFIED then Err ErrInvalidSKU
      else if \<not> CoinIsValid E (BasePrice s) \<or> Amount (BasePrice s) = 0 then Err ErrInvalidSKU
      else if ValidatePriceAndUnit E (BasePrice s) (sku_Unit s) \<noteq> Ok () then Err ErrInvalidSKU
      else genesisSKUs E provs (insert (sku_Uuid s) seen) ss)"

definition SkuGenesis_Validate :: "'x sdk \<Rightarrow> SkuGenesis \<Rightarrow> sku_error checked" where
  "SkuGenesis_Validate E gs =
     andThen (SkuParams_Validate E (sg_Params gs)) (\<lambda>_.
     andThen (genesisProviders E {} (sg_Providers gs)) (\<lambda>seenProviderUUIDs.
     andThen (genesisSKUs E seenProviderUUIDs {} (sg_Skus gs)) (\<lambda>_.
     if of_nat (length (sg_Providers gs)) > sg_ProviderSequence gs then Err ErrInvalidProvider
     else if of_nat (length (sg_Skus gs)) > sg_SkuSequence gs then Err ErrInvalidSKU
     else Ok ())))"

section \<open>Properties\<close>

text \<open>A price is sellable when its unit is known and it is a positive multiple of
  the unit's seconds.\<close>

definition price_ok :: "coin \<Rightarrow> Unit \<Rightarrow> bool" where
  "price_ok c u \<longleftrightarrow> (\<exists>k. divisorForUnit u = Some k \<and> 0 < Amount c \<and> k dvd Amount c)"

lemma divisor_pos: "divisorForUnit u = Some k \<Longrightarrow> 0 < k"
  by (cases u) (auto simp: SecondsPerHour_def SecondsPerDay_def)

context sdk_laws
begin

lemma price_checks:
  assumes "0 \<le> Amount c" and "divisorForUnit u = Some k"
  shows "IntQuo E (Amount c) k = Amount c div k" and "IntMod E (Amount c) k = Amount c mod k"
    and "Amount c div k = 0 \<longleftrightarrow> Amount c < k"
  using assms divisor_pos [OF assms(2)]
  by (auto simp: IntQuo_law IntMod_law div_pos_pos_trivial pos_imp_zdiv_nonneg_iff)
    (metis linorder_not_less nonneg1_imp_zdiv_pos_iff order_less_irrefl)

lemma ValidatePriceAndUnit_iff:
  assumes "0 \<le> Amount c"
  shows "ValidatePriceAndUnit E c u = Ok () \<longleftrightarrow> price_ok c u"
proof (cases "divisorForUnit u")
  case (Some k)
  note ck = price_checks [OF assms Some] and kp = divisor_pos [OF Some]
  have "k dvd Amount c \<Longrightarrow> 0 < Amount c \<Longrightarrow> k \<le> Amount c"
    by (rule zdvd_imp_le)
  then show ?thesis
    using Some ck kp
    by (auto simp: ValidatePriceAndUnit_def Let_def price_ok_def dvd_eq_mod_eq_0 not_less)
qed (simp add: ValidatePriceAndUnit_def price_ok_def)

lemma CalculatePricePerSecond_ok:
  assumes "0 \<le> Amount c"
  shows "snd (CalculatePricePerSecond E c u) \<longleftrightarrow> price_ok c u"
    and "divisorForUnit u = Some k \<Longrightarrow> price_ok c u \<Longrightarrow>
         0 < fst (CalculatePricePerSecond E c u) \<and>
         fst (CalculatePricePerSecond E c u) * k = Amount c"
proof -
  have v: "snd (CalculatePricePerSecond E c u) \<longleftrightarrow> ValidatePriceAndUnit E c u = Ok ()"
    by (auto simp: CalculatePricePerSecond_def ValidatePriceAndUnit_def Let_def split: option.splits)
  then show "snd (CalculatePricePerSecond E c u) \<longleftrightarrow> price_ok c u"
    by (simp add: ValidatePriceAndUnit_iff [OF assms])
  assume k: "divisorForUnit u = Some k" and ok: "price_ok c u"
  then have dv: "k dvd Amount c" and pos: "0 < Amount c" by (auto simp: price_ok_def)
  have "k \<le> Amount c" using zdvd_imp_le dv pos .
  then show "0 < fst (CalculatePricePerSecond E c u) \<and>
         fst (CalculatePricePerSecond E c u) * k = Amount c"
    using price_checks [OF assms k] k dv pos divisor_pos [OF k]
    by (auto simp: CalculatePricePerSecond_def Let_def pos_imp_zdiv_pos_iff dvd_eq_mod_eq_0)
qed

end

end
