(* ===== verification/Sku_Keeper.thy ===== *)
theory Sku_Keeper
  imports Sku_Types
begin

text \<open>
  The keeper and the message server of \<open>x/sku\<close>: the stores, the operations on
  providers and SKUs, genesis import and export, and the six handlers.  A store
  with secondary indexes is the ordered primary store; reading an index is a
  filter of it in key order.  The name of a SKU is taken as ASCII bytes where it
  is sanitised for events.
\<close>

section \<open>State\<close>

record sku_state =
  sku_authority :: string
  sku_Params :: "SkuParams option"
  Providers :: "(string, Provider) kv"
  SKUs :: "(string, SKU) kv"
  ProviderSequence :: u64
  SKUSequence :: u64
  sku_events :: "event list"

definition EventAttribute :: "string \<Rightarrow> string" where
  "EventAttribute s = filter (\<lambda>c. 32 \<le> (of_char c :: nat) \<and> (of_char c :: nat) \<noteq> 127) s"

definition sku_emit :: "event list \<Rightarrow> sku_state \<Rightarrow> sku_state" where
  "sku_emit evs st = st\<lparr>sku_events := sku_events st @ evs\<rparr>"

section \<open>Keeper (keeper.go)\<close>

definition sku_GetParams :: "sku_state \<Rightarrow> (sku_error, SkuParams) result" where
  "sku_GetParams st = okOr (sku_Params st) SkuErrStore"

definition sku_SetParams :: "sku_state \<Rightarrow> SkuParams \<Rightarrow> sku_state" where
  "sku_SetParams st p = st\<lparr>sku_Params := Some p\<rparr>"

definition GetProvider :: "sku_state \<Rightarrow> string \<Rightarrow> (sku_error, Provider) result" where
  "GetProvider st uuid = okOr (kv_get (Providers st) uuid) SkuErrProviderNotFound"

definition SetProvider :: "'x sdk \<Rightarrow> sku_state \<Rightarrow> Provider \<Rightarrow> (sku_error, sku_state) result" where
  \<comment> \<open>the address index decodes the management address\<close>
  "SetProvider E st p =
     (if AccAddressFromBech32 E (Address p) = None then Err SkuErrStore
      else Ok (st\<lparr>Providers := kv_set (provider_Uuid p) p (Providers st)\<rparr>))"

definition GenerateProviderUUID :: "block_ctx \<Rightarrow> sku_state \<Rightarrow> string \<times> sku_state" where
  "GenerateProviderUUID ctx st =
     (GenerateUUIDv7 ctx ''sku-provider'' (ProviderSequence st),
      st\<lparr>ProviderSequence := ProviderSequence st + 1\<rparr>)"

definition GetAllProviders :: "sku_state \<Rightarrow> Provider list" where
  "GetAllProviders st = map snd (Providers st)"

definition GetSKU :: "sku_state \<Rightarrow> string \<Rightarrow> (sku_error, SKU) result" where
  "GetSKU st uuid = okOr (kv_get (SKUs st) uuid) SkuErrSKUNotFound"

definition SetSKU :: "sku_state \<Rightarrow> SKU \<Rightarrow> sku_state" where
  "SetSKU st s = st\<lparr>SKUs := kv_set (sku_Uuid s) s (SKUs st)\<rparr>"

definition GenerateSKUUUID :: "block_ctx \<Rightarrow> sku_state \<Rightarrow> string \<times> sku_state" where
  "GenerateSKUUUID ctx st =
     (GenerateUUIDv7 ctx ''sku-sku'' (SKUSequence st), st\<lparr>SKUSequence := SKUSequence st + 1\<rparr>)"

definition GetAllSKUs :: "sku_state \<Rightarrow> SKU list" where
  "GetAllSKUs st = map snd (SKUs st)"

definition SKUsProviderIndex :: "sku_state \<Rightarrow> string \<Rightarrow> string list" where
  "SKUsProviderIndex st p = map fst (filter (\<lambda>e. sku_ProviderUuid (snd e) = p) (SKUs st))"

definition SKUsActiveIndex :: "sku_state \<Rightarrow> bool \<Rightarrow> string list" where
  "SKUsActiveIndex st b = map fst (filter (\<lambda>e. sku_Active (snd e) = b) (SKUs st))"

definition SKUsProviderActiveIndex :: "sku_state \<Rightarrow> string \<Rightarrow> bool \<Rightarrow> string list" where
  "SKUsProviderActiveIndex st p b =
     map fst (filter (\<lambda>e. sku_ProviderUuid (snd e) = p \<and> sku_Active (snd e) = b) (SKUs st))"

fun collectSKUs :: "sku_state \<Rightarrow> string list \<Rightarrow> (sku_error, SKU list) result" where
  "collectSKUs st [] = Ok []"
| "collectSKUs st (skuUUID # rest) =
     andThen (okOr (kv_get (SKUs st) skuUUID) SkuErrStore) (\<lambda>sku.
     andThen (collectSKUs st rest) (\<lambda>skus. Ok (sku # skus)))"

definition GetSKUsByProviderUUID :: "sku_state \<Rightarrow> string \<Rightarrow> (sku_error, SKU list) result" where
  "GetSKUsByProviderUUID st p = collectSKUs st (SKUsProviderIndex st p)"

fun iterateSKUs ::
  "sku_state \<Rightarrow> u64 \<Rightarrow> (SKU \<Rightarrow> 'l \<Rightarrow> (sku_error, bool \<times> 'l) result) \<Rightarrow> u64 \<Rightarrow> 'l \<Rightarrow> string list
   \<Rightarrow> (sku_error, u64 \<times> bool \<times> 'l) result" where
  "iterateSKUs st limit cb processed l [] = Ok (processed, False, l)"
| "iterateSKUs st limit cb processed l (skuUUID # rest) =
     (if processed \<ge> limit then Ok (processed, True, l)
      else
        andThen (okOr (kv_get (SKUs st) skuUUID) SkuErrStore) (\<lambda>sku.
        andThen (cb sku l) (\<lambda>(stop, l').
        if stop then Ok (processed + 1, rest \<noteq> [], l')
        else iterateSKUs st limit cb (processed + 1) l' rest)))"

definition IterateActiveSKUsByProvider ::
  "sku_state \<Rightarrow> string \<Rightarrow> u64 \<Rightarrow> (SKU \<Rightarrow> 'l \<Rightarrow> (sku_error, bool \<times> 'l) result) \<Rightarrow> 'l
   \<Rightarrow> (sku_error, u64 \<times> bool \<times> 'l) result" where
  \<comment> \<open>the callback closes over the local variables \<open>l\<close>\<close>
  "IterateActiveSKUsByProvider st providerUUID limit cb l =
     iterateSKUs st limit cb 0 l (SKUsProviderActiveIndex st providerUUID True)"

definition HasActiveSKUsByProvider :: "sku_state \<Rightarrow> string \<Rightarrow> bool" where
  "HasActiveSKUsByProvider st providerUUID = (SKUsProviderActiveIndex st providerUUID True \<noteq> [])"

fun setProviders :: "'x sdk \<Rightarrow> sku_state \<Rightarrow> Provider list \<Rightarrow> (sku_error, sku_state) result" where
  "setProviders E st [] = Ok st"
| "setProviders E st (p # ps) = andThen (SetProvider E st p) (\<lambda>st'. setProviders E st' ps)"

definition sku_InitGenesis :: "'x sdk \<Rightarrow> sku_state \<Rightarrow> SkuGenesis \<Rightarrow> (sku_error, sku_state) result" where
  "sku_InitGenesis E st gs =
     andThen (setProviders E (sku_SetParams st (sg_Params gs)) (sg_Providers gs)) (\<lambda>st1.
     let st2 = foldl SetSKU st1 (sg_Skus gs);
         st3 = (if sg_ProviderSequence gs > 0 then st2\<lparr>ProviderSequence := sg_ProviderSequence gs\<rparr> else st2);
         st4 = (if sg_SkuSequence gs > 0 then st3\<lparr>SKUSequence := sg_SkuSequence gs\<rparr> else st3)
     in Ok st4)"

definition sku_ExportGenesis :: "sku_state \<Rightarrow> (sku_error, SkuGenesis) result" where
  "sku_ExportGenesis st =
     andThen (must (sku_Params st)) (\<lambda>params.
     Ok \<lparr>sg_Params = params, sg_Providers = map snd (Providers st), sg_Skus = map snd (SKUs st),
         sg_ProviderSequence = ProviderSequence st, sg_SkuSequence = SKUSequence st\<rparr>)"

section \<open>Message server (msg_server.go)\<close>

definition isAuthorizedSender :: "sku_state \<Rightarrow> string \<Rightarrow> (sku_error, bool) result" where
  "isAuthorizedSender st sender =
     (if sku_authority st = sender then Ok True
      else andThen (sku_GetParams st) (\<lambda>params. Ok (SkuParams_IsAllowed params sender)))"

definition requireAuthorized :: "sku_state \<Rightarrow> string \<Rightarrow> sku_error checked" where
  \<comment> \<open>the opening of every handler but \<open>UpdateParams\<close>\<close>
  "requireAuthorized st sender =
     andThen (orErr (isAuthorizedSender st sender) SkuErrUnauthorized) (\<lambda>authorized.
     if \<not> authorized then Err SkuErrUnauthorized else Ok ())"

definition CreateProvider ::
  "'x sdk \<Rightarrow> block_ctx \<Rightarrow> sku_state \<Rightarrow> MsgCreateProvider \<Rightarrow> (sku_error, sku_state \<times> string) result" where
  "CreateProvider E ctx st req =
     andThen (requireAuthorized st (cp_Authority req)) (\<lambda>_.
     andThen (orErr (MsgCreateProvider_Validate E req) ErrInvalidProvider) (\<lambda>_.
     let (uuid, st1) = GenerateProviderUUID ctx st;
         provider = \<lparr>provider_Uuid = uuid, Address = cp_Address req,
           PayoutAddress = cp_PayoutAddress req, provider_MetaHash = cp_MetaHash req,
           provider_Active = True, ApiUrl = cp_ApiUrl req\<rparr>
     in andThen (SetProvider E st1 provider) (\<lambda>st2.
     Ok (sku_emit [Event ''provider_created''
           [(''provider_uuid'', AStr uuid), (''address'', AStr (cp_Address req)),
            (''payout_address'', AStr (cp_PayoutAddress req)),
            (''created_by'', AStr (cp_Authority req))]] st2, uuid))))"

definition UpdateProvider ::
  "'x sdk \<Rightarrow> sku_state \<Rightarrow> MsgUpdateProvider \<Rightarrow> (sku_error, sku_state) result" where
  "UpdateProvider E st req =
     andThen (requireAuthorized st (up_Authority req)) (\<lambda>_.
     andThen (orErr (MsgUpdateProvider_Validate E req) ErrInvalidProvider) (\<lambda>_.
     andThen (orErr (GetProvider st (up_Uuid req)) SkuErrProviderNotFound) (\<lambda>existing.
     if provider_Active existing \<and> \<not> up_Active req then Err ErrInvalidProvider
     else
       (let wasInactive = (\<not> provider_Active existing);
            apiURL = (if up_ApiUrl req = [] then ApiUrl existing else up_ApiUrl req);
            provider = \<lparr>provider_Uuid = up_Uuid req, Address = up_Address req,
              PayoutAddress = up_PayoutAddress req, provider_MetaHash = up_MetaHash req,
              provider_Active = up_Active req, ApiUrl = apiURL\<rparr>
        in andThen (SetProvider E st provider) (\<lambda>st1.
        let st2 = (if wasInactive \<and> up_Active req
                   then sku_emit [Event ''provider_activated'' [(''provider_uuid'', AStr (up_Uuid req))]] st1
                   else st1)
        in Ok (sku_emit [Event ''provider_updated'' [(''provider_uuid'', AStr (up_Uuid req))]] st2))))))"

definition deactivateSKU1 :: "string \<Rightarrow> string \<Rightarrow> sku_state \<Rightarrow> SKU \<Rightarrow> sku_state" where
  "deactivateSKU1 providerUUID sender st sku =
     sku_emit [Event ''sku_deactivated''
       [(''sku_uuid'', AStr (sku_Uuid sku)), (''provider_uuid'', AStr providerUUID),
        (''deactivated_by'', AStr sender)]] (SetSKU st (sku\<lparr>sku_Active := False\<rparr>))"

definition DeactivateProvider ::
  "'x sdk \<Rightarrow> sku_state \<Rightarrow> MsgDeactivateProvider \<Rightarrow> (sku_error, sku_state \<times> u64 \<times> bool) result" where
  "DeactivateProvider E st req =
     andThen (requireAuthorized st (dp_Authority req)) (\<lambda>_.
     andThen (orErr (MsgDeactivateProvider_Validate E req) ErrInvalidProvider) (\<lambda>_.
     andThen (orErr (GetProvider st (dp_Uuid req)) SkuErrProviderNotFound) (\<lambda>existing.
     andThen
       (if \<not> provider_Active existing
        then (if \<not> HasActiveSKUsByProvider st (dp_Uuid req) then Err ErrInvalidProvider else Ok st)
        else
          andThen (SetProvider E st (existing\<lparr>provider_Active := False\<rparr>)) (\<lambda>st1.
          Ok (sku_emit [Event ''provider_deactivated''
                [(''provider_uuid'', AStr (dp_Uuid req)),
                 (''deactivated_by'', AStr (dp_Authority req))]] st1))) (\<lambda>st2.
     let limit = (if dp_Limit req = 0 then DefaultDeactivateSKULimit else dp_Limit req)
     in andThen (IterateActiveSKUsByProvider st2 (dp_Uuid req) limit
                  (\<lambda>sku acc. Ok (False, acc @ [sku])) []) (\<lambda>(_, hasMore, skusToDeactivate).
     Ok (foldl (deactivateSKU1 (dp_Uuid req) (dp_Authority req)) st2 skusToDeactivate,
         of_nat (length skusToDeactivate), hasMore))))))"

definition CreateSKU ::
  "'x sdk \<Rightarrow> block_ctx \<Rightarrow> sku_state \<Rightarrow> MsgCreateSKU \<Rightarrow> (sku_error, sku_state \<times> string) result" where
  "CreateSKU E ctx st req =
     andThen (requireAuthorized st (cs_Authority req)) (\<lambda>_.
     andThen (orErr (MsgCreateSKU_Validate E req) ErrInvalidSKU) (\<lambda>_.
     andThen (orErr (GetProvider st (cs_ProviderUuid req)) SkuErrProviderNotFound) (\<lambda>provider.
     if \<not> provider_Active provider then Err ErrInvalidProvider
     else
       (let (uuid, st1) = GenerateSKUUUID ctx st;
            sku = \<lparr>sku_Uuid = uuid, sku_ProviderUuid = cs_ProviderUuid req, sku_Name = cs_Name req,
              sku_Unit = cs_Unit req, BasePrice = cs_BasePrice req, sku_MetaHash = cs_MetaHash req,
              sku_Active = True\<rparr>;
            st2 = SetSKU st1 sku
        in Ok (sku_emit [Event ''sku_created''
             [(''sku_uuid'', AStr uuid), (''provider_uuid'', AStr (cs_ProviderUuid req)),
              (''name'', AStr (EventAttribute (cs_Name req))), (''base_price'', ACoin (cs_BasePrice req)),
              (''created_by'', AStr (cs_Authority req))]] st2, uuid)))))"

definition UpdateSKU :: "'x sdk \<Rightarrow> sku_state \<Rightarrow> MsgUpdateSKU \<Rightarrow> (sku_error, sku_state) result" where
  "UpdateSKU E st req =
     andThen (requireAuthorized st (us_Authority req)) (\<lambda>_.
     andThen (orErr (MsgUpdateSKU_Validate E req) ErrInvalidSKU) (\<lambda>_.
     andThen (orErr (GetSKU st (us_Uuid req)) SkuErrSKUNotFound) (\<lambda>existing.
     if sku_ProviderUuid existing \<noteq> us_ProviderUuid req then Err ErrInvalidSKU
     else
     andThen (orErr (GetProvider st (sku_ProviderUuid existing)) SkuErrProviderNotFound) (\<lambda>provider.
     let wasInactive = (\<not> sku_Active existing)
     in if sku_Active existing \<and> \<not> us_Active req then Err ErrInvalidSKU
        else if wasInactive \<and> us_Active req \<and> \<not> provider_Active provider then Err ErrInvalidProvider
        else
          (let sku = \<lparr>sku_Uuid = us_Uuid req, sku_ProviderUuid = us_ProviderUuid req,
                 sku_Name = us_Name req, sku_Unit = us_Unit req, BasePrice = us_BasePrice req,
                 sku_MetaHash = us_MetaHash req, sku_Active = us_Active req\<rparr>;
               st1 = SetSKU st sku;
               st2 = (if wasInactive \<and> us_Active req
                      then sku_emit [Event ''sku_activated''
                        [(''sku_uuid'', AStr (us_Uuid req)),
                         (''provider_uuid'', AStr (us_ProviderUuid req))]] st1
                      else st1)
           in Ok (sku_emit [Event ''sku_updated''
                [(''sku_uuid'', AStr (us_Uuid req)),
                 (''provider_uuid'', AStr (us_ProviderUuid req))]] st2))))))"

definition DeactivateSKU :: "'x sdk \<Rightarrow> sku_state \<Rightarrow> MsgDeactivateSKU \<Rightarrow> (sku_error, sku_state) result" where
  "DeactivateSKU E st req =
     andThen (requireAuthorized st (ds_Authority req)) (\<lambda>_.
     andThen (orErr (MsgDeactivateSKU_Validate E req) ErrInvalidSKU) (\<lambda>_.
     andThen (orErr (GetSKU st (ds_Uuid req)) SkuErrSKUNotFound) (\<lambda>existing.
     if \<not> sku_Active existing then Err ErrInvalidSKU
     else Ok (sku_emit [Event ''sku_deactivated''
            [(''sku_uuid'', AStr (ds_Uuid req)), (''provider_uuid'', AStr (sku_ProviderUuid existing)),
             (''deactivated_by'', AStr (ds_Authority req))]]
          (SetSKU st (existing\<lparr>sku_Active := False\<rparr>))))))"

definition sku_UpdateParams ::
  "'x sdk \<Rightarrow> sku_state \<Rightarrow> SkuMsgUpdateParams \<Rightarrow> (sku_error, sku_state) result" where
  "sku_UpdateParams E st req =
     (if sku_authority st \<noteq> sup_Authority req then Err SkuErrUnauthorized
      else andThen (orErr (SkuMsgUpdateParams_Validate E req) ErrInvalidConfig) (\<lambda>_.
        Ok (sku_emit [Event ''params_updated'' []] (sku_SetParams st (sup_Params req)))))"

datatype sku_msg =
    CreateProviderMsg MsgCreateProvider | UpdateProviderMsg MsgUpdateProvider
  | DeactivateProviderMsg MsgDeactivateProvider | CreateSKUMsg MsgCreateSKU
  | UpdateSKUMsg MsgUpdateSKU | DeactivateSKUMsg MsgDeactivateSKU
  | SkuUpdateParamsMsg SkuMsgUpdateParams

datatype sku_resp = UuidResp string | DeactivatedResp u64 bool | EmptyResp

fun sku_handle :: "'x sdk \<Rightarrow> (block_ctx, sku_state, sku_msg, sku_error, sku_resp) server" where
  "sku_handle E ctx st (CreateProviderMsg m) =
     andThen (CreateProvider E ctx st m) (\<lambda>(st', uuid). Ok (st', UuidResp uuid))"
| "sku_handle E ctx st (UpdateProviderMsg m) =
     andThen (UpdateProvider E st m) (\<lambda>st'. Ok (st', EmptyResp))"
| "sku_handle E ctx st (DeactivateProviderMsg m) =
     andThen (DeactivateProvider E st m) (\<lambda>(st', n, more). Ok (st', DeactivatedResp n more))"
| "sku_handle E ctx st (CreateSKUMsg m) =
     andThen (CreateSKU E ctx st m) (\<lambda>(st', uuid). Ok (st', UuidResp uuid))"
| "sku_handle E ctx st (UpdateSKUMsg m) =
     andThen (UpdateSKU E st m) (\<lambda>st'. Ok (st', EmptyResp))"
| "sku_handle E ctx st (DeactivateSKUMsg m) =
     andThen (DeactivateSKU E st m) (\<lambda>st'. Ok (st', EmptyResp))"
| "sku_handle E ctx st (SkuUpdateParamsMsg m) =
     andThen (sku_UpdateParams E st m) (\<lambda>st'. Ok (st', EmptyResp))"

fun sku_sender :: "sku_msg \<Rightarrow> string" where
  "sku_sender (CreateProviderMsg m) = cp_Authority m"
| "sku_sender (UpdateProviderMsg m) = up_Authority m"
| "sku_sender (DeactivateProviderMsg m) = dp_Authority m"
| "sku_sender (CreateSKUMsg m) = cs_Authority m"
| "sku_sender (UpdateSKUMsg m) = us_Authority m"
| "sku_sender (DeactivateSKUMsg m) = ds_Authority m"
| "sku_sender (SkuUpdateParamsMsg m) = sup_Authority m"

section \<open>The state invariant\<close>

definition provider_wf :: "'x sdk \<Rightarrow> string \<Rightarrow> Provider \<Rightarrow> bool" where
  "provider_wf E u p \<longleftrightarrow> provider_Uuid p = u \<and> IsValidUUIDv7 u \<and>
     AccAddressFromBech32 E (Address p) \<noteq> None \<and> AccAddressFromBech32 E (PayoutAddress p) \<noteq> None \<and>
     (ApiUrl p = [] \<or> ValidateAPIURL E (ApiUrl p) = Ok ())"

definition sku_wf :: "'x sdk \<Rightarrow> string \<Rightarrow> SKU \<Rightarrow> bool" where
  "sku_wf E u s \<longleftrightarrow> sku_Uuid s = u \<and> IsValidUUIDv7 u \<and> IsValidUUIDv7 (sku_ProviderUuid s) \<and>
     sku_Name s \<noteq> [] \<and> length (sku_Name s) \<le> MaxSKUNameLength \<and>
     CoinIsValid E (BasePrice s) \<and> price_ok (BasePrice s) (sku_Unit s)"

definition has_provider :: "sku_state \<Rightarrow> SKU \<Rightarrow> bool" where
  "has_provider st s \<longleftrightarrow> kv_get (Providers st) (sku_ProviderUuid s) \<noteq> None"

definition sku_inv :: "'x sdk \<Rightarrow> sku_state \<Rightarrow> bool" where
  "sku_inv E st \<longleftrightarrow> kv_ok (Providers st) \<and> kv_ok (SKUs st) \<and>
     kv_all (provider_wf E) (Providers st) \<and> kv_all (sku_wf E) (SKUs st) \<and>
     kv_all (\<lambda>_. has_provider st) (SKUs st)"

lemma sku_inv_emit [simp]: "sku_inv E (sku_emit evs st) \<longleftrightarrow> sku_inv E st"
  by (simp add: sku_inv_def sku_emit_def has_provider_def [abs_def])

lemma emit_sel [simp]:
  "Providers (sku_emit evs st) = Providers st" "SKUs (sku_emit evs st) = SKUs st"
  "sku_Params (sku_emit evs st) = sku_Params st" "sku_authority (sku_emit evs st) = sku_authority st"
  "ProviderSequence (sku_emit evs st) = ProviderSequence st"
  "SKUSequence (sku_emit evs st) = SKUSequence st"
  by (simp_all add: sku_emit_def)

lemma SetSKU_sel [simp]:
  "Providers (SetSKU st s) = Providers st" "SKUs (SetSKU st s) = kv_set (sku_Uuid s) s (SKUs st)"
  "sku_Params (SetSKU st s) = sku_Params st" "sku_authority (SetSKU st s) = sku_authority st"
  "ProviderSequence (SetSKU st s) = ProviderSequence st" "SKUSequence (SetSKU st s) = SKUSequence st"
  by (simp_all add: SetSKU_def)

lemma sku_inv_SetSKU:
  "sku_inv E st \<Longrightarrow> sku_wf E (sku_Uuid s) s \<Longrightarrow> has_provider st s \<Longrightarrow> sku_inv E (SetSKU st s)"
  by (auto simp: sku_inv_def has_provider_def [abs_def] intro!: kv_all_set)

lemma sku_inv_SetProvider:
  assumes "SetProvider E st p = Ok st'" and "sku_inv E st" and "provider_wf E (provider_Uuid p) p"
  shows "sku_inv E st'"
  using assms
  by (auto simp: SetProvider_def sku_inv_def has_provider_def [abs_def] kv_all_set
      intro: kv_all_mono split: if_splits)

lemma SetProvider_sel:
  assumes "SetProvider E st p = Ok st'"
  shows "SKUs st' = SKUs st" "Providers st' = kv_set (provider_Uuid p) p (Providers st)"
    "sku_Params st' = sku_Params st" "sku_authority st' = sku_authority st"
  using assms by (auto simp: SetProvider_def split: if_splits)

lemma sku_inv_sequence [simp]:
  "sku_inv E (st\<lparr>ProviderSequence := n\<rparr>) = sku_inv E st"
  "sku_inv E (st\<lparr>SKUSequence := n\<rparr>) = sku_inv E st"
  "sku_inv E (st\<lparr>sku_Params := ps\<rparr>) = sku_inv E st"
  by (simp_all add: sku_inv_def has_provider_def [abs_def])

lemma sku_inv_provider:
  "sku_inv E st \<Longrightarrow> kv_get (Providers st) u = Some p \<Longrightarrow> provider_wf E u p"
  by (auto simp: sku_inv_def intro: kv_all_get)

lemma sku_inv_sku:
  "sku_inv E st \<Longrightarrow> kv_get (SKUs st) u = Some s \<Longrightarrow> sku_wf E u s \<and> has_provider st s"
  by (auto simp: sku_inv_def dest: kv_all_get)

lemma valid_uuid: "ValidateUUIDv7 u = Ok () \<longleftrightarrow> IsValidUUIDv7 u"
  by (auto simp: ValidateUUIDv7_def IsValidUUIDv7_def uuidPattern_def)

lemma generated_valid [simp]: "IsValidUUIDv7 (GenerateUUIDv7 ctx m n)"
  by (simp add: GenerateUUIDv7_def GenerateUUIDv7WithEntropy_def Let_def formatUUID_valid)

lemma CreateProvider_inv:
  "CreateProvider E ctx st req = Ok (st', u) \<Longrightarrow> sku_inv E st \<Longrightarrow> sku_inv E st'"
  by (auto simp: CreateProvider_def GenerateProviderUUID_def MsgCreateProvider_Validate_def
      provider_wf_def split: if_splits elim!: sku_inv_SetProvider)

lemma UpdateProvider_inv:
  assumes "UpdateProvider E st req = Ok st'" and "sku_inv E st"
  shows "sku_inv E st'"
proof -
  let ?new = "\<lambda>p. \<lparr>provider_Uuid = up_Uuid req, Address = up_Address req,
    PayoutAddress = up_PayoutAddress req, provider_MetaHash = up_MetaHash req,
    provider_Active = up_Active req,
    ApiUrl = if up_ApiUrl req = [] then ApiUrl p else up_ApiUrl req\<rparr>"
  from assms(1) obtain p st1 where p: "kv_get (Providers st) (up_Uuid req) = Some p"
    and v: "MsgUpdateProvider_Validate E req = Ok ()"
    and st1: "SetProvider E st (?new p) = Ok st1" and st': "sku_inv E st' = sku_inv E st1"
    by (auto simp: UpdateProvider_def GetProvider_def Let_def split: if_split_asm)
  from v have "provider_wf E (provider_Uuid (?new p)) (?new p)"
    using sku_inv_provider [OF assms(2) p]
    by (simp add: MsgUpdateProvider_Validate_def valid_uuid provider_wf_def split: if_split_asm)
  from sku_inv_SetProvider [OF st1 assms(2) this] st' show ?thesis by simp
qed

lemma deactivateSKU1_inv:
  "sku_inv E st \<Longrightarrow> sku_wf E (sku_Uuid s) s \<Longrightarrow> has_provider st s \<Longrightarrow>
   sku_inv E (deactivateSKU1 p b st s)"
  by (simp add: deactivateSKU1_def sku_inv_SetSKU sku_wf_def has_provider_def)

lemma deactivateSKU1_sel [simp]:
  "Providers (deactivateSKU1 p b st s) = Providers st"
  "SKUs (deactivateSKU1 p b st s) = kv_set (sku_Uuid s) (s\<lparr>sku_Active := False\<rparr>) (SKUs st)"
  by (simp_all add: deactivateSKU1_def)

lemma deactivateAll_inv:
  "sku_inv E st \<Longrightarrow> \<forall>s \<in> set ss. sku_wf E (sku_Uuid s) s \<and> has_provider st s \<Longrightarrow>
   sku_inv E (foldl (deactivateSKU1 p b) st ss)"
  by (induction ss arbitrary: st) (auto simp: deactivateSKU1_inv has_provider_def)

text \<open>The iteration with the collecting callback of \<open>DeactivateProvider\<close>.\<close>

lemma iterate_collect:
  "\<forall>k \<in> set ks. kv_get (SKUs st) k \<noteq> None \<Longrightarrow> n \<le> limit \<Longrightarrow>
   \<exists>m. iterateSKUs st limit (\<lambda>sku acc. Ok (False, acc @ [sku])) n acc ks =
     Ok (m, unat limit - unat n < length ks,
         acc @ map (\<lambda>k. the (kv_get (SKUs st) k)) (take (unat limit - unat n) ks))"
proof (induction ks arbitrary: n acc)
  case Nil
  then show ?case by (simp add: word_le_nat_alt)
next
  case (Cons k ks)
  show ?case
  proof (cases "limit \<le> n")
    case True
    with Cons.prems have "n = limit" by simp
    then show ?thesis by simp
  next
    case False
    then have lt: "n < limit" by simp
    then have u: "unat (n + 1) = unat n + 1"
      using unsigned_less [of limit, where 'a = nat] by (intro unat_plus1) (simp add: word_less_nat_alt)
    from lt u have le: "n + 1 \<le> limit" by (simp add: word_le_nat_alt word_less_nat_alt)
    from Cons.prems obtain s where s: "kv_get (SKUs st) k = Some s" by auto
    from lt have d: "unat limit - unat n = Suc (unat limit - unat (n + 1))"
      using u by (simp add: word_less_nat_alt)
    show ?thesis
      using Cons.IH [of "n + 1" "acc @ [s]"] Cons.prems le lt s by (simp add: d)
  qed
qed

lemma index_present: "k \<in> set (SKUsProviderActiveIndex st p b) \<Longrightarrow> kv_get (SKUs st) k \<noteq> None"
  by (auto simp: SKUsProviderActiveIndex_def kv_get_None)

lemma deactivateAll_SKUs:
  "kv_ok (SKUs st) \<Longrightarrow> \<forall>s \<in> set ss. kv_get (SKUs st) (sku_Uuid s) = Some s \<Longrightarrow> distinct (map sku_Uuid ss) \<Longrightarrow>
   SKUs (foldl (deactivateSKU1 p b) st ss) =
     map (\<lambda>e. if fst e \<in> sku_Uuid ` set ss then (fst e, (snd e)\<lparr>sku_Active := False\<rparr>) else e) (SKUs st)"
proof (induction ss arbitrary: st)
  case (Cons s ss)
  let ?st = "deactivateSKU1 p b st s"
  have keep: "\<forall>s' \<in> set ss. kv_get (SKUs ?st) (sku_Uuid s') = Some s'"
  proof
    fix s' assume s': "s' \<in> set ss"
    with Cons.prems(3) have "sku_Uuid s' \<noteq> sku_Uuid s" by (metis distinct.simps(2) image_eqI list.simps(9) set_map)
    with s' Cons.prems(2) show "kv_get (SKUs ?st) (sku_Uuid s') = Some s'" by simp
  qed
  have uniq: "(sku_Uuid s, v) \<in> set (SKUs st) \<Longrightarrow> v = s" for v
    using Cons.prems(2) kv_get_eq_Some [OF Cons.prems(1), of "sku_Uuid s" v] by simp
  have "SKUs ?st = map (\<lambda>e. if fst e = sku_Uuid s then (sku_Uuid s, s\<lparr>sku_Active := False\<rparr>) else e) (SKUs st)"
    using Cons.prems by (simp add: kv_set_map)
  moreover have "kv_ok (SKUs ?st)" using Cons.prems by simp
  ultimately show ?case
    using Cons.IH [of ?st] keep Cons.prems(3) by (auto dest: uniq)
qed simp

lemma deactivateAll_Providers [simp]: "Providers (foldl (deactivateSKU1 p b) st ss) = Providers st"
  by (induction ss arbitrary: st) auto

definition deactivateBatch :: "sku_state \<Rightarrow> MsgDeactivateProvider \<Rightarrow> string list" where
  \<comment> \<open>the SKUs one call deactivates: the first active ones of the provider, up to the limit\<close>
  "deactivateBatch st req =
     take (unat (if dp_Limit req = 0 then DefaultDeactivateSKULimit else dp_Limit req))
       (SKUsProviderActiveIndex st (dp_Uuid req) True)"

lemma DeactivateProvider_run:
  assumes "DeactivateProvider E st req = Ok (st', n, hm)" and "sku_inv E st"
  obtains p st2 ss where "kv_get (Providers st) (dp_Uuid req) = Some p"
    and "sku_inv E st2" and "SKUs st2 = SKUs st"
    and "kv_get (Providers st2) (dp_Uuid req) = Some (p\<lparr>provider_Active := False\<rparr>)"
    and "ss = map (\<lambda>k. the (kv_get (SKUs st) k)) (deactivateBatch st req)"
    and "st' = foldl (deactivateSKU1 (dp_Uuid req) (dp_Authority req)) st2 ss"
    and "n = of_nat (length ss)"
    and "hm \<longleftrightarrow> length (deactivateBatch st req) < length (SKUsProviderActiveIndex st (dp_Uuid req) True)"
proof -
  let ?limit = "if dp_Limit req = 0 then DefaultDeactivateSKULimit else dp_Limit req"
  from assms(1) obtain p st2 m ss where p: "kv_get (Providers st) (dp_Uuid req) = Some p"
    and st2: "(if \<not> provider_Active p
        then (if \<not> HasActiveSKUsByProvider st (dp_Uuid req) then Err ErrInvalidProvider else Ok st)
        else andThen (SetProvider E st (p\<lparr>provider_Active := False\<rparr>)) (\<lambda>st1.
          Ok (sku_emit [Event ''provider_deactivated''
                [(''provider_uuid'', AStr (dp_Uuid req)),
                 (''deactivated_by'', AStr (dp_Authority req))]] st1))) = Ok st2"
    and it: "IterateActiveSKUsByProvider st2 (dp_Uuid req) ?limit
        (\<lambda>sku acc. Ok (False, acc @ [sku])) [] = Ok (m, hm, ss)"
    and st': "st' = foldl (deactivateSKU1 (dp_Uuid req) (dp_Authority req)) st2 ss"
    and n: "n = of_nat (length ss)"
    by (auto simp: DeactivateProvider_def Let_def GetProvider_def)
  have wf: "provider_wf E (dp_Uuid req) p" using sku_inv_provider [OF assms(2) p] .
  have inv2: "sku_inv E st2 \<and> SKUs st2 = SKUs st \<and>
      kv_get (Providers st2) (dp_Uuid req) = Some (p\<lparr>provider_Active := False\<rparr>)"
  proof (cases "provider_Active p")
    case False
    with st2 p assms(2) show ?thesis by (auto split: if_splits)
  next
    case True
    with st2 obtain st1 where st1: "SetProvider E st (p\<lparr>provider_Active := False\<rparr>) = Ok st1"
      and eq: "st2 = sku_emit [Event ''provider_deactivated''
                [(''provider_uuid'', AStr (dp_Uuid req)),
                 (''deactivated_by'', AStr (dp_Authority req))]] st1" by auto
    have "sku_inv E st1"
      using sku_inv_SetProvider [OF st1 assms(2)] wf by (simp add: provider_wf_def)
    with SetProvider_sel [OF st1] eq wf show ?thesis by (simp add: provider_wf_def)
  qed
  then have idx: "SKUsProviderActiveIndex st2 (dp_Uuid req) True = SKUsProviderActiveIndex st (dp_Uuid req) True"
    by (simp add: SKUsProviderActiveIndex_def)
  from iterate_collect [of "SKUsProviderActiveIndex st (dp_Uuid req) True" st2 0 ?limit "[]"]
    index_present [of _ st] inv2 it idx
  have "hm = (unat ?limit < length (SKUsProviderActiveIndex st (dp_Uuid req) True))"
    and "ss = map (\<lambda>k. the (kv_get (SKUs st) k)) (deactivateBatch st req)"
    by (auto simp: IterateActiveSKUsByProvider_def deactivateBatch_def)
  moreover have "unat ?limit < length (SKUsProviderActiveIndex st (dp_Uuid req) True) \<longleftrightarrow>
      length (deactivateBatch st req) < length (SKUsProviderActiveIndex st (dp_Uuid req) True)"
    unfolding deactivateBatch_def length_take by linarith
  ultimately show thesis
    using that [OF p, of st2 ss] inv2 st' n by blast
qed

lemma index_distinct: "sku_inv E st \<Longrightarrow> distinct (SKUsProviderActiveIndex st p b)"
  by (auto simp: SKUsProviderActiveIndex_def sku_inv_def dest!: kv_ok_distinct intro: distinct_map_filter)

lemma batch_skus:
  assumes "sku_inv E st" and "ss = map (\<lambda>k. the (kv_get (SKUs st) k)) (deactivateBatch st req)"
  shows "map sku_Uuid ss = deactivateBatch st req"
    and "\<forall>s \<in> set ss. kv_get (SKUs st) (sku_Uuid s) = Some s"
    and "distinct (deactivateBatch st req)"
proof -
  have get: "\<exists>s. kv_get (SKUs st) k = Some s \<and> sku_Uuid s = k"
    if "k \<in> set (deactivateBatch st req)" for k
  proof -
    from that have "kv_get (SKUs st) k \<noteq> None"
      by (auto simp: deactivateBatch_def dest!: in_set_takeD index_present)
    then show ?thesis using sku_inv_sku [OF assms(1)] by (fastforce simp: sku_wf_def)
  qed
  show "map sku_Uuid ss = deactivateBatch st req"
    unfolding assms(2) map_map using get by (intro map_idI) force
  show "\<forall>s \<in> set ss. kv_get (SKUs st) (sku_Uuid s) = Some s"
    using get assms(2) by force
  show "distinct (deactivateBatch st req)"
    using index_distinct [OF assms(1)] by (simp add: deactivateBatch_def)
qed

lemma DeactivateProvider_inv:
  assumes "DeactivateProvider E st req = Ok (st', n, hm)" and "sku_inv E st"
  shows "sku_inv E st'"
proof -
  obtain p st2 ss where r: "sku_inv E st2" "SKUs st2 = SKUs st"
    "ss = map (\<lambda>k. the (kv_get (SKUs st) k)) (deactivateBatch st req)"
    "st' = foldl (deactivateSKU1 (dp_Uuid req) (dp_Authority req)) st2 ss"
    using DeactivateProvider_run [OF assms] by metis
  have "sku_wf E (sku_Uuid s) s \<and> has_provider st2 s" if "s \<in> set ss" for s
    using batch_skus(2) [OF assms(2) r(3)] that sku_inv_sku [OF r(1)] r(2) by auto
  with r(1,4) show ?thesis by (simp add: deactivateAll_inv)
qed

context sdk_laws
begin

lemma CreateSKU_inv:
  assumes "CreateSKU E ctx st req = Ok (st', u)" and "sku_inv E st"
  shows "sku_inv E st'"
  using assms
  by (auto simp: CreateSKU_def GenerateSKUUUID_def MsgCreateSKU_Validate_def GetProvider_def Let_def
      valid_uuid sku_wf_def has_provider_def ValidatePriceAndUnit_iff CoinIsValid_nonneg
      intro!: sku_inv_SetSKU split: if_splits)

lemma UpdateSKU_inv:
  assumes "UpdateSKU E st req = Ok st'" and "sku_inv E st"
  shows "sku_inv E st'"
  using assms
  by (auto simp: UpdateSKU_def MsgUpdateSKU_Validate_def GetProvider_def Let_def
      valid_uuid sku_wf_def has_provider_def ValidatePriceAndUnit_iff CoinIsValid_nonneg
      intro!: sku_inv_SetSKU split: if_splits)

lemma DeactivateSKU_inv:
  assumes "DeactivateSKU E st req = Ok st'" and "sku_inv E st"
  shows "sku_inv E st'"
proof -
  from assms(1) obtain s where s: "kv_get (SKUs st) (ds_Uuid req) = Some s"
    by (auto simp: DeactivateSKU_def GetSKU_def)
  from sku_inv_sku [OF assms(2) this] assms show ?thesis
    by (auto simp: DeactivateSKU_def GetSKU_def s sku_wf_def has_provider_def
        intro!: sku_inv_SetSKU split: if_splits)
qed

lemma sku_handle_inv:
  "sku_inv E st \<Longrightarrow> sku_handle E ctx st m = Ok (st', r) \<Longrightarrow> sku_inv E st'"
  by (cases m)
    (auto simp: sku_UpdateParams_def sku_SetParams_def split: if_splits
      dest: CreateProvider_inv UpdateProvider_inv DeactivateProvider_inv
        CreateSKU_inv UpdateSKU_inv DeactivateSKU_inv)

end

sublocale sdk_laws \<subseteq> sku_server: msg_server "sku_handle E" "\<lambda>_ _ _. True" "sku_inv E"
  by unfold_locales (rule sku_handle_inv)

context sdk_laws
begin

lemma sku_run_inv: "sku_inv E st \<Longrightarrow> sku_inv E (deliverAll (sku_handle E) cms st)"
proof (rule sku_server.deliverAll_inv)
  show "admissible_run (sku_handle E) (\<lambda>_ _ _. True) cms st" by (induction cms arbitrary: st) simp_all
qed

lemma stored_rate:
  assumes "sku_inv E st" and "GetSKU st u = Ok s"
  shows "\<exists>rate k. CalculatePricePerSecond E (BasePrice s) (sku_Unit s) = (rate, True) \<and> 0 < rate \<and>
           divisorForUnit (sku_Unit s) = Some k \<and> rate * k = Amount (BasePrice s)"
    and "isOk (GetProvider st (sku_ProviderUuid s))"
proof -
  have wf: "sku_wf E u s \<and> has_provider st s"
    using sku_inv_sku [OF assms(1), of u s] assms(2) by (simp add: GetSKU_def)
  then show "isOk (GetProvider st (sku_ProviderUuid s))"
    by (auto simp: has_provider_def GetProvider_def)
  from wf have nn: "0 \<le> Amount (BasePrice s)" and pok: "price_ok (BasePrice s) (sku_Unit s)"
    by (auto simp: sku_wf_def intro: CoinIsValid_nonneg)
  then obtain k where k: "divisorForUnit (sku_Unit s) = Some k" by (auto simp: price_ok_def)
  obtain rate b where c: "CalculatePricePerSecond E (BasePrice s) (sku_Unit s) = (rate, b)"
    by fastforce
  show "\<exists>rate k. CalculatePricePerSecond E (BasePrice s) (sku_Unit s) = (rate, True) \<and> 0 < rate \<and>
           divisorForUnit (sku_Unit s) = Some k \<and> rate * k = Amount (BasePrice s)"
    using CalculatePricePerSecond_ok(1) [OF nn, of "sku_Unit s"]
      CalculatePricePerSecond_ok(2) [OF nn k pok] k pok c by simp
qed

end

section \<open>Genesis\<close>

lemma setProviders_spec:
  "setProviders E st ps = Ok st' \<longleftrightarrow>
     (\<forall>p \<in> set ps. AccAddressFromBech32 E (Address p) \<noteq> None) \<and>
     st' = st\<lparr>Providers := foldl (\<lambda>m p. kv_set (provider_Uuid p) p m) (Providers st) ps\<rparr>"
  by (induction ps arbitrary: st) (auto simp: SetProvider_def)

lemma foldl_SetSKU:
  "foldl SetSKU st ss = st\<lparr>SKUs := foldl (\<lambda>m s. kv_set (sku_Uuid s) s m) (SKUs st) ss\<rparr>"
  by (induction ss arbitrary: st) (auto simp: SetSKU_def)

lemma foldl_keyed:
  assumes "kv_ok m" and "\<forall>e \<in> set m. key (snd e) = fst e"
  shows "foldl (\<lambda>m v. kv_set (key v) v m) [] (map snd m) = m"
proof -
  have "foldl (\<lambda>m v. kv_set (key v) v m) a (map snd m) =
      foldl (\<lambda>m e. kv_set (fst e) (snd e) m) a m" for a
    using assms(2) by (induction m arbitrary: a) auto
  with assms(1) show ?thesis by (simp add: foldl_kv_set_sorted)
qed

lemma kv_ok_foldl: "kv_ok m \<Longrightarrow> kv_ok (foldl (\<lambda>m v. kv_set (key v) v m) m vs)"
  by (induction vs arbitrary: m) auto

lemma kv_all_foldl:
  "kv_all P m \<Longrightarrow> \<forall>v \<in> set vs. P (key v) v \<Longrightarrow> kv_all P (foldl (\<lambda>m v. kv_set (key v) v m) m vs)"
  by (induction vs arbitrary: m) (auto simp: kv_all_set)

lemma kv_get_foldl:
  "kv_get (foldl (\<lambda>m v. kv_set (key v) v m) m vs) k \<noteq> None \<longleftrightarrow> kv_get m k \<noteq> None \<or> k \<in> key ` set vs"
  by (induction vs arbitrary: m) auto

lemma genesisProviders_ok:
  "genesisProviders E seen ps = Ok seen' \<Longrightarrow>
   (\<forall>p \<in> set ps. provider_wf E (provider_Uuid p) p) \<and> seen' = seen \<union> provider_Uuid ` set ps"
  by (induction E seen ps rule: genesisProviders.induct)
    (auto simp: provider_wf_def valid_uuid split: if_splits)

definition sku_empty :: "string \<Rightarrow> sku_state" where
  "sku_empty auth = \<lparr>sku_authority = auth, sku_Params = None, Providers = [], SKUs = [],
     ProviderSequence = 0, SKUSequence = 0, sku_events = []\<rparr>"

lemma genesisProviders_complete:
  "\<forall>p \<in> set ps. provider_wf E (provider_Uuid p) p \<and> Address p \<noteq> [] \<and> PayoutAddress p \<noteq> [] \<Longrightarrow>
   distinct (map provider_Uuid ps) \<Longrightarrow> provider_Uuid ` set ps \<inter> seen = {} \<Longrightarrow>
   genesisProviders E seen ps = Ok (seen \<union> provider_Uuid ` set ps)"
  by (induction E seen ps rule: genesisProviders.induct) (auto simp: provider_wf_def valid_uuid)

context sdk_laws
begin

lemma genesisSKUs_ok:
  "genesisSKUs E provs seen ss = Ok () \<Longrightarrow>
   \<forall>s \<in> set ss. sku_wf E (sku_Uuid s) s \<and> sku_ProviderUuid s \<in> provs"
proof (induction ss arbitrary: seen)
  case (Cons s ss)
  then show ?case
    by (auto simp: sku_wf_def valid_uuid ValidatePriceAndUnit_iff CoinIsValid_nonneg split: if_splits)
qed simp

lemma genesisSKUs_complete:
  "\<forall>s \<in> set ss. sku_wf E (sku_Uuid s) s \<and> sku_ProviderUuid s \<in> provs \<Longrightarrow>
   distinct (map sku_Uuid ss) \<Longrightarrow> sku_Uuid ` set ss \<inter> seen = {} \<Longrightarrow> genesisSKUs E provs seen ss = Ok ()"
proof (induction ss arbitrary: seen)
  case (Cons s ss)
  then have "sku_Unit s \<noteq> UNIT_UNSPECIFIED" "Amount (BasePrice s) \<noteq> 0"
    by (auto simp: sku_wf_def price_ok_def)
  with Cons show ?case
    by (auto simp: sku_wf_def valid_uuid ValidatePriceAndUnit_iff CoinIsValid_nonneg)
qed simp

lemma InitGenesis_inv:
  assumes "SkuGenesis_Validate E gs = Ok ()"
  shows "\<exists>st'. sku_InitGenesis E (sku_empty auth) gs = Ok st' \<and> sku_inv E st'"
proof -
  from assms obtain seen where pr: "genesisProviders E {} (sg_Providers gs) = Ok seen"
    and sk: "genesisSKUs E seen {} (sg_Skus gs) = Ok ()"
    by (auto simp: SkuGenesis_Validate_def)
  note pw = genesisProviders_ok [OF pr] and sw = genesisSKUs_ok [OF sk]
  define ps where "ps = foldl (\<lambda>m p. kv_set (provider_Uuid p) p m) [] (sg_Providers gs)"
  define ss where "ss = foldl (\<lambda>m s. kv_set (sku_Uuid s) s m) [] (sg_Skus gs)"
  have ps: "kv_ok ps" "kv_all (provider_wf E) ps" "\<And>u. kv_get ps u \<noteq> None \<longleftrightarrow> u \<in> seen"
    unfolding ps_def kv_get_foldl using pw by (auto intro!: kv_ok_foldl kv_all_foldl)
  have ss: "kv_ok ss" "kv_all (\<lambda>u s. sku_wf E u s \<and> sku_ProviderUuid s \<in> seen) ss"
    unfolding ss_def using sw by (auto intro!: kv_ok_foldl kv_all_foldl)
  have "setProviders E (sku_SetParams (sku_empty auth) (sg_Params gs)) (sg_Providers gs) =
      Ok ((sku_SetParams (sku_empty auth) (sg_Params gs))\<lparr>Providers := ps\<rparr>)"
    unfolding setProviders_spec ps_def using pw
    by (auto simp: provider_wf_def sku_SetParams_def sku_empty_def)
  with ps ss show ?thesis
    by (auto simp: sku_InitGenesis_def foldl_SetSKU ss_def [symmetric] Let_def sku_inv_def
        has_provider_def [abs_def] sku_SetParams_def sku_empty_def kv_all_def)
qed

end

section \<open>Properties\<close>

text \<open>
  Claim C17.  Whatever messages are delivered, in whatever order and blocks, the SKU
  store stays well formed: keys are the identifiers of what they hold, every SKU
  belongs to a stored provider, addresses decode, and every price is a positive
  whole number of units per second.
\<close>

theorem sku_deliverAll_inv:
  assumes "sdk_laws E" and "sku_inv E st"
  shows "sku_inv E (deliverAll (sku_handle E) cms st)"
  using assms by (rule sdk_laws.sku_run_inv)

definition sample_ctx :: block_ctx where
  "sample_ctx = \<lparr>BlockTime = 1700000000 * 1000000000, HeaderHash = [1, 2, 3], ChainID = ''manifest''\<rparr>"

definition sample_provider :: MsgCreateProvider where
  "sample_provider = \<lparr>cp_Authority = ''manifest1gov'', cp_Address = ''manifest1prov'',
     cp_PayoutAddress = ''manifest1pay'', cp_MetaHash = [], cp_ApiUrl = ''https://api.example''\<rparr>"

theorem sku_deliverAll_inv_witness:
  "sdk_laws ref_sdk \<and> sku_inv ref_sdk (sku_empty ''manifest1gov'') \<and>
   sku_inv ref_sdk (deliverAll (sku_handle ref_sdk)
     [(sample_ctx, CreateProviderMsg sample_provider)] (sku_empty ''manifest1gov'')) \<and>
   length (Providers (deliverAll (sku_handle ref_sdk)
     [(sample_ctx, CreateProviderMsg sample_provider)] (sku_empty ''manifest1gov''))) = 1"
proof -
  have inv: "sku_inv ref_sdk (sku_empty ''manifest1gov'')"
    by (simp add: sku_inv_def sku_empty_def)
  have "length (Providers (deliverAll (sku_handle ref_sdk)
     [(sample_ctx, CreateProviderMsg sample_provider)] (sku_empty ''manifest1gov''))) = 1"
    by (simp add: deliverAll_def deliver_def sample_ctx_def sample_provider_def sku_empty_def
        CreateProvider_def requireAuthorized_def isAuthorizedSender_def GenerateProviderUUID_def
        MsgCreateProvider_Validate_def ValidateAPIURL_def ref_sdk_def ref_decode_def ref_hrp_def
        SetProvider_def sku_MaxMetaHashLength_def MaxAPIURLLength_def)
  with inv sku_deliverAll_inv [OF ref.sdk_laws_axioms inv] ref.sdk_laws_axioms show ?thesis by blast
qed

text \<open>
  Every SKU a client of the keeper can read is billable: whatever messages
  were delivered, the price and unit stored for it convert to a positive exact
  per-second rate, and its provider is stored.
\<close>

lemma stored_sku_billable:
  assumes "sdk_laws E" and "sku_inv E st" and "GetSKU (deliverAll (sku_handle E) cms st) u = Ok s"
  shows "\<exists>rate k. CalculatePricePerSecond E (BasePrice s) (sku_Unit s) = (rate, True) \<and> 0 < rate \<and>
           divisorForUnit (sku_Unit s) = Some k \<and> rate * k = Amount (BasePrice s) \<and>
           isOk (GetProvider (deliverAll (sku_handle E) cms st) (sku_ProviderUuid s))"
  using sdk_laws.stored_rate [OF assms(1) sdk_laws.sku_run_inv [OF assms(1,2)] assms(3)] by blast

definition sample_puuid :: string where
  "sample_puuid = ''01890000-0000-7000-8000-00000000000a''"

definition sample_suuid :: string where
  "sample_suuid = ''01890000-0000-7000-8000-00000000000b''"

definition sample_sku :: SKU where
  "sample_sku = \<lparr>sku_Uuid = sample_suuid, sku_ProviderUuid = sample_puuid, sku_Name = ''small'',
     sku_Unit = UNIT_PER_HOUR, BasePrice = \<lparr>Denom = ''umfx'', Amount = 7200\<rparr>, sku_MetaHash = [],
     sku_Active = True\<rparr>"

definition sample_stored :: Provider where
  "sample_stored = \<lparr>provider_Uuid = sample_puuid, Address = ''manifest1prov'',
     PayoutAddress = ''manifest1pay'', provider_MetaHash = [], provider_Active = True, ApiUrl = []\<rparr>"

definition sample_sku_state :: sku_state where
  "sample_sku_state = \<lparr>sku_authority = ''manifest1gov'', sku_Params = Some sku_DefaultParams,
     Providers = [(sample_puuid, sample_stored)], SKUs = [(sample_suuid, sample_sku)],
     ProviderSequence = 1, SKUSequence = 1, sku_events = []\<rparr>"

lemma sample_uuids [simp]: "IsValidUUIDv7 sample_puuid" "IsValidUUIDv7 sample_suuid"
  by (simp_all add: IsValidUUIDv7_def uuidPattern_eq sample_puuid_def sample_suuid_def isHex_def)

lemma ref_decode_sample [simp]:
  "AccAddressFromBech32 ref_sdk ''manifest1gov'' \<noteq> None"
  "AccAddressFromBech32 ref_sdk ''manifest1prov'' \<noteq> None"
  "AccAddressFromBech32 ref_sdk ''manifest1pay'' \<noteq> None"
  by (simp_all add: ref_sdk_def ref_decode_def ref_hrp_def)

lemma sample_sku_inv: "sku_inv ref_sdk sample_sku_state"
proof -
  have "price_ok \<lparr>Denom = ''umfx'', Amount = 7200\<rparr> UNIT_PER_HOUR"
    by (simp add: price_ok_def SecondsPerHour_def)
  then show ?thesis
    by (simp add: sku_inv_def sample_sku_state_def kv_ok_def kv_all_def provider_wf_def sku_wf_def
        has_provider_def sample_stored_def sample_sku_def kv_get_Cons MaxSKUNameLength_def)
      (simp add: ref_sdk_def)
qed

lemma mark_index:
  "map fst (filter (\<lambda>e. sku_ProviderUuid (snd e) = p \<and> sku_Active (snd e) = True)
     (map (\<lambda>e. if fst e \<in> B then (fst e, (snd e)\<lparr>sku_Active := False\<rparr>) else e) m)) =
   filter (\<lambda>k. k \<notin> B) (map fst (filter (\<lambda>e. sku_ProviderUuid (snd e) = p \<and> sku_Active (snd e) = True) m))"
  by (induction m) auto

lemma mark_get:
  "kv_get (map (\<lambda>e. if fst e \<in> B then (fst e, (snd e)\<lparr>sku_Active := False\<rparr>) else e) m) u =
   (if u \<in> B then map_option (\<lambda>s. s\<lparr>sku_Active := False\<rparr>) (kv_get m u) else kv_get m u)"
  by (induction m) (auto simp: kv_get_Cons)

lemma DeactivateProvider_marks:
  assumes "DeactivateProvider E st req = Ok (st', n, hm)" and "sku_inv E st"
  shows "SKUs st' = map (\<lambda>e. if fst e \<in> set (deactivateBatch st req)
     then (fst e, (snd e)\<lparr>sku_Active := False\<rparr>) else e) (SKUs st)"
proof -
  obtain st2 ss where r: "sku_inv E st2" "SKUs st2 = SKUs st"
    "ss = map (\<lambda>k. the (kv_get (SKUs st) k)) (deactivateBatch st req)"
    "st' = foldl (deactivateSKU1 (dp_Uuid req) (dp_Authority req)) st2 ss"
    using DeactivateProvider_run [OF assms] by metis
  note b = batch_skus [OF assms(2) r(3)]
  have "sku_Uuid ` set ss = set (deactivateBatch st req)" using b(1) by (metis set_map)
  with b r(1,2) show ?thesis
    unfolding r(4) using deactivateAll_SKUs [of st2 ss "dp_Uuid req" "dp_Authority req"]
    by (simp add: sku_inv_def)
qed

lemma DeactivateProvider_SKUs:
  assumes "DeactivateProvider E st req = Ok (st', n, hm)" and "sku_inv E st"
  shows "kv_get (SKUs st') u = (if u \<in> set (deactivateBatch st req)
     then map_option (\<lambda>s. s\<lparr>sku_Active := False\<rparr>) (kv_get (SKUs st) u) else kv_get (SKUs st) u)"
  unfolding DeactivateProvider_marks [OF assms] by (rule mark_get)

text \<open>
  Claim C32.  Deactivating a provider cascades exactly to its first active SKUs in key
  order, up to the limit (50 when none is given): the provider is inactive
  afterwards, the reported count is the number of SKUs deactivated, no other SKU
  changes, and \<open>has_more\<close> is reported exactly when an active SKU of the provider
  is left for the next call.
\<close>

theorem DeactivateProvider_cascade:
  assumes "sku_inv E st" and "DeactivateProvider E st req = Ok (st', n, hasMore)"
  shows "(\<exists>p. kv_get (Providers st') (dp_Uuid req) = Some p \<and> \<not> provider_Active p) \<and>
    SKUsProviderActiveIndex st' (dp_Uuid req) True =
      drop (length (deactivateBatch st req)) (SKUsProviderActiveIndex st (dp_Uuid req) True) \<and>
    (\<forall>u. kv_get (SKUs st') u =
      (if u \<in> set (deactivateBatch st req)
       then map_option (\<lambda>s. s\<lparr>sku_Active := False\<rparr>) (kv_get (SKUs st) u) else kv_get (SKUs st) u)) \<and>
    n = of_nat (length (deactivateBatch st req)) \<and>
    (hasMore \<longleftrightarrow> HasActiveSKUsByProvider st' (dp_Uuid req))"
proof -
  let ?ks = "SKUsProviderActiveIndex st (dp_Uuid req) True" and ?b = "deactivateBatch st req"
  obtain p st2 ss where r: "sku_inv E st2" "SKUs st2 = SKUs st"
    "kv_get (Providers st2) (dp_Uuid req) = Some (p\<lparr>provider_Active := False\<rparr>)"
    "ss = map (\<lambda>k. the (kv_get (SKUs st) k)) ?b"
    "st' = foldl (deactivateSKU1 (dp_Uuid req) (dp_Authority req)) st2 ss"
    "n = of_nat (length ss)" "hasMore \<longleftrightarrow> length ?b < length ?ks"
    using DeactivateProvider_run [OF assms(2,1)] by metis
  note sk = DeactivateProvider_marks [OF assms(2,1)]
  have "SKUsProviderActiveIndex st' (dp_Uuid req) True = filter (\<lambda>k. k \<notin> set ?b) ?ks"
    unfolding SKUsProviderActiveIndex_def sk by (rule mark_index)
  also have "\<dots> = drop (length ?b) ?ks"
    using filter_drop_prefix [OF index_distinct [OF assms(1)], of "length ?b" "dp_Uuid req" True]
    by (simp add: deactivateBatch_def min_def split: if_splits)
  finally have "SKUsProviderActiveIndex st' (dp_Uuid req) True = drop (length ?b) ?ks" .
  moreover have "\<forall>u. kv_get (SKUs st') u =
      (if u \<in> set ?b then map_option (\<lambda>s. s\<lparr>sku_Active := False\<rparr>) (kv_get (SKUs st) u)
       else kv_get (SKUs st) u)"
    using DeactivateProvider_SKUs [OF assms(2,1)] by blast
  moreover have "kv_get (Providers st') (dp_Uuid req) = Some (p\<lparr>provider_Active := False\<rparr>)"
    using r(3,5) by simp
  moreover have "n = of_nat (length ?b)" using r(4,6) by simp
  ultimately show ?thesis
    using r(7) by (simp add: HasActiveSKUsByProvider_def not_le)
qed

lemma deactivateAll_Params [simp]: "sku_Params (foldl (deactivateSKU1 p b) st ss) = sku_Params st"
  by (induction ss arbitrary: st) (auto simp: deactivateSKU1_def)

lemma handler_params:
  assumes "sku_handle E ctx st m = Ok (st', r)" and "\<And>um. m \<noteq> SkuUpdateParamsMsg um"
  shows "sku_Params st' = sku_Params st"
proof (cases m)
  case (DeactivateProviderMsg d)
  with assms(1) show ?thesis
    by (auto simp: DeactivateProvider_def Let_def dest!: SetProvider_sel(3) split: if_splits)
qed (use assms in \<open>auto simp: CreateProvider_def UpdateProvider_def CreateSKU_def UpdateSKU_def
    DeactivateSKU_def Let_def GenerateProviderUUID_def GenerateSKUUUID_def
    dest!: SetProvider_sel(3) split: if_splits\<close>)

definition sample_deactivate :: MsgDeactivateProvider where
  "sample_deactivate = \<lparr>dp_Authority = ''manifest1gov'', dp_Uuid = sample_puuid, dp_Limit = 0\<rparr>"

theorem DeactivateProvider_cascade_witness:
  "\<exists>st' n hasMore. DeactivateProvider ref_sdk sample_sku_state sample_deactivate = Ok (st', n, hasMore) \<and>
     SKUsProviderActiveIndex st' sample_puuid True =
       drop (length (deactivateBatch sample_sku_state sample_deactivate))
         (SKUsProviderActiveIndex sample_sku_state sample_puuid True) \<and>
     n = of_nat (length (deactivateBatch sample_sku_state sample_deactivate))"
proof -
  have "isOk (DeactivateProvider ref_sdk sample_sku_state sample_deactivate)"
    by (simp add: DeactivateProvider_def sample_deactivate_def requireAuthorized_def sample_sku_state_def
        isAuthorizedSender_def MsgDeactivateProvider_Validate_def valid_uuid GetProvider_def kv_get_Cons
        sample_stored_def SetProvider_def IterateActiveSKUsByProvider_def SKUsProviderActiveIndex_def
        sample_sku_def MaxDeactivateSKULimit_def DefaultDeactivateSKULimit_def)
  then obtain st' n hm where r: "DeactivateProvider ref_sdk sample_sku_state sample_deactivate = Ok (st', n, hm)"
    by (auto simp: isOk_iff)
  with DeactivateProvider_cascade [OF sample_sku_inv r] show ?thesis
    by (auto simp: sample_deactivate_def)
qed

text \<open>
  Claim C34.  Only the authority and the accounts on the allowed list can change the
  SKU state, and only the authority can change the parameters.
\<close>

theorem sku_authorization:
  assumes "sku_handle E ctx st m = Ok (st', r)"
  shows "sku_sender m = sku_authority st \<or>
     (\<exists>p. sku_Params st = Some p \<and> sku_sender m \<in> set (sku_AllowedList p) \<and>
          (\<forall>um. m \<noteq> SkuUpdateParamsMsg um) \<and> sku_Params st' = Some p)"
proof -
  have auth: "sku_sender m = sku_authority st \<or>
      (\<exists>p. sku_Params st = Some p \<and> sku_sender m \<in> set (sku_AllowedList p))"
    if "requireAuthorized st (sku_sender m) = Ok ()"
    using that by (auto simp: requireAuthorized_def isAuthorizedSender_def sku_GetParams_def
        SkuParams_IsAllowed_def split: if_splits)
  show ?thesis
  proof (cases m)
    case (SkuUpdateParamsMsg um)
    with assms show ?thesis by (auto simp: sku_UpdateParams_def split: if_splits)
  qed (use assms auth handler_params [OF assms] in \<open>auto simp: CreateProvider_def UpdateProvider_def
      DeactivateProvider_def CreateSKU_def UpdateSKU_def DeactivateSKU_def\<close>)
qed

theorem sku_authorization_witness:
  "\<exists>st' r. sku_handle ref_sdk sample_ctx sample_sku_state (DeactivateProviderMsg sample_deactivate) = Ok (st', r) \<and>
     (sku_sender (DeactivateProviderMsg sample_deactivate) = sku_authority sample_sku_state \<or>
      (\<exists>p. sku_Params sample_sku_state = Some p \<and>
           sku_sender (DeactivateProviderMsg sample_deactivate) \<in> set (sku_AllowedList p) \<and>
           (\<forall>um. DeactivateProviderMsg sample_deactivate \<noteq> SkuUpdateParamsMsg um) \<and> sku_Params st' = Some p))"
proof -
  have "isOk (sku_handle ref_sdk sample_ctx sample_sku_state (DeactivateProviderMsg sample_deactivate))"
    by (simp add: DeactivateProvider_def sample_deactivate_def requireAuthorized_def sample_sku_state_def
        isAuthorizedSender_def MsgDeactivateProvider_Validate_def valid_uuid GetProvider_def kv_get_Cons
        sample_stored_def SetProvider_def IterateActiveSKUsByProvider_def SKUsProviderActiveIndex_def
        sample_sku_def MaxDeactivateSKULimit_def DefaultDeactivateSKULimit_def)
  then obtain st' r where
    "sku_handle ref_sdk sample_ctx sample_sku_state (DeactivateProviderMsg sample_deactivate) = Ok (st', r)"
    by (auto simp: isOk_iff simp del: sku_handle.simps)
  with sku_authorization [OF this] show ?thesis by blast
qed

lemma sku_DefaultGenesis_valid: "SkuGenesis_Validate E sku_DefaultGenesis = Ok ()"
  by (simp add: SkuGenesis_Validate_def sku_DefaultGenesis_def SkuParams_Validate_def sku_DefaultParams_def)

lemma sku_inv_keys:
  assumes "sku_inv E st"
  shows "\<forall>e \<in> set (Providers st). provider_Uuid (snd e) = fst e"
    and "\<forall>e \<in> set (SKUs st). sku_Uuid (snd e) = fst e"
  using assms by (auto simp: sku_inv_def kv_all_def provider_wf_def sku_wf_def)

lemma sku_Export_Init:
  assumes "sku_inv E st" and "sku_Params st = Some p"
  shows "\<exists>gs. sku_ExportGenesis st = Ok gs \<and>
           sku_InitGenesis E (sku_empty (sku_authority st)) gs = Ok (st\<lparr>sku_events := []\<rparr>)"
proof -
  note keys = sku_inv_keys [OF assms(1)]
  have ok: "kv_ok (Providers st)" "kv_ok (SKUs st)" using assms(1) by (simp_all add: sku_inv_def)
  have dec: "\<forall>q \<in> set (map snd (Providers st)). AccAddressFromBech32 E (Address q) \<noteq> None"
    using assms(1) by (auto simp: sku_inv_def kv_all_def provider_wf_def)
  have "setProviders E (sku_SetParams (sku_empty (sku_authority st)) p) (map snd (Providers st)) =
      Ok ((sku_SetParams (sku_empty (sku_authority st)) p)\<lparr>Providers := Providers st\<rparr>)"
    unfolding setProviders_spec using dec foldl_keyed [OF ok(1) keys(1)]
    by (simp add: sku_SetParams_def sku_empty_def)
  with assms(2) foldl_keyed [OF ok(2) keys(2)] show ?thesis
    by (auto simp: sku_ExportGenesis_def sku_InitGenesis_def Let_def foldl_SetSKU sku_SetParams_def
        sku_empty_def word_gt_0 intro!: sku_state.equality)
qed

context sdk_laws
begin

lemma Export_valid:
  assumes inv: "sku_inv E st" and "sku_Params st = Some p" and par: "SkuParams_Validate E p = Ok ()"
    and len: "of_nat (length (Providers st)) \<le> ProviderSequence st" "of_nat (length (SKUs st)) \<le> SKUSequence st"
    and ex: "sku_ExportGenesis st = Ok gs"
  shows "SkuGenesis_Validate E gs = Ok ()"
proof -
  note keys = sku_inv_keys [OF inv]
  from ex assms(2) have gs: "gs = \<lparr>sg_Params = p, sg_Providers = map snd (Providers st),
      sg_Skus = map snd (SKUs st), sg_ProviderSequence = ProviderSequence st, sg_SkuSequence = SKUSequence st\<rparr>"
    by (simp add: sku_ExportGenesis_def)
  have ids: "map provider_Uuid (map snd (Providers st)) = map fst (Providers st)"
    "map sku_Uuid (map snd (SKUs st)) = map fst (SKUs st)" using keys by auto
  have dis: "distinct (map provider_Uuid (map snd (Providers st)))" "distinct (map sku_Uuid (map snd (SKUs st)))"
    unfolding ids using inv by (simp_all add: sku_inv_def kv_ok_distinct)
  have pw: "\<forall>q \<in> set (map snd (Providers st)).
      provider_wf E (provider_Uuid q) q \<and> Address q \<noteq> [] \<and> PayoutAddress q \<noteq> []"
    using inv bech32_empty by (auto simp: sku_inv_def kv_all_def provider_wf_def)
  have "provider_Uuid ` set (map snd (Providers st)) = fst ` set (Providers st)"
    using ids(1) by (metis set_map)
  then have pr: "genesisProviders E {} (map snd (Providers st)) = Ok (fst ` set (Providers st))"
    using genesisProviders_complete [OF pw dis(1), of "{}"] by simp
  have sw: "\<forall>s \<in> set (map snd (SKUs st)). sku_wf E (sku_Uuid s) s \<and> sku_ProviderUuid s \<in> fst ` set (Providers st)"
    using inv keys(2) by (auto simp: sku_inv_def kv_all_def has_provider_def kv_get_None sku_wf_def)
  show ?thesis
    using par pr genesisSKUs_complete [OF sw dis(2), of "{}"] len
    by (simp add: SkuGenesis_Validate_def gs not_less)
qed

end

text \<open>
  Claim C35.  Export followed by import is the identity on a well-formed state (events
  aside), and what is exported passes genesis validation when the parameters are
  valid and the sequences have not wrapped below the number of stored entries.
\<close>

theorem sku_genesis_roundtrip:
  assumes "sdk_laws E" and "sku_inv E st" and "sku_Params st = Some p" and "SkuParams_Validate E p = Ok ()"
    and "of_nat (length (Providers st)) \<le> ProviderSequence st"
    and "of_nat (length (SKUs st)) \<le> SKUSequence st"
  shows "\<exists>gs. sku_ExportGenesis st = Ok gs \<and> SkuGenesis_Validate E gs = Ok () \<and>
     sku_InitGenesis E (sku_empty (sku_authority st)) gs = Ok (st\<lparr>sku_events := []\<rparr>)"
  using sku_Export_Init [OF assms(2,3)] sdk_laws.Export_valid [OF assms] by blast

theorem sku_genesis_roundtrip_witness:
  "\<exists>gs. sku_ExportGenesis sample_sku_state = Ok gs \<and> SkuGenesis_Validate ref_sdk gs = Ok () \<and>
     sku_InitGenesis ref_sdk (sku_empty (sku_authority sample_sku_state)) gs =
       Ok (sample_sku_state\<lparr>sku_events := []\<rparr>)"
  by (rule sku_genesis_roundtrip [OF ref.sdk_laws_axioms sample_sku_inv, of sku_DefaultParams])
    (simp_all add: sample_sku_state_def sku_DefaultParams_def SkuParams_Validate_def)

text \<open>
  Claim C33.  A SKU only becomes active (by creation or reactivation) while its
  provider is active.
\<close>

theorem sku_activation_guard:
  assumes "sku_inv E st" and "sku_handle E ctx st m = Ok (st', r)"
    and "kv_get (SKUs st') u = Some s'" and "sku_Active s'"
    and "\<forall>s. kv_get (SKUs st) u = Some s \<longrightarrow> \<not> sku_Active s"
  shows "\<exists>p. kv_get (Providers st') (sku_ProviderUuid s') = Some p \<and> provider_Active p"
proof (cases m)
  case (DeactivateProviderMsg d)
  with assms(2) obtain n hm where "DeactivateProvider E st d = Ok (st', n, hm)" by auto
  from DeactivateProvider_SKUs [OF this assms(1)] assms(3-5) show ?thesis
    by (auto split: if_splits)
qed (use assms in \<open>auto simp: CreateProvider_def UpdateProvider_def CreateSKU_def UpdateSKU_def GetProvider_def
    DeactivateSKU_def GetSKU_def Let_def GenerateProviderUUID_def GenerateSKUUUID_def sku_UpdateParams_def
    sku_SetParams_def dest!: SetProvider_sel(1) split: if_splits\<close>)

definition sample_inactive :: sku_state where
  "sample_inactive = sample_sku_state\<lparr>SKUs := [(sample_suuid, sample_sku\<lparr>sku_Active := False\<rparr>)]\<rparr>"

definition sample_reactivate :: MsgUpdateSKU where
  "sample_reactivate = \<lparr>us_Authority = ''manifest1gov'', us_Uuid = sample_suuid,
     us_ProviderUuid = sample_puuid, us_Name = ''small'', us_Unit = UNIT_PER_HOUR,
     us_BasePrice = \<lparr>Denom = ''umfx'', Amount = 7200\<rparr>, us_MetaHash = [], us_Active = True\<rparr>"

lemma sample_inactive_inv: "sku_inv ref_sdk sample_inactive"
  using sample_sku_inv
  by (simp add: sku_inv_def sample_inactive_def sample_sku_state_def kv_ok_def kv_all_def sku_wf_def
      has_provider_def)

lemma sample_reactivate_valid: "MsgUpdateSKU_Validate ref_sdk sample_reactivate = Ok ()"
proof -
  have "ValidatePriceAndUnit ref_sdk \<lparr>Denom = ''umfx'', Amount = 7200\<rparr> UNIT_PER_HOUR = Ok ()"
    by (subst ref.ValidatePriceAndUnit_iff) (simp_all add: price_ok_def SecondsPerHour_def)
  moreover have "CoinIsValid ref_sdk \<lparr>Denom = ''umfx'', Amount = 7200\<rparr>" by (simp add: ref_sdk_def)
  ultimately show ?thesis
    by (simp add: MsgUpdateSKU_Validate_def sample_reactivate_def valid_uuid MaxSKUNameLength_def)
qed

theorem sku_activation_guard_witness:
  "\<exists>st' s' p. sku_handle ref_sdk sample_ctx sample_inactive (UpdateSKUMsg sample_reactivate) = Ok (st', EmptyResp) \<and>
     kv_get (SKUs st') sample_suuid = Some s' \<and> sku_Active s' \<and>
     kv_get (Providers st') (sku_ProviderUuid s') = Some p \<and> provider_Active p"
proof -
  have "\<exists>st' s'. UpdateSKU ref_sdk sample_inactive sample_reactivate = Ok st' \<and>
      kv_get (SKUs st') sample_suuid = Some s' \<and> sku_Active s'"
    unfolding UpdateSKU_def sample_reactivate_valid
    by (simp add: requireAuthorized_def isAuthorizedSender_def GetSKU_def GetProvider_def sample_inactive_def
        sample_reactivate_def sample_sku_state_def sample_stored_def sample_sku_def kv_get_Cons)
  then obtain st' s' where r: "sku_handle ref_sdk sample_ctx sample_inactive (UpdateSKUMsg sample_reactivate) = Ok (st', EmptyResp)"
    and s': "kv_get (SKUs st') sample_suuid = Some s'" "sku_Active s'" by auto
  have "\<forall>s. kv_get (SKUs sample_inactive) sample_suuid = Some s \<longrightarrow> \<not> sku_Active s"
    by (simp add: sample_inactive_def kv_get_Cons)
  from sku_activation_guard [OF sample_inactive_inv r s' this] r s' show ?thesis by blast
qed

end
