(* ===== verification/Pagination.thy ===== *)
theory Pagination
  imports Prelude
begin

text \<open>
  \<open>pkg/pagination\<close>: pages over a secondary index.  An index iterator is the list of the
  primary keys it yields; the getter of the primary store is a parameter.  The default
  page size is a constant of the SDK and so a parameter, too.
\<close>

record PageRequest =
  pr_Key :: string
  pr_Offset :: u64
  pr_Limit :: u64
  pr_CountTotal :: bool
  pr_Reverse :: bool

record PageResponse =
  NextKey :: string
  Total :: u64

datatype get_error = NotFound | GetFailed

definition emptyPageRequest :: PageRequest where
  "emptyPageRequest = \<lparr>pr_Key = [], pr_Offset = 0, pr_Limit = 0, pr_CountTotal = False, pr_Reverse = False\<rparr>"

definition MatchExactWithOrder :: "string list \<Rightarrow> PageRequest option \<Rightarrow> string list" where
  \<comment> \<open>the iterator over the keys an index has for one reference key\<close>
  "MatchExactWithOrder keys pageReq =
     (case pageReq of None \<Rightarrow> keys | Some r \<Rightarrow> if pr_Reverse r then rev keys else keys)"

record 'v pageState =
  ps_values :: "'v list"
  ps_count :: u64
  ps_total :: u64
  ps_nextKey :: string
  ps_foundStart :: bool
  ps_skipped :: u64

fun paginateLoop ::
  "(string \<Rightarrow> (get_error, 'v) result) \<Rightarrow> ('v \<Rightarrow> bool) option \<Rightarrow> PageRequest \<Rightarrow> u64 \<Rightarrow> 'v pageState \<Rightarrow> string list
   \<Rightarrow> (get_error, 'v pageState) result" where
  "paginateLoop getter flt req limit s [] = Ok s"
| "paginateLoop getter flt req limit s (pk # rest) =
     (if \<not> ps_foundStart s \<and> pr_Key req \<noteq> pk then paginateLoop getter flt req limit s rest
      else
        (let s1 = s\<lparr>ps_foundStart := True\<rparr>
         in case getter pk of
              Panic \<Rightarrow> Panic
            | Err e \<Rightarrow> if e = NotFound then paginateLoop getter flt req limit s1 rest else Err e
            | Ok value \<Rightarrow>
                if (case flt of None \<Rightarrow> False | Some f \<Rightarrow> \<not> f value) then paginateLoop getter flt req limit s1 rest
                else
                  (let s2 = (if pr_CountTotal req then s1\<lparr>ps_total := ps_total s1 + 1\<rparr> else s1)
                   in if pr_Key req = [] \<and> ps_skipped s2 < pr_Offset req
                      then paginateLoop getter flt req limit (s2\<lparr>ps_skipped := ps_skipped s2 + 1\<rparr>) rest
                      else if ps_count s2 \<ge> limit
                      then
                        (let s3 = (if ps_nextKey s2 = [] then s2\<lparr>ps_nextKey := pk\<rparr> else s2)
                         in if \<not> pr_CountTotal req then Ok s3 else paginateLoop getter flt req limit s3 rest)
                      else
                        paginateLoop getter flt req limit
                          (s2\<lparr>ps_values := ps_values s2 @ [value], ps_count := ps_count s2 + 1\<rparr>) rest)))"

definition pageStart :: "PageRequest \<Rightarrow> 'v pageState" where
  "pageStart req = \<lparr>ps_values = [], ps_count = 0, ps_total = 0, ps_nextKey = [],
     ps_foundStart = (pr_Key req = []), ps_skipped = 0\<rparr>"

definition PaginateStringIndex ::
  "u64 \<Rightarrow> string list \<Rightarrow> (string \<Rightarrow> (get_error, 'v) result) \<Rightarrow> PageRequest option \<Rightarrow> ('v \<Rightarrow> bool) option
   \<Rightarrow> (get_error, 'v list \<times> PageResponse) result" where
  "PaginateStringIndex defaultLimit iter getter pageReq flt =
     (let req = (case pageReq of None \<Rightarrow> emptyPageRequest | Some r \<Rightarrow> r);
          limit = (if pr_Limit req = 0 then defaultLimit else pr_Limit req)
      in andThen (paginateLoop getter flt req limit (pageStart req) iter) (\<lambda>s.
         Ok (ps_values s, \<lparr>NextKey = ps_nextKey s, Total = (if pr_CountTotal req then ps_total s else 0)\<rparr>)))"

section \<open>What a page holds\<close>

definition hit :: "(string \<Rightarrow> (get_error, 'v) result) \<Rightarrow> ('v \<Rightarrow> bool) option \<Rightarrow> string \<Rightarrow> 'v option" where
  \<comment> \<open>the value behind a key, when it is there and passes the filter\<close>
  "hit getter flt pk = (case getter pk of Ok v \<Rightarrow> (case flt of None \<Rightarrow> Some v | Some f \<Rightarrow> if f v then Some v else None)
     | _ \<Rightarrow> None)"

fun matches :: "(string \<Rightarrow> (get_error, 'v) result) \<Rightarrow> ('v \<Rightarrow> bool) option \<Rightarrow> string list \<Rightarrow> (string \<times> 'v) list" where
  "matches getter flt [] = []"
| "matches getter flt (pk # ks) =
     (case hit getter flt pk of None \<Rightarrow> matches getter flt ks | Some v \<Rightarrow> (pk, v) # matches getter flt ks)"

definition readable :: "(string \<Rightarrow> (get_error, 'v) result) \<Rightarrow> string list \<Rightarrow> bool" where
  \<comment> \<open>every key of the iterator is non-empty and reads without a storage failure\<close>
  "readable getter ks \<longleftrightarrow> list_all (\<lambda>k. k \<noteq> [] \<and> (isOk (getter k) \<or> getter k = Err NotFound)) ks"

lemma matches_append: "matches g f (as @ bs) = matches g f as @ matches g f bs"
  by (induction as) (auto split: option.splits)

lemma matches_length: "length (matches g f ks) \<le> length ks"
  by (induction ks) (auto split: option.splits)

lemma matches_keys: "set (map fst (matches g f ks)) \<subseteq> set ks"
  by (induction ks) (auto split: option.splits)

definition due_entries :: "PageRequest \<Rightarrow> u64 \<Rightarrow> ('k \<times> 'v) list \<Rightarrow> ('k \<times> 'v) list" where
  "due_entries req skipped es = (if pr_Key req = [] then drop (unat (pr_Offset req) - unat skipped) es else es)"

lemma unat_less_iff: "(x < y) = (unat x < unat y)" for x y :: u64
  by (simp add: word_less_nat_alt)

lemma unat_le_iff: "(x \<le> y) = (unat x \<le> unat y)" for x y :: u64
  by (simp add: word_le_nat_alt)

lemma unat64: "unat (x :: u64) < 2 ^ 64"
  using unsigned_less [where 'b = 64 and 'a = nat, of x] by simp

lemma due_skip:
  assumes "pr_Key req = []" and "skipped < pr_Offset req"
  shows "due_entries req skipped (e # es) = due_entries req (skipped + 1) es"
proof -
  have lt: "unat skipped < unat (pr_Offset req)" using assms(2) by (simp add: unat_less_iff)
  moreover have "unat (pr_Offset req) < 2 ^ 64" by (rule unat64)
  ultimately have "unat (skipped + 1) = unat skipped + 1" by (intro unat_plus1) simp
  with assms lt show ?thesis by (simp add: due_entries_def drop_Cons' Suc_diff_Suc)
qed

lemma due_keep:
  "\<not> (pr_Key req = [] \<and> skipped < pr_Offset req) \<Longrightarrow> due_entries req skipped es = es"
  by (auto simp: due_entries_def unat_less_iff)

definition counted :: "PageRequest \<Rightarrow> 'v pageState \<Rightarrow> 'v pageState" where
  "counted req s = (if pr_CountTotal req then s\<lparr>ps_total := ps_total s + 1\<rparr> else s)"

lemma counted_sel [simp]:
  "ps_foundStart (counted req s) = ps_foundStart s" "ps_values (counted req s) = ps_values s"
  "ps_count (counted req s) = ps_count s" "ps_skipped (counted req s) = ps_skipped s"
  "ps_nextKey (counted req s) = ps_nextKey s"
  "pr_CountTotal req \<Longrightarrow> ps_total (counted req s) = ps_total s + 1"
  by (simp_all add: counted_def)

lemma paginate_step:
  assumes "ps_foundStart s" and "readable g (pk # ks)"
  shows "paginateLoop g f req limit s (pk # ks) =
     (case hit g f pk of
        None \<Rightarrow> paginateLoop g f req limit s ks
      | Some v \<Rightarrow>
          if pr_Key req = [] \<and> ps_skipped s < pr_Offset req
          then paginateLoop g f req limit ((counted req s)\<lparr>ps_skipped := ps_skipped s + 1\<rparr>) ks
          else if ps_count s \<ge> limit
          then (let s3 = (if ps_nextKey s = [] then (counted req s)\<lparr>ps_nextKey := pk\<rparr> else counted req s)
                in if \<not> pr_CountTotal req then Ok s3 else paginateLoop g f req limit s3 ks)
          else paginateLoop g f req limit
                 ((counted req s)\<lparr>ps_values := ps_values s @ [v], ps_count := ps_count s + 1\<rparr>) ks)"
proof -
  obtain vs n tot nk sk where s: "s = \<lparr>ps_values = vs, ps_count = n, ps_total = tot, ps_nextKey = nk,
      ps_foundStart = True, ps_skipped = sk\<rparr>" using assms(1) by (cases s) auto
  show ?thesis
  proof (cases "g pk")
    case (Ok v)
    then show ?thesis by (cases f) (auto simp: s hit_def counted_def Let_def)
  next
    case (Err e)
    with assms(2) show ?thesis by (simp add: s hit_def readable_def)
  next
    case Panic
    with assms(2) show ?thesis by (simp add: readable_def)
  qed
qed

definition page_of :: "PageRequest \<Rightarrow> u64 \<Rightarrow> 'v pageState \<Rightarrow> (string \<times> 'v) list \<Rightarrow> 'v pageState \<Rightarrow> bool" where
  \<comment> \<open>what the loop adds to a state when the entries \<open>es\<close> lie ahead\<close>
  "page_of req limit s es s' \<longleftrightarrow>
     (let n = unat limit - unat (ps_count s); due = due_entries req (ps_skipped s) es
      in ps_values s' = ps_values s @ map snd (take n due) \<and>
         ps_nextKey s' = (if ps_nextKey s \<noteq> [] then ps_nextKey s else (case drop n due of [] \<Rightarrow> [] | e # _ \<Rightarrow> fst e)) \<and>
         (pr_CountTotal req \<longrightarrow> ps_total s' = ps_total s + of_nat (length es)))"

lemma page_of_skip:
  assumes "pr_Key req = []" and "ps_skipped s < pr_Offset req"
    and "page_of req limit ((counted req s)\<lparr>ps_skipped := ps_skipped s + 1\<rparr>) es s'"
  shows "page_of req limit s (e # es) s'"
  using assms(3) by (auto simp: page_of_def Let_def due_skip [OF assms(1,2)] algebra_simps)

lemma page_of_full:
  assumes "\<not> (pr_Key req = [] \<and> ps_skipped s < pr_Offset req)" and "ps_count s \<ge> limit"
    and "page_of req limit (if ps_nextKey s = [] then (counted req s)\<lparr>ps_nextKey := fst e\<rparr> else counted req s) es s'"
    and "fst e \<noteq> []"
  shows "page_of req limit s (e # es) s'"
  using assms(2-) by (auto simp: page_of_def Let_def due_keep [OF assms(1)] unat_le_iff algebra_simps)

lemma page_of_stop:
  assumes "\<not> (pr_Key req = [] \<and> ps_skipped s < pr_Offset req)" and "ps_count s \<ge> limit" and "\<not> pr_CountTotal req"
  shows "page_of req limit s (e # es) (if ps_nextKey s = [] then (counted req s)\<lparr>ps_nextKey := fst e\<rparr> else counted req s)"
  using assms(2,3) by (auto simp: page_of_def Let_def due_keep [OF assms(1)] unat_le_iff)

lemma page_of_take:
  assumes "\<not> (pr_Key req = [] \<and> ps_skipped s < pr_Offset req)" and "\<not> ps_count s \<ge> limit" and "ps_nextKey s = []"
    and "page_of req limit ((counted req s)\<lparr>ps_values := ps_values s @ [snd e], ps_count := ps_count s + 1\<rparr>) es s'"
  shows "page_of req limit s (e # es) s'"
proof -
  have lt: "unat (ps_count s) < unat limit" using assms(2) by (simp add: unat_le_iff not_le)
  with unat64 [of limit] have "unat (ps_count s + 1) = unat (ps_count s) + 1" by (intro unat_plus1) simp
  moreover obtain n where "unat limit - unat (ps_count s) = Suc n" "unat limit - (unat (ps_count s) + 1) = n"
    using lt by (metis Suc_diff_Suc Suc_eq_plus1)
  ultimately show ?thesis
    using assms(3,4) by (auto simp: page_of_def Let_def due_keep [OF assms(1)] algebra_simps)
qed

lemma paginateLoop_law:
  assumes "readable g ks" and "ps_foundStart s" and "ps_nextKey s \<noteq> [] \<longrightarrow> ps_count s \<ge> limit"
  shows "\<exists>s'. paginateLoop g f req limit s ks = Ok s' \<and> page_of req limit s (matches g f ks) s'"
  using assms
proof (induction ks arbitrary: s)
  case Nil
  then show ?case by (simp add: page_of_def due_entries_def)
next
  case (Cons pk ks)
  have rd: "readable g ks" "pk \<noteq> []" using Cons.prems(1) by (simp_all add: readable_def)
  note step = paginate_step [OF Cons.prems(2,1), of f req limit]
  let ?skip = "pr_Key req = [] \<and> ps_skipped s < pr_Offset req" and ?full = "limit \<le> ps_count s"
  show ?case
  proof (cases "hit g f pk")
    case None
    with Cons.IH [OF rd(1) Cons.prems(2,3)] step show ?thesis by simp
  next
    case (Some v)
    consider "?skip" | "\<not> ?skip" "?full" | "\<not> ?skip" "\<not> ?full" by blast
    then show ?thesis
    proof cases
      case 1
      let ?s = "(counted req s)\<lparr>ps_skipped := ps_skipped s + 1\<rparr>"
      have "\<exists>s'. paginateLoop g f req limit ?s ks = Ok s' \<and> page_of req limit ?s (matches g f ks) s'"
        using Cons.prems(2,3) by (intro Cons.IH [OF rd(1)]) simp_all
      with 1 Some step show ?thesis using page_of_skip [of req s limit "matches g f ks" _ "(pk, v)"] by auto
    next
      case 2
      let ?s = "if ps_nextKey s = [] then (counted req s)\<lparr>ps_nextKey := pk\<rparr> else counted req s"
      have "\<exists>s'. paginateLoop g f req limit ?s ks = Ok s' \<and> page_of req limit ?s (matches g f ks) s'"
        using Cons.prems(2) 2 by (intro Cons.IH [OF rd(1)]) simp_all
      with 2 Some step rd(2) show ?thesis
        using page_of_full [OF 2, of "(pk, v)" "matches g f ks"] page_of_stop [OF 2, of "(pk, v)" "matches g f ks"]
        by (cases "pr_CountTotal req") (auto simp: Let_def)
    next
      case 3
      let ?s = "(counted req s)\<lparr>ps_values := ps_values s @ [v], ps_count := ps_count s + 1\<rparr>"
      have nk: "ps_nextKey s = []" using 3 Cons.prems(3) by blast
      have "\<exists>s'. paginateLoop g f req limit ?s ks = Ok s' \<and> page_of req limit ?s (matches g f ks) s'"
        using Cons.prems(2) nk by (intro Cons.IH [OF rd(1)]) simp_all
      with 3 Some step show ?thesis using page_of_take [OF 3 nk, of "(pk, v)" "matches g f ks"] by auto
    qed
  qed
qed

section \<open>Pages and their order\<close>

definition from_cursor :: "string \<Rightarrow> string list \<Rightarrow> string list" where
  "from_cursor k ks = (if k = [] then ks else dropWhile (\<lambda>x. x \<noteq> k) ks)"

lemma loop_find:
  "\<not> ps_foundStart s \<Longrightarrow> paginateLoop g f req limit s ks =
     (case dropWhile (\<lambda>x. x \<noteq> pr_Key req) ks of
        [] \<Rightarrow> Ok s | k # rest \<Rightarrow> paginateLoop g f req limit (s\<lparr>ps_foundStart := True\<rparr>) (k # rest))"
  by (induction ks) auto

lemma readable_drop: "readable g ks \<Longrightarrow> readable g (dropWhile P ks)"
  by (auto simp: readable_def list_all_iff dest: set_dropWhileD)

definition page_limit :: "u64 \<Rightarrow> PageRequest \<Rightarrow> nat" where
  "page_limit dl r = unat (if pr_Limit r = 0 then dl else pr_Limit r)"

definition page_entries ::
  "(string \<Rightarrow> (get_error, 'v) result) \<Rightarrow> ('v \<Rightarrow> bool) option \<Rightarrow> PageRequest \<Rightarrow> string list \<Rightarrow> (string \<times> 'v) list" where
  \<comment> \<open>the entries from the page on: from its cursor, or else past its offset\<close>
  "page_entries g f r ks = (if pr_Key r = [] then drop (unat (pr_Offset r)) (matches g f ks)
     else matches g f (from_cursor (pr_Key r) ks))"

lemma Paginate_law:
  assumes "readable g ks"
  shows "PaginateStringIndex dl ks g (Some r) f = Ok (map snd (take (page_limit dl r) (page_entries g f r ks)),
     \<lparr>NextKey = (case drop (page_limit dl r) (page_entries g f r ks) of [] \<Rightarrow> [] | e # _ \<Rightarrow> fst e),
      Total = (if pr_CountTotal r then of_nat (length (matches g f (from_cursor (pr_Key r) ks))) else 0)\<rparr>)"
proof -
  let ?limit = "if pr_Limit r = 0 then dl else pr_Limit r" and ?ks = "from_cursor (pr_Key r) ks"
  let ?s = "(pageStart r)\<lparr>ps_foundStart := True\<rparr> :: 'a pageState"
  have rd: "readable g ?ks" using assms by (simp add: from_cursor_def readable_drop)
  have loop: "\<exists>s'. paginateLoop g f r ?limit ?s ?ks = Ok s' \<and> page_of r ?limit ?s (matches g f ?ks) s'"
    by (rule paginateLoop_law [OF rd]) (simp_all add: pageStart_def)
  have skip: "due_entries r 0 (matches g f ?ks) = page_entries g f r ks"
    by (simp add: due_entries_def page_entries_def from_cursor_def)
  have "\<exists>s'. paginateLoop g f r ?limit (pageStart r) ks = Ok s' \<and> page_of r ?limit ?s (matches g f ?ks) s'"
  proof (cases "pr_Key r = []")
    case True
    then have "(pageStart r :: 'a pageState) = ?s" by (simp add: pageStart_def)
    with loop True show ?thesis by (simp add: from_cursor_def)
  next
    case False
    then have find: "paginateLoop g f r ?limit (pageStart r) ks =
        (case ?ks of [] \<Rightarrow> Ok (pageStart r) | k # rest \<Rightarrow> paginateLoop g f r ?limit ?s (k # rest))"
      by (subst loop_find) (simp_all add: pageStart_def from_cursor_def)
    show ?thesis
    proof (cases ?ks)
      case Nil
      with find show ?thesis by (simp add: page_of_def due_entries_def pageStart_def)
    next
      case (Cons k rest)
      with find loop show ?thesis by simp
    qed
  qed
  then show ?thesis
    by (auto simp: PaginateStringIndex_def page_of_def Let_def page_limit_def skip [symmetric] pageStart_def)
qed

lemma cursor_drop:
  assumes "distinct ks" and "n < length (matches g f ks)"
  shows "matches g f (dropWhile (\<lambda>x. x \<noteq> fst (matches g f ks ! n)) ks) = drop n (matches g f ks)"
  using assms
proof (induction ks arbitrary: n)
  case (Cons pk ks)
  have key: "fst (matches g f ks ! m) \<in> set ks" if "m < length (matches g f ks)" for m
    using matches_keys [of g f ks] that by (auto dest!: nth_mem)
  show ?case
  proof (cases "hit g f pk")
    case None
    with Cons.prems key [of n] have "fst (matches g f ks ! n) \<noteq> pk" by auto
    with None Cons show ?thesis by auto
  next
    case (Some v)
    show ?thesis
    proof (cases n)
      case (Suc m)
      with Some Cons.prems key [of m] have "fst (matches g f ks ! m) \<noteq> pk" by auto
      with Some Suc Cons show ?thesis by auto
    qed (simp add: Some)
  qed
qed simp

lemma dropWhile_suffix:
  assumes "distinct ks" and "k' \<in> set (dropWhile P ks)"
  shows "dropWhile (\<lambda>x. x \<noteq> k') ks = dropWhile (\<lambda>x. x \<noteq> k') (dropWhile P ks)"
proof -
  have "distinct (takeWhile P ks @ dropWhile P ks)" using assms(1) by simp
  then have "\<forall>x \<in> set (takeWhile P ks). x \<noteq> k'" using assms(2) by (auto simp del: takeWhile_dropWhile_id)
  then have "dropWhile (\<lambda>x. x \<noteq> k') (takeWhile P ks @ dropWhile P ks) = dropWhile (\<lambda>x. x \<noteq> k') (dropWhile P ks)"
    by (intro dropWhile_append2) auto
  then show ?thesis by simp
qed

lemma next_cursor:
  assumes "distinct ks" and "n < length (matches g f (from_cursor k ks))" and "readable g ks"
  defines "es \<equiv> matches g f (from_cursor k ks)"
  shows "matches g f (from_cursor (fst (es ! n)) ks) = drop n es" and "fst (es ! n) \<noteq> []"
proof -
  have d: "distinct (from_cursor k ks)" using assms(1) by (simp add: from_cursor_def)
  have mem: "fst (es ! n) \<in> set (from_cursor k ks)"
    using matches_keys [of g f "from_cursor k ks"] assms(2) by (auto simp: es_def dest!: nth_mem)
  then show ne: "fst (es ! n) \<noteq> []"
    using assms(3) by (auto simp: readable_def list_all_iff from_cursor_def split: if_split_asm dest: set_dropWhileD)
  have "from_cursor (fst (es ! n)) ks = dropWhile (\<lambda>x. x \<noteq> fst (es ! n)) (from_cursor k ks)"
    using mem ne dropWhile_suffix [OF assms(1)] by (auto simp: from_cursor_def)
  then show "matches g f (from_cursor (fst (es ! n)) ks) = drop n es"
    using cursor_drop [OF d assms(2)] by (simp add: es_def)
qed

fun all_pages ::
  "nat \<Rightarrow> u64 \<Rightarrow> string list \<Rightarrow> (string \<Rightarrow> (get_error, 'v) result) \<Rightarrow> ('v \<Rightarrow> bool) option \<Rightarrow> PageRequest \<Rightarrow> 'v list option" where
  \<comment> \<open>a client that follows the next key, at most so many times\<close>
  "all_pages 0 dl ks g f r = None"
| "all_pages (Suc fuel) dl ks g f r =
     (case PaginateStringIndex dl ks g (Some r) f of
        Ok (vs, res) \<Rightarrow>
          if NextKey res = [] then Some vs
          else map_option (append vs) (all_pages fuel dl ks g f (r\<lparr>pr_Key := NextKey res\<rparr>))
      | _ \<Rightarrow> None)"

lemma all_pages_cursor:
  assumes "distinct ks" and "readable g ks" and "0 < dl" and "length (page_entries g f r ks) < fuel"
  shows "all_pages fuel dl ks g f r = Some (map snd (page_entries g f r ks))"
  using assms(4)
proof (induction fuel arbitrary: r)
  case (Suc fuel)
  let ?es = "page_entries g f r ks" and ?n = "page_limit dl r"
  have pos: "0 < ?n" using assms(3) by (auto simp: page_limit_def unat_gt_0)
  note page = Paginate_law [OF assms(2), of dl r f]
  show ?case
  proof (cases "?n < length ?es")
    case False
    with page show ?thesis by simp
  next
    case True
    let ?k = "fst (?es ! ?n)"
    obtain m where m: "?es = drop m (matches g f (from_cursor (pr_Key r) ks))"
      "m = (if pr_Key r = [] then unat (pr_Offset r) else 0)"
      by (simp add: page_entries_def from_cursor_def)
    then have at: "?es ! ?n = matches g f (from_cursor (pr_Key r) ks) ! (m + ?n)"
      and lt: "m + ?n < length (matches g f (from_cursor (pr_Key r) ks))" using True by auto
    note nx = next_cursor [OF assms(1) lt assms(2), folded at]
    have "drop ?n ?es = drop (m + ?n) (matches g f (from_cursor (pr_Key r) ks))" by (subst m(1)) (simp add: add.commute)
    with nx have rest: "page_entries g f (r\<lparr>pr_Key := ?k\<rparr>) ks = drop ?n ?es"
      by (subst page_entries_def) simp
    have "all_pages fuel dl ks g f (r\<lparr>pr_Key := ?k\<rparr>) = Some (map snd (drop ?n ?es))"
      using Suc.IH [of "r\<lparr>pr_Key := ?k\<rparr>"] Suc.prems pos True by (simp add: rest)
    moreover have "(case drop ?n ?es of [] \<Rightarrow> [] | e # _ \<Rightarrow> fst e) = ?k"
      using True by (simp add: Cons_nth_drop_Suc [symmetric])
    ultimately show ?thesis
      using page nx(2) by (simp flip: map_append)
  qed
qed simp

text \<open>
  Claim C21.  Following the next key of each page visits every matching entry of an index
  exactly once, in index order, and comes to an end: as many pages as there are entries,
  plus one, always suffice.
\<close>

theorem paging_visits_all:
  assumes "distinct ks" and "readable getter ks" and "0 < dl" and "pr_Key r = []" and "pr_Offset r = 0"
    and "length ks < fuel"
  shows "all_pages fuel dl ks getter flt r = Some (map snd (matches getter flt ks))"
  using all_pages_cursor [OF assms(1-3), of flt r fuel] matches_length [of getter flt ks] assms(4-6)
  by (simp add: page_entries_def)

definition sample_getter :: "string \<Rightarrow> (get_error, nat) result" where
  "sample_getter k = (if k = ''b'' then Err NotFound else Ok (length k))"

definition sample_page :: PageRequest where
  "sample_page = emptyPageRequest\<lparr>pr_Limit := 1\<rparr>"

theorem paging_visits_all_witness:
  "all_pages 5 100 [''a'', ''b'', ''cc'', ''ddd''] sample_getter (Some odd) sample_page = Some [1, 3]"
  by (subst paging_visits_all)
    (simp_all add: readable_def sample_getter_def sample_page_def emptyPageRequest_def hit_def)

text \<open>
  Claim C22.  A page holds the matching entries from its cursor (or past its offset) up to
  its limit, names the first entry after them as the next key, and reports, when asked,
  how many entries match from the cursor on; entries the primary store no longer has are
  skipped.
\<close>

theorem paginate_page:
  assumes "readable getter ks"
  shows "PaginateStringIndex dl ks getter (Some r) flt =
     Ok (map snd (take (page_limit dl r) (page_entries getter flt r ks)),
       \<lparr>NextKey = (case drop (page_limit dl r) (page_entries getter flt r ks) of [] \<Rightarrow> [] | e # _ \<Rightarrow> fst e),
        Total = (if pr_CountTotal r then of_nat (length (matches getter flt (from_cursor (pr_Key r) ks))) else 0)\<rparr>)"
  using assms by (rule Paginate_law)

theorem paginate_page_witness:
  "PaginateStringIndex 100 [''a'', ''b'', ''cc''] sample_getter (Some (sample_page\<lparr>pr_CountTotal := True\<rparr>)) None =
     Ok ([1], \<lparr>NextKey = ''cc'', Total = 2\<rparr>)"
  by (subst paginate_page)
    (simp_all add: readable_def sample_getter_def sample_page_def emptyPageRequest_def hit_def page_entries_def
      page_limit_def from_cursor_def)

text \<open>
  A cursor that has left the index between two pages ends the listing silently:
  when the entry the client was told to continue at is no longer among the keys, the next
  page is empty and carries no next key, although later entries may remain.
\<close>

lemma lost_cursor_ends_listing:
  assumes "pr_Key r \<noteq> []" and "pr_Key r \<notin> set ks"
  shows "PaginateStringIndex dl ks getter (Some r) flt = Ok ([], \<lparr>NextKey = [], Total = 0\<rparr>)"
proof -
  have none: "dropWhile (\<lambda>x. x \<noteq> pr_Key r) ks = []" using assms(2) by (auto simp: dropWhile_eq_Nil_conv)
  have "\<not> ps_foundStart (pageStart r :: 'a pageState)" using assms(1) by (simp add: pageStart_def)
  then have "paginateLoop getter flt r limit (pageStart r) ks = Ok (pageStart r)" for limit
    by (subst loop_find) (simp_all add: none del: dropWhile_eq_Nil_conv)
  then show ?thesis by (simp add: PaginateStringIndex_def Let_def) (simp add: pageStart_def)
qed

section \<open>Queries over the entries of a store\<close>

text \<open>The codes a query answers with (\<open>google.golang.org/grpc/codes\<close>).\<close>

datatype status = InvalidArgument | StatusNotFound | Internal

definition storeGet :: "('k, 'v) kv \<Rightarrow> 'k \<Rightarrow> (get_error, 'v) result" where
  \<comment> \<open>the \<open>Get\<close> of a \<open>collections.Map\<close>\<close>
  "storeGet m k = okOr (kv_get m k) NotFound"

definition passes :: "('v \<Rightarrow> bool) option \<Rightarrow> 'v \<Rightarrow> bool" where
  "passes flt v \<longleftrightarrow> (case flt of None \<Rightarrow> True | Some f \<Rightarrow> f v)"

definition ordered :: "PageRequest option \<Rightarrow> 'e list \<Rightarrow> 'e list" where
  "ordered r es = (case r of None \<Rightarrow> es | Some q \<Rightarrow> if pr_Reverse q then rev es else es)"

definition page_list ::
  "u64 \<Rightarrow> ('v \<Rightarrow> bool) option \<Rightarrow> PageRequest option \<Rightarrow> (string \<times> 'v) list \<Rightarrow> 'v list \<times> PageResponse" where
  \<comment> \<open>the page of a list of entries: those that pass the filter, from the cursor or past the offset\<close>
  "page_list dl flt pageReq es =
     (let r = (case pageReq of None \<Rightarrow> emptyPageRequest | Some r \<Rightarrow> r); P = (\<lambda>e. passes flt (snd e));
          es' = ordered pageReq es;
          all = (if pr_Key r = [] then filter P es' else filter P (dropWhile (\<lambda>e. fst e \<noteq> pr_Key r) es'));
          due = (if pr_Key r = [] then drop (unat (pr_Offset r)) all else all); n = page_limit dl r
      in (map snd (take n due),
          \<lparr>NextKey = (case drop n due of [] \<Rightarrow> [] | e # _ \<Rightarrow> fst e),
           Total = (if pr_CountTotal r then of_nat (length all) else 0)\<rparr>))"

lemma matches_entries:
  "\<forall>e \<in> set es. g (fst e) = Ok (snd e) \<Longrightarrow> matches g flt (map fst es) = filter (\<lambda>e. passes flt (snd e)) es"
  by (induction es) (auto simp: hit_def passes_def split: option.splits)

lemma from_cursor_entries:
  "k \<noteq> [] \<Longrightarrow> from_cursor k (map fst es) = map fst (dropWhile (\<lambda>e. fst e \<noteq> k) es)"
  by (simp add: from_cursor_def dropWhile_map comp_def)

lemma Paginate_entries:
  assumes g: "\<forall>e \<in> set es. g (fst e) = Ok (snd e)" and ne: "\<forall>e \<in> set es. fst e \<noteq> []"
  shows "PaginateStringIndex dl (MatchExactWithOrder (map fst es) pageReq) g pageReq flt = Ok (page_list dl flt pageReq es)"
proof -
  define r where "r = (case pageReq of None \<Rightarrow> emptyPageRequest | Some r \<Rightarrow> r)"
  let ?es = "ordered pageReq es"
  have req: "PaginateStringIndex dl ks g pageReq flt = PaginateStringIndex dl ks g (Some r) flt" for ks
    by (simp add: PaginateStringIndex_def r_def split: option.splits)
  have ks: "MatchExactWithOrder (map fst es) pageReq = map fst ?es"
    by (auto simp: MatchExactWithOrder_def ordered_def rev_map split: option.splits)
  have g': "\<forall>e \<in> set ?es. g (fst e) = Ok (snd e)" and "readable g (map fst ?es)"
    using g ne by (auto simp: ordered_def readable_def list_all_iff split: option.splits)
  note law = Paginate_law [OF this(2), of dl r flt]
  have cur: "matches g flt (from_cursor (pr_Key r) (map fst ?es)) =
      filter (\<lambda>e. passes flt (snd e)) (if pr_Key r = [] then ?es else dropWhile (\<lambda>e. fst e \<noteq> pr_Key r) ?es)"
  proof (cases "pr_Key r = []")
    case True
    then show ?thesis using matches_entries [OF g'] by (simp add: from_cursor_def)
  next
    case False
    have "\<forall>e \<in> set (dropWhile (\<lambda>e. fst e \<noteq> pr_Key r) ?es). g (fst e) = Ok (snd e)"
      using g' by (auto dest: set_dropWhileD)
    from matches_entries [OF this] False show ?thesis by (simp add: from_cursor_entries)
  qed
  show ?thesis
    using law cur by (auto simp: req ks page_list_def Let_def r_def [symmetric] page_entries_def from_cursor_def)
qed

lemma index_page:
  fixes m :: "(string, 'v) kv"
  assumes "kv_ok m" and "kv_get m [] = None"
  shows "PaginateStringIndex dl (MatchExactWithOrder (map fst (filter (\<lambda>e. p (snd e)) m)) pageReq) (storeGet m) pageReq flt =
     Ok (page_list dl flt pageReq (filter (\<lambda>e. p (snd e)) m))"
proof (rule Paginate_entries)
  have "kv_get m (fst e) = Some (snd e)" if "e \<in> set m" for e using kv_get_eq_Some [OF assms(1)] that by simp
  then show "\<forall>e \<in> set (filter (\<lambda>e. p (snd e)) m). storeGet m (fst e) = Ok (snd e)" by (simp add: storeGet_def)
  show "\<forall>e \<in> set (filter (\<lambda>e. p (snd e)) m). fst e \<noteq> []" using assms(2) by (force simp: kv_get_None)
qed

end
