(* ===== verification/Sku_Queries.thy ===== *)
theory Sku_Queries
  imports Sku_Keeper Pagination
begin

text \<open>
  The query service of \<open>x/sku\<close> (\<open>querier.go\<close>).  A request is \<open>None\<close> when the caller
  passes nil.  \<open>query.CollectionPaginate\<close> of the SDK is a parameter \<open>cp\<close> of the queries
  that use it.
\<close>

section \<open>Indexes and requests\<close>

definition ProvidersActiveIndex :: "sku_state \<Rightarrow> bool \<Rightarrow> string list" where
  "ProvidersActiveIndex st b = map fst (filter (\<lambda>e. provider_Active (snd e) = b) (Providers st))"

definition ProvidersAddressIndex :: "'x sdk \<Rightarrow> sku_state \<Rightarrow> addr \<Rightarrow> string list" where
  "ProvidersAddressIndex E st a =
     map fst (filter (\<lambda>e. AccAddressFromBech32 E (Address (snd e)) = Some a) (Providers st))"

record QueryProvidersRequest =
  qps_Pagination :: "PageRequest option"
  qps_ActiveOnly :: bool

record QuerySKUsByProviderRequest =
  qsp_ProviderUuid :: string
  qsp_Pagination :: "PageRequest option"
  qsp_ActiveOnly :: bool

record QueryProviderByAddressRequest =
  qpa_Address :: string
  qpa_Pagination :: "PageRequest option"
  qpa_ActiveOnly :: bool

type_synonym 'v collection_paginate =
  "(string, 'v) kv \<Rightarrow> PageRequest option \<Rightarrow> (get_error, 'v list \<times> PageResponse) result"

section \<open>Queries\<close>

definition sku_Query_Params :: "sku_state \<Rightarrow> unit option \<Rightarrow> (status, SkuParams) result" where
  "sku_Query_Params st req =
     (if req = None then Err InvalidArgument else orErr (sku_GetParams st) Internal)"

definition Query_Provider :: "sku_state \<Rightarrow> string option \<Rightarrow> (status, Provider) result" where
  \<comment> \<open>the request carries the UUID\<close>
  "Query_Provider st req =
     (case req of
        None \<Rightarrow> Err InvalidArgument
      | Some uuid \<Rightarrow> if uuid = [] then Err InvalidArgument else orErr (GetProvider st uuid) StatusNotFound)"

definition Query_Providers ::
  "u64 \<Rightarrow> Provider collection_paginate \<Rightarrow> sku_state \<Rightarrow> QueryProvidersRequest option
   \<Rightarrow> (status, Provider list \<times> PageResponse) result" where
  "Query_Providers dl cp st req =
     (case req of
        None \<Rightarrow> Err InvalidArgument
      | Some q \<Rightarrow>
          if qps_ActiveOnly q
          then orErr (PaginateStringIndex dl (MatchExactWithOrder (ProvidersActiveIndex st True) (qps_Pagination q))
                 (storeGet (Providers st)) (qps_Pagination q) None) Internal
          else orErr (cp (Providers st) (qps_Pagination q)) Internal)"

definition Query_SKU :: "sku_state \<Rightarrow> string option \<Rightarrow> (status, SKU) result" where
  "Query_SKU st req =
     (case req of
        None \<Rightarrow> Err InvalidArgument
      | Some uuid \<Rightarrow> if uuid = [] then Err InvalidArgument else orErr (GetSKU st uuid) StatusNotFound)"

definition Query_SKUs ::
  "u64 \<Rightarrow> SKU collection_paginate \<Rightarrow> sku_state \<Rightarrow> QueryProvidersRequest option
   \<Rightarrow> (status, SKU list \<times> PageResponse) result" where
  \<comment> \<open>the request has the fields of \<open>QueryProvidersRequest\<close>\<close>
  "Query_SKUs dl cp st req =
     (case req of
        None \<Rightarrow> Err InvalidArgument
      | Some q \<Rightarrow>
          if qps_ActiveOnly q
          then orErr (PaginateStringIndex dl (MatchExactWithOrder (SKUsActiveIndex st True) (qps_Pagination q))
                 (storeGet (SKUs st)) (qps_Pagination q) None) Internal
          else orErr (cp (SKUs st) (qps_Pagination q)) Internal)"

definition Query_SKUsByProvider ::
  "u64 \<Rightarrow> sku_state \<Rightarrow> QuerySKUsByProviderRequest option \<Rightarrow> (status, SKU list \<times> PageResponse) result" where
  "Query_SKUsByProvider dl st req =
     (case req of
        None \<Rightarrow> Err InvalidArgument
      | Some q \<Rightarrow>
          if qsp_ProviderUuid q = [] then Err InvalidArgument
          else if qsp_ActiveOnly q
          then orErr (PaginateStringIndex dl
                 (MatchExactWithOrder (SKUsProviderActiveIndex st (qsp_ProviderUuid q) True) (qsp_Pagination q))
                 (storeGet (SKUs st)) (qsp_Pagination q) None) Internal
          else orErr (PaginateStringIndex dl
                 (MatchExactWithOrder (SKUsProviderIndex st (qsp_ProviderUuid q)) (qsp_Pagination q))
                 (storeGet (SKUs st)) (qsp_Pagination q) None) Internal)"

definition Query_ProviderByAddress ::
  "'x sdk \<Rightarrow> u64 \<Rightarrow> sku_state \<Rightarrow> QueryProviderByAddressRequest option
   \<Rightarrow> (status, Provider list \<times> PageResponse) result" where
  "Query_ProviderByAddress E dl st req =
     (case req of
        None \<Rightarrow> Err InvalidArgument
      | Some q \<Rightarrow>
          if qpa_Address q = [] then Err InvalidArgument
          else
            andThen (okOr (AccAddressFromBech32 E (qpa_Address q)) InvalidArgument) (\<lambda>addr.
            let flt = (if qpa_ActiveOnly q then Some provider_Active else None)
            in orErr (PaginateStringIndex dl (MatchExactWithOrder (ProvidersAddressIndex E st addr) (qpa_Pagination q))
                 (storeGet (Providers st)) (qpa_Pagination q) flt) Internal))"

section \<open>What the listings return\<close>

lemma sku_stores_paged:
  assumes "sku_inv E st"
  shows "kv_ok (Providers st)" "kv_get (Providers st) [] = None" "kv_ok (SKUs st)" "kv_get (SKUs st) [] = None"
proof -
  have no: "\<not> IsValidUUIDv7 []" by (simp add: IsValidUUIDv7_def uuidPattern_eq)
  show "kv_ok (Providers st)" "kv_ok (SKUs st)" using assms by (simp_all add: sku_inv_def)
  show "kv_get (Providers st) [] = None"
  proof (rule ccontr)
    assume "kv_get (Providers st) [] \<noteq> None"
    then obtain p where "kv_get (Providers st) [] = Some p" by blast
    then have "provider_wf E [] p" using assms by (auto simp: sku_inv_def dest: kv_all_get)
    with no show False by (auto simp: provider_wf_def)
  qed
  show "kv_get (SKUs st) [] = None"
  proof (rule ccontr)
    assume "kv_get (SKUs st) [] \<noteq> None"
    then obtain s where "kv_get (SKUs st) [] = Some s" by blast
    then have "sku_wf E [] s" using assms by (auto simp: sku_inv_def dest: kv_all_get)
    with no show False by (auto simp: sku_wf_def)
  qed
qed

text \<open>
  Claim C31.  The indexed listings of the catalogue are exact: active providers, active
  SKUs, the SKUs of a provider (all or active) and the providers of an address (all or
  active) are pages of exactly the stored entries with that property, in key order or its
  reverse.
\<close>

theorem sku_listings_exact:
  assumes "sku_inv E st" and "pu \<noteq> []" and "AccAddressFromBech32 E a = Some addr" and "a \<noteq> []"
  shows "Query_Providers dl cp st (Some \<lparr>qps_Pagination = pg, qps_ActiveOnly = True\<rparr>) =
       Ok (page_list dl None pg (filter (\<lambda>e. provider_Active (snd e)) (Providers st))) \<and>
     Query_SKUs dl cs st (Some \<lparr>qps_Pagination = pg, qps_ActiveOnly = True\<rparr>) =
       Ok (page_list dl None pg (filter (\<lambda>e. sku_Active (snd e)) (SKUs st))) \<and>
     Query_SKUsByProvider dl st (Some \<lparr>qsp_ProviderUuid = pu, qsp_Pagination = pg, qsp_ActiveOnly = act\<rparr>) =
       Ok (page_list dl None pg (filter (\<lambda>e. sku_ProviderUuid (snd e) = pu \<and> (act \<longrightarrow> sku_Active (snd e))) (SKUs st))) \<and>
     Query_ProviderByAddress E dl st (Some \<lparr>qpa_Address = a, qpa_Pagination = pg, qpa_ActiveOnly = act\<rparr>) =
       Ok (page_list dl (if act then Some provider_Active else None) pg
         (filter (\<lambda>e. AccAddressFromBech32 E (Address (snd e)) = Some addr) (Providers st)))"
proof -
  note st = sku_stores_paged [OF assms(1)]
  note prov = index_page [OF st(1,2)] and sku = index_page [OF st(3,4)]
  show ?thesis
    using prov [of dl "\<lambda>p. provider_Active p"] sku [of dl "\<lambda>s. sku_Active s"]
      sku [of dl "\<lambda>s. sku_ProviderUuid s = pu \<and> sku_Active s"] sku [of dl "\<lambda>s. sku_ProviderUuid s = pu"]
      prov [of dl "\<lambda>p. AccAddressFromBech32 E (Address p) = Some addr"] assms(2-4)
    by (simp add: Query_Providers_def Query_SKUs_def Query_SKUsByProvider_def Query_ProviderByAddress_def
        ProvidersActiveIndex_def SKUsActiveIndex_def SKUsProviderActiveIndex_def SKUsProviderIndex_def
        ProvidersAddressIndex_def)
qed

theorem sku_listings_exact_witness:
  "Query_SKUsByProvider 100 sample_sku_state
     (Some \<lparr>qsp_ProviderUuid = sample_puuid, qsp_Pagination = None, qsp_ActiveOnly = True\<rparr>) =
   Ok ([sample_sku], \<lparr>NextKey = [], Total = 0\<rparr>)"
proof -
  have "AccAddressFromBech32 ref_sdk ''manifest1prov'' = Some (bytes_of ''prov'')"
    by (simp add: ref_sdk_def ref_decode_def ref_hrp_def)
  from sku_listings_exact [OF sample_sku_inv _ this, of sample_puuid 100 _ None _ True]
  have "Query_SKUsByProvider 100 sample_sku_state
     (Some \<lparr>qsp_ProviderUuid = sample_puuid, qsp_Pagination = None, qsp_ActiveOnly = True\<rparr>) =
     Ok (page_list 100 None None (filter (\<lambda>e. sku_ProviderUuid (snd e) = sample_puuid \<and> sku_Active (snd e)) (SKUs sample_sku_state)))"
    by (simp add: sample_puuid_def)
  then show ?thesis
    by (simp add: sample_sku_state_def sample_sku_def page_list_def passes_def ordered_def emptyPageRequest_def page_limit_def)
qed

end
