(* ===== verification/Billing_Types.thy ===== *)
theory Billing_Types
  imports Sku_Keeper Dns
begin

text \<open>
  \<open>x/billing/types\<close>: leases, credit accounts, parameters, the messages and their
  stateless validation.
\<close>

section \<open>Errors and constants (errors.go, keys.go)\<close>

datatype billing_error =
    ErrInvalidParams | ErrLeaseNotFound | ErrLeaseNotActive | ErrInsufficientCredit
  | ErrMaxLeasesReached | ErrUnauthorized | ErrCreditAccountNotFound | ErrInvalidLease
  | ErrSKUNotFound | ErrSKUNotActive | ErrProviderNotFound | ErrProviderNotActive
  | ErrMixedProviders | ErrNoWithdrawableAmount | ErrEmptyLeaseItems | ErrInvalidQuantity
  | ErrDuplicateSKU | ErrInvalidCreditOperation | ErrTooManyLeaseItems | ErrLeaseNotPending
  | ErrMaxPendingLeasesReached | ErrInvalidRejectionReason | ErrInvalidRequest
  | ErrInvalidClosureReason | ErrInvalidMetaHash | ErrInvalidServiceName
  | ErrInvalidCustomDomain | ErrCustomDomainAlreadyClaimed | ErrLeaseNotEditable
  | ErrLeaseItemNotFound | ErrAmbiguousLeaseItem
  | ErrStore \<comment> \<open>an error of the storage layer\<close>
  | ErrBank \<comment> \<open>an error of the bank keeper\<close>
  | ErrPlain \<comment> \<open>an unregistered error (\<open>fmt.Errorf\<close>, \<open>errors.New\<close>)\<close>

definition MaxItemsPerLeaseHardLimit :: nat where "MaxItemsPerLeaseHardLimit = 100"
definition MaxQuantityPerItem :: u64 where "MaxQuantityPerItem = 1000000000"
definition MaxRejectionReasonLength :: nat where "MaxRejectionReasonLength = 256"
definition MaxClosureReasonLength :: nat where "MaxClosureReasonLength = 256"
definition MaxMetaHashLength :: nat where "MaxMetaHashLength = 64"
definition MaxBatchLeaseSize :: nat where "MaxBatchLeaseSize = 100"
definition DefaultProviderWithdrawLimit :: u64 where "DefaultProviderWithdrawLimit = 50"
definition MaxPendingLeaseExpirationsPerBlock :: nat where "MaxPendingLeaseExpirationsPerBlock = 100"
definition MaxCreditEstimateLeases :: nat where "MaxCreditEstimateLeases = 100"
definition CreditAccountAddressPrefix :: string where "CreditAccountAddressPrefix = ''billing/credit/''"
definition ModuleName :: string where "ModuleName = ''billing''"

section \<open>Data\<close>

datatype LeaseState =
    LEASE_STATE_UNSPECIFIED | LEASE_STATE_PENDING | LEASE_STATE_ACTIVE
  | LEASE_STATE_CLOSED | LEASE_STATE_REJECTED | LEASE_STATE_EXPIRED
  | LEASE_STATE_OTHER int

record LeaseItem =
  SkuUuid :: string
  Quantity :: u64
  LockedPrice :: coin
  ServiceName :: string
  CustomDomain :: string

record Lease =
  lease_Uuid :: string
  Tenant :: string
  lease_ProviderUuid :: string
  Items :: "LeaseItem list"
  State :: LeaseState
  CreatedAt :: time
  ClosedAt :: "time option"
  LastSettledAt :: time
  AcknowledgedAt :: "time option"
  RejectedAt :: "time option"
  RejectionReason :: string
  ExpiredAt :: "time option"
  ClosureReason :: string
  lease_MetaHash :: "byte list"
  MinLeaseDurationAtCreation :: u64

record CreditAccount =
  ca_Tenant :: string
  CreditAddress :: string
  ActiveLeaseCount :: u64
  PendingLeaseCount :: u64
  ReservedAmounts :: coins

record CustomDomainTarget =
  tgt_LeaseUuid :: string
  tgt_ServiceName :: string

record Params =
  MaxLeasesPerTenant :: u64
  AllowedList :: "string list"
  MaxItemsPerLease :: u64
  MinLeaseDuration :: u64
  MaxPendingLeasesPerTenant :: u64
  PendingTimeout :: u64
  ReservedDomainSuffixes :: "string list"

record LeaseItemInput =
  in_SkuUuid :: string
  in_Quantity :: u64
  in_ServiceName :: string

section \<open>Parameters (params.go)\<close>

definition MinPendingTimeout :: u64 where "MinPendingTimeout = 60"
definition MaxPendingTimeout :: u64 where "MaxPendingTimeout = 86400"
definition MaxLeasesPerTenantUpperBound :: u64 where "MaxLeasesPerTenantUpperBound = 10000"
definition MaxPendingLeasesPerTenantUpperBound :: u64 where "MaxPendingLeasesPerTenantUpperBound = 1000"
definition MaxMinLeaseDuration :: u64 where "MaxMinLeaseDuration = 30 * 24 * 3600"

definition DefaultParams :: Params where
  "DefaultParams = \<lparr>MaxLeasesPerTenant = 100, AllowedList = [], MaxItemsPerLease = 20,
     MinLeaseDuration = 3600, MaxPendingLeasesPerTenant = 10, PendingTimeout = 1800,
     ReservedDomainSuffixes = []\<rparr>"

definition NewParams :: "u64 \<Rightarrow> string list \<Rightarrow> u64 \<Rightarrow> u64 \<Rightarrow> u64 \<Rightarrow> u64 \<Rightarrow> Params" where
  "NewParams maxLeases allowed maxItems minDuration maxPending timeout =
     \<lparr>MaxLeasesPerTenant = maxLeases, AllowedList = allowed, MaxItemsPerLease = maxItems,
      MinLeaseDuration = minDuration, MaxPendingLeasesPerTenant = maxPending,
      PendingTimeout = timeout, ReservedDomainSuffixes = []\<rparr>"

fun reservedSuffixLoop :: "string set \<Rightarrow> string list \<Rightarrow> billing_error checked" where
  "reservedSuffixLoop seen [] = Ok ()"
| "reservedSuffixLoop seen (s # ss) =
     (if length s < 2 \<or> hd s \<noteq> CHR ''.'' then Err ErrInvalidParams
      else if IsValidFQDN (tl s) \<noteq> Ok () then Err ErrInvalidParams
      else if s \<in> seen then Err ErrInvalidParams
      else reservedSuffixLoop (insert s seen) ss)"

definition Params_Validate :: "'x sdk \<Rightarrow> Params \<Rightarrow> billing_error checked" where
  "Params_Validate E p =
     (if MaxLeasesPerTenant p = 0 then Err ErrInvalidParams
      else if MaxLeasesPerTenant p > MaxLeasesPerTenantUpperBound then Err ErrInvalidParams
      else if MaxItemsPerLease p = 0 then Err ErrInvalidParams
      else if MaxItemsPerLease p > of_nat MaxItemsPerLeaseHardLimit then Err ErrInvalidParams
      else if MinLeaseDuration p = 0 then Err ErrInvalidParams
      else if MinLeaseDuration p > MaxMinLeaseDuration then Err ErrInvalidParams
      else if MaxPendingLeasesPerTenant p = 0 then Err ErrInvalidParams
      else if MaxPendingLeasesPerTenant p > MaxPendingLeasesPerTenantUpperBound then Err ErrInvalidParams
      else if PendingTimeout p < MinPendingTimeout then Err ErrInvalidParams
      else if PendingTimeout p > MaxPendingTimeout then Err ErrInvalidParams
      else
        andThen (allowedListLoop E ErrInvalidParams {} (AllowedList p)) (\<lambda>_.
        reservedSuffixLoop {} (ReservedDomainSuffixes p)))"

definition IsAllowed :: "Params \<Rightarrow> string \<Rightarrow> bool" where
  "IsAllowed p addr \<longleftrightarrow> addr \<in> set (AllowedList p)"

section \<open>Messages and their validation (msgs.go)\<close>

record MsgFundCredit =
  fc_Sender :: string
  fc_Tenant :: string
  fc_Amount :: coin

record MsgCreateLease =
  cl_Tenant :: string
  cl_Items :: "LeaseItemInput list"
  cl_MetaHash :: "byte list"

record MsgCreateLeaseForTenant =
  clt_Authority :: string
  clt_Tenant :: string
  clt_Items :: "LeaseItemInput list"
  clt_MetaHash :: "byte list"

record MsgCloseLease =
  close_Sender :: string
  close_LeaseUuids :: "string list"
  close_Reason :: string

record MsgWithdraw =
  w_Sender :: string
  w_LeaseUuids :: "string list"
  w_ProviderUuid :: string
  w_Limit :: u64

record MsgUpdateParams =
  upd_Authority :: string
  upd_Params :: Params

record MsgAcknowledgeLease =
  ack_Sender :: string
  ack_LeaseUuids :: "string list"

record MsgRejectLease =
  rej_Sender :: string
  rej_LeaseUuids :: "string list"
  rej_Reason :: string

record MsgCancelLease =
  can_Tenant :: string
  can_LeaseUuids :: "string list"

record MsgSetItemCustomDomain =
  scd_Sender :: string
  scd_LeaseUuid :: string
  scd_ServiceName :: string
  scd_CustomDomain :: string

fun itemFieldsLoop :: "nat \<Rightarrow> LeaseItemInput list \<Rightarrow> (billing_error, nat) result" where
  \<comment> \<open>the first pass of \<open>ValidateLeaseItems\<close>, counting the service names\<close>
  "itemFieldsLoop hasServiceName [] = Ok hasServiceName"
| "itemFieldsLoop hasServiceName (item # items) =
     (if in_SkuUuid item = [] then Err ErrInvalidLease
      else if \<not> IsValidUUID (in_SkuUuid item) then Err ErrInvalidLease
      else if in_Quantity item = 0 then Err ErrInvalidQuantity
      else if in_Quantity item > MaxQuantityPerItem then Err ErrInvalidQuantity
      else itemFieldsLoop (if in_ServiceName item \<noteq> [] then hasServiceName + 1 else hasServiceName) items)"

fun seenNamesLoop :: "string set \<Rightarrow> LeaseItemInput list \<Rightarrow> billing_error checked" where
  "seenNamesLoop seen [] = Ok ()"
| "seenNamesLoop seen (item # items) =
     (if \<not> IsValidDNSLabel (in_ServiceName item) then Err ErrInvalidServiceName
      else if in_ServiceName item \<in> seen then Err ErrInvalidServiceName
      else seenNamesLoop (insert (in_ServiceName item) seen) items)"

fun seenSKUsLoop :: "string set \<Rightarrow> LeaseItemInput list \<Rightarrow> billing_error checked" where
  "seenSKUsLoop seen [] = Ok ()"
| "seenSKUsLoop seen (item # items) =
     (if in_SkuUuid item \<in> seen then Err ErrDuplicateSKU
      else seenSKUsLoop (insert (in_SkuUuid item) seen) items)"

definition ValidateLeaseItems :: "LeaseItemInput list \<Rightarrow> billing_error checked" where
  "ValidateLeaseItems items =
     (if items = [] then Err ErrEmptyLeaseItems
      else if length items > MaxItemsPerLeaseHardLimit then Err ErrTooManyLeaseItems
      else
        andThen (itemFieldsLoop 0 items) (\<lambda>hasServiceName.
        if hasServiceName > 0 \<and> hasServiceName \<noteq> length items then Err ErrInvalidServiceName
        else if hasServiceName > 0 then seenNamesLoop {} items
        else seenSKUsLoop {} items))"

fun batchUUIDLoop :: "string set \<Rightarrow> string list \<Rightarrow> billing_error checked" where
  "batchUUIDLoop seen [] = Ok ()"
| "batchUUIDLoop seen (uuid # uuids) =
     (if uuid = [] then Err ErrInvalidLease
      else if \<not> IsValidUUID uuid then Err ErrInvalidLease
      else if uuid \<in> seen then Err ErrInvalidLease
      else batchUUIDLoop (insert uuid seen) uuids)"

definition ValidateBatchLeaseUUIDs :: "string list \<Rightarrow> billing_error checked" where
  "ValidateBatchLeaseUUIDs uuids =
     (if uuids = [] then Err ErrInvalidLease
      else if length uuids > MaxBatchLeaseSize then Err ErrInvalidLease
      else batchUUIDLoop {} uuids)"

definition MsgFundCredit_ValidateBasic :: "'x sdk \<Rightarrow> MsgFundCredit \<Rightarrow> billing_error checked" where
  "MsgFundCredit_ValidateBasic E m =
     (if AccAddressFromBech32 E (fc_Sender m) = None then Err ErrInvalidCreditOperation
      else if AccAddressFromBech32 E (fc_Tenant m) = None then Err ErrInvalidCreditOperation
      else if \<not> CoinIsValid E (fc_Amount m) \<or> Amount (fc_Amount m) = 0 then Err ErrInvalidCreditOperation
      else Ok ())"

definition MsgCreateLease_ValidateBasic :: "'x sdk \<Rightarrow> MsgCreateLease \<Rightarrow> billing_error checked" where
  "MsgCreateLease_ValidateBasic E m =
     (if AccAddressFromBech32 E (cl_Tenant m) = None then Err ErrInvalidLease
      else if length (cl_MetaHash m) > MaxMetaHashLength then Err ErrInvalidMetaHash
      else ValidateLeaseItems (cl_Items m))"

definition MsgCreateLeaseForTenant_ValidateBasic ::
  "'x sdk \<Rightarrow> MsgCreateLeaseForTenant \<Rightarrow> billing_error checked" where
  "MsgCreateLeaseForTenant_ValidateBasic E m =
     (if AccAddressFromBech32 E (clt_Authority m) = None then Err ErrUnauthorized
      else if AccAddressFromBech32 E (clt_Tenant m) = None then Err ErrInvalidLease
      else if length (clt_MetaHash m) > MaxMetaHashLength then Err ErrInvalidMetaHash
      else ValidateLeaseItems (clt_Items m))"

definition MsgCloseLease_ValidateBasic :: "'x sdk \<Rightarrow> MsgCloseLease \<Rightarrow> billing_error checked" where
  "MsgCloseLease_ValidateBasic E m =
     (if AccAddressFromBech32 E (close_Sender m) = None then Err ErrInvalidLease
      else
        andThen (ValidateBatchLeaseUUIDs (close_LeaseUuids m)) (\<lambda>_.
        if length (close_Reason m) > MaxClosureReasonLength then Err ErrInvalidClosureReason else Ok ()))"

definition MsgWithdraw_ValidateBasic :: "'x sdk \<Rightarrow> MsgWithdraw \<Rightarrow> billing_error checked" where
  "MsgWithdraw_ValidateBasic E m =
     (if AccAddressFromBech32 E (w_Sender m) = None then Err ErrUnauthorized
      else
        (let hasLeases = (w_LeaseUuids m \<noteq> []); hasProvider = (w_ProviderUuid m \<noteq> [])
         in if hasLeases \<and> hasProvider then Err ErrInvalidRequest
            else if \<not> hasLeases \<and> \<not> hasProvider then Err ErrInvalidRequest
            else if hasLeases then ValidateBatchLeaseUUIDs (w_LeaseUuids m)
            else if \<not> IsValidUUID (w_ProviderUuid m) then Err ErrProviderNotFound
            else if w_Limit m > of_nat MaxBatchLeaseSize then Err ErrInvalidLease
            else Ok ()))"

definition MsgUpdateParams_ValidateBasic :: "'x sdk \<Rightarrow> MsgUpdateParams \<Rightarrow> billing_error checked" where
  "MsgUpdateParams_ValidateBasic E m =
     (if AccAddressFromBech32 E (upd_Authority m) = None then Err ErrUnauthorized
      else Params_Validate E (upd_Params m))"

definition MsgAcknowledgeLease_ValidateBasic :: "'x sdk \<Rightarrow> MsgAcknowledgeLease \<Rightarrow> billing_error checked" where
  "MsgAcknowledgeLease_ValidateBasic E m =
     (if AccAddressFromBech32 E (ack_Sender m) = None then Err ErrUnauthorized
      else ValidateBatchLeaseUUIDs (ack_LeaseUuids m))"

definition MsgRejectLease_ValidateBasic :: "'x sdk \<Rightarrow> MsgRejectLease \<Rightarrow> billing_error checked" where
  "MsgRejectLease_ValidateBasic E m =
     (if AccAddressFromBech32 E (rej_Sender m) = None then Err ErrUnauthorized
      else
        andThen (ValidateBatchLeaseUUIDs (rej_LeaseUuids m)) (\<lambda>_.
        if length (rej_Reason m) > MaxRejectionReasonLength then Err ErrInvalidRejectionReason else Ok ()))"

definition MsgCancelLease_ValidateBasic :: "'x sdk \<Rightarrow> MsgCancelLease \<Rightarrow> billing_error checked" where
  "MsgCancelLease_ValidateBasic E m =
     (if AccAddressFromBech32 E (can_Tenant m) = None then Err ErrInvalidLease
      else ValidateBatchLeaseUUIDs (can_LeaseUuids m))"

definition MsgSetItemCustomDomain_ValidateBasic ::
  "'x sdk \<Rightarrow> MsgSetItemCustomDomain \<Rightarrow> billing_error checked" where
  "MsgSetItemCustomDomain_ValidateBasic E m =
     (if AccAddressFromBech32 E (scd_Sender m) = None then Err ErrUnauthorized
      else if scd_LeaseUuid m = [] then Err ErrInvalidLease
      else if \<not> IsValidUUID (scd_LeaseUuid m) then Err ErrInvalidLease
      else if scd_ServiceName m \<noteq> [] \<and> \<not> IsValidDNSLabel (scd_ServiceName m) then Err ErrInvalidServiceName
      else if scd_CustomDomain m = [] then Ok ()
      else orErr (IsValidFQDN (scd_CustomDomain m)) ErrInvalidCustomDomain)"

section \<open>Properties\<close>

lemma itemFieldsLoop_ok:
  "itemFieldsLoop n items = Ok k \<longleftrightarrow>
     (\<forall>i \<in> set items. IsValidUUID (in_SkuUuid i) \<and> in_Quantity i \<noteq> 0 \<and> in_Quantity i \<le> MaxQuantityPerItem) \<and>
     k = n + length (filter (\<lambda>i. in_ServiceName i \<noteq> []) items)"
  by (induction n items rule: itemFieldsLoop.induct)
    (auto simp: not_less IsValidUUID_def IsValidUUIDv7_def uuidPattern_eq)

lemma seenNamesLoop_ok:
  "seenNamesLoop seen items = Ok () \<longleftrightarrow>
     (\<forall>i \<in> set items. IsValidDNSLabel (in_ServiceName i)) \<and> distinct (map in_ServiceName items) \<and>
     in_ServiceName ` set items \<inter> seen = {}"
  by (induction seen items rule: seenNamesLoop.induct) auto

lemma seenSKUsLoop_ok:
  "seenSKUsLoop seen items = Ok () \<longleftrightarrow>
     distinct (map in_SkuUuid items) \<and> in_SkuUuid ` set items \<inter> seen = {}"
  by (induction seen items rule: seenSKUsLoop.induct) auto

lemma batchUUIDLoop_ok:
  "batchUUIDLoop seen us = Ok () \<longleftrightarrow>
     (\<forall>u \<in> set us. IsValidUUID u) \<and> distinct us \<and> set us \<inter> seen = {}"
  by (induction seen us rule: batchUUIDLoop.induct)
    (auto simp: IsValidUUID_def IsValidUUIDv7_def uuidPattern_eq)

lemma ValidateBatchLeaseUUIDs_ok:
  "ValidateBatchLeaseUUIDs us = Ok () \<longleftrightarrow>
     us \<noteq> [] \<and> length us \<le> MaxBatchLeaseSize \<and> (\<forall>u \<in> set us. IsValidUUID u) \<and> distinct us"
  by (auto simp: ValidateBatchLeaseUUIDs_def batchUUIDLoop_ok)

lemma filter_count_all: "length (filter P xs) = length xs \<longleftrightarrow> (\<forall>x \<in> set xs. P x)"
  by (metis filter_True length_filter_less less_irrefl)

lemma filter_count_none: "length (filter P xs) = 0 \<longleftrightarrow> (\<forall>x \<in> set xs. \<not> P x)"
  by (simp add: filter_empty_conv)

text \<open>
  Claim C40.  The item list of a lease is accepted exactly when it has 1 to 100 items
  with valid SKU identifiers and quantities of 1 to a billion, and either no item
  is named and the SKUs are distinct, or all items carry distinct DNS-label names.
\<close>

theorem ValidateLeaseItems_iff:
  "ValidateLeaseItems items = Ok () \<longleftrightarrow>
     0 < length items \<and> length items \<le> 100 \<and>
     list_all (\<lambda>i. IsValidUUID (in_SkuUuid i) \<and> 0 < unat (in_Quantity i) \<and> unat (in_Quantity i) \<le> 1000000000) items \<and>
     (list_all (\<lambda>i. in_ServiceName i = []) items \<and> distinct (map in_SkuUuid items) \<or>
      list_all (\<lambda>i. IsValidDNSLabel (in_ServiceName i)) items \<and> distinct (map in_ServiceName items))"
proof -
  let ?named = "length (filter (\<lambda>i. in_ServiceName i \<noteq> []) items)"
  have q: "in_Quantity i \<le> MaxQuantityPerItem \<longleftrightarrow> unat (in_Quantity i) \<le> 1000000000" for i
    by (simp add: word_le_nat_alt MaxQuantityPerItem_def)
  have z: "in_Quantity i \<noteq> 0 \<longleftrightarrow> 0 < unat (in_Quantity i)" for i
    by (simp add: unat_gt_0)
  have lab: "IsValidDNSLabel l \<Longrightarrow> l \<noteq> []" for l
    by (auto simp: IsValidDNSLabel_def Let_def split: if_splits)
  have none: "?named = 0 \<longleftrightarrow> list_all (\<lambda>i. in_ServiceName i = []) items"
    using filter_count_none [of "\<lambda>i. in_ServiceName i \<noteq> []" items] by (simp add: list_all_iff)
  have all: "?named = length items \<longleftrightarrow> (\<forall>i \<in> set items. in_ServiceName i \<noteq> [])"
    by (rule filter_count_all)
  have fields: "itemFieldsLoop 0 items = Ok k \<longleftrightarrow>
      list_all (\<lambda>i. IsValidUUID (in_SkuUuid i) \<and> 0 < unat (in_Quantity i) \<and> unat (in_Quantity i) \<le> 1000000000) items \<and>
      k = ?named" for k
    by (simp add: itemFieldsLoop_ok q z list_all_iff)
  have eq: "ValidateLeaseItems items = Ok () \<longleftrightarrow>
      items \<noteq> [] \<and> length items \<le> 100 \<and> (\<exists>k. itemFieldsLoop 0 items = Ok k \<and>
        (if k = 0 then seenSKUsLoop {} items = Ok ()
         else k = length items \<and> seenNamesLoop {} items = Ok ()))"
  proof (cases "itemFieldsLoop 0 items")
    case (Ok k)
    then show ?thesis
      by (simp add: ValidateLeaseItems_def MaxItemsPerLeaseHardLimit_def not_less)
  qed (simp_all add: ValidateLeaseItems_def)
  have names: "seenNamesLoop {} items = Ok () \<longleftrightarrow>
      list_all (\<lambda>i. IsValidDNSLabel (in_ServiceName i)) items \<and> distinct (map in_ServiceName items)"
    by (simp add: seenNamesLoop_ok list_all_iff)
  have skus: "seenSKUsLoop {} items = Ok () \<longleftrightarrow> distinct (map in_SkuUuid items)"
    by (simp add: seenSKUsLoop_ok)
  have b1: "list_all (\<lambda>i. IsValidDNSLabel (in_ServiceName i)) items \<Longrightarrow> ?named = length items"
    unfolding all using lab by (auto simp: list_all_iff)
  have b2: "items \<noteq> [] \<longleftrightarrow> 0 < length items" by simp
  show ?thesis
    unfolding eq fields names skus none [symmetric] b2 using b1 by (metis less_irrefl)
qed

end
