(* ===== verification/Credit.thy ===== *)
theory Credit
  imports Billing_Types
begin

text \<open>
  \<open>x/billing/types/credit.go\<close>: credit addresses and the arithmetic of credit
  reservations.  Coin operations can panic (a denom or an amount they cannot
  represent), so every function returns a \<open>result\<close>.
\<close>

section \<open>Operations\<close>

definition DeriveCreditAddress :: "'x sdk \<Rightarrow> addr \<Rightarrow> addr" where
  "DeriveCreditAddress E tenant =
     (let key = bytes_of CreditAccountAddressPrefix @ tenant;
          hash = Sum256 E key
      in ModuleAddress E ModuleName hash)"

definition DeriveCreditAddressFromBech32 :: "'x sdk \<Rightarrow> string \<Rightarrow> addr option" where
  "DeriveCreditAddressFromBech32 E tenant =
     map_option (DeriveCreditAddress E) (AccAddressFromBech32 E tenant)"

fun subtractLoop :: "'x sdk \<Rightarrow> coins \<Rightarrow> coins \<Rightarrow> coins \<Rightarrow> (billing_error, coins) result" where
  \<comment> \<open>the loop of \<open>GetAvailableCredit\<close> over the balance and of \<open>SubtractReservation\<close>
      over the reserved coins: keep what exceeds the amount of \<open>other\<close>\<close>
  "subtractLoop E other acc [] = Ok acc"
| "subtractLoop E other acc (coin # rest) =
     (let otherAmount = CoinsAmountOf E other (Denom coin)
      in if Amount coin > otherAmount
         then
           andThen (must (NewCoin E (Denom coin) (Amount coin - otherAmount))) (\<lambda>c.
           andThen (must (CoinsAdd E acc [c])) (\<lambda>acc'.
           subtractLoop E other acc' rest))
         else subtractLoop E other acc rest)"

definition GetAvailableCredit :: "'x sdk \<Rightarrow> coins \<Rightarrow> coins \<Rightarrow> (billing_error, coins) result" where
  "GetAvailableCredit E balance reserved =
     (if CoinsIsZero E reserved then Ok balance else subtractLoop E reserved [] balance)"

definition AddReservation :: "'x sdk \<Rightarrow> coins \<Rightarrow> coins \<Rightarrow> (billing_error, coins) result" where
  "AddReservation E reserved toAdd = must (CoinsAdd E reserved toAdd)"

definition SubtractReservation :: "'x sdk \<Rightarrow> coins \<Rightarrow> coins \<Rightarrow> (billing_error, coins) result" where
  "SubtractReservation E reserved toSubtract =
     (if CoinsIsZero E reserved then Ok [] else subtractLoop E toSubtract [] reserved)"

fun totalRatesLoop :: "'x sdk \<Rightarrow> coins \<Rightarrow> LeaseItem list \<Rightarrow> (billing_error, coins) result" where
  "totalRatesLoop E totalRates [] = Ok totalRates"
| "totalRatesLoop E totalRates (item # items) =
     andThen (must (IntMul E (Amount (LockedPrice item)) (uint (Quantity item)))) (\<lambda>rate.
     andThen (must (NewCoin E (Denom (LockedPrice item)) rate)) (\<lambda>itemRate.
     andThen (must (CoinsAdd E totalRates [itemRate])) (\<lambda>totalRates'.
     totalRatesLoop E totalRates' items)))"

fun scaleLoop :: "'x sdk \<Rightarrow> int \<Rightarrow> coins \<Rightarrow> coins \<Rightarrow> (billing_error, coins) result" where
  "scaleLoop E minDuration reservation [] = Ok reservation"
| "scaleLoop E minDuration reservation (rate # rates) =
     andThen (must (IntMul E (Amount rate) minDuration)) (\<lambda>amount.
     andThen (must (NewCoin E (Denom rate) amount)) (\<lambda>c.
     andThen (must (CoinsAdd E reservation [c])) (\<lambda>reservation'.
     scaleLoop E minDuration reservation' rates)))"

definition CalculateLeaseReservation :: "'x sdk \<Rightarrow> LeaseItem list \<Rightarrow> u64 \<Rightarrow> (billing_error, coins) result" where
  "CalculateLeaseReservation E items minLeaseDuration =
     (if items = [] \<or> minLeaseDuration = 0 then Ok []
      else
        andThen (totalRatesLoop E [] items) (\<lambda>totalRates.
        scaleLoop E (uint minLeaseDuration) [] totalRates))"

definition CalculateLeaseReservationFromRates :: "'x sdk \<Rightarrow> coins \<Rightarrow> u64 \<Rightarrow> (billing_error, coins) result" where
  "CalculateLeaseReservationFromRates E totalRatesPerSecond minLeaseDuration =
     (if CoinsIsZero E totalRatesPerSecond \<or> minLeaseDuration = 0 then Ok []
      else scaleLoop E (uint minLeaseDuration) [] totalRatesPerSecond)"

definition GetLeaseReservationAmount :: "'x sdk \<Rightarrow> Lease \<Rightarrow> u64 \<Rightarrow> (billing_error, coins) result" where
  "GetLeaseReservationAmount E lease minLeaseDuration =
     (let duration = (if MinLeaseDurationAtCreation lease = 0 then minLeaseDuration
                      else MinLeaseDurationAtCreation lease)
      in CalculateLeaseReservation E (Items lease) duration)"

definition CheckReservationRelease :: "'x sdk \<Rightarrow> coins \<Rightarrow> coins \<Rightarrow> (string, int) kv" where
  "CheckReservationRelease E reserved toRelease =
     foldl (\<lambda>underflows coin.
         let reservedAmount = CoinsAmountOf E reserved (Denom coin)
         in if Amount coin > reservedAmount
            then kv_set (Denom coin) (Amount coin - reservedAmount) underflows
            else underflows)
       [] toRelease"

fun live :: "LeaseState \<Rightarrow> bool" where
  \<comment> \<open>the states that hold a reservation\<close>
  "live LEASE_STATE_PENDING = True"
| "live LEASE_STATE_ACTIVE = True"
| "live _ = False"

fun expectedLoop ::
  "'x sdk \<Rightarrow> u64 \<Rightarrow> (string, coins) kv \<Rightarrow> Lease list \<Rightarrow> (billing_error, (string, coins) kv) result" where
  "expectedLoop E fallback expected [] = Ok expected"
| "expectedLoop E fallback expected (lease # leases) =
     (if State lease = LEASE_STATE_PENDING \<or> State lease = LEASE_STATE_ACTIVE
      then
        andThen (GetLeaseReservationAmount E lease fallback) (\<lambda>reservation.
        (case kv_get expected (Tenant lease) of
           Some existing \<Rightarrow>
             andThen (must (CoinsAdd E existing reservation)) (\<lambda>sum.
             expectedLoop E fallback (kv_set (Tenant lease) sum expected) leases)
         | None \<Rightarrow> expectedLoop E fallback (kv_set (Tenant lease) reservation expected) leases))
      else expectedLoop E fallback expected leases)"

definition CalculateExpectedReservationsByTenant ::
  "'x sdk \<Rightarrow> Lease list \<Rightarrow> u64 \<Rightarrow> (billing_error, (string, coins) kv) result" where
  "CalculateExpectedReservationsByTenant E leases fallbackMinLeaseDuration =
     expectedLoop E fallbackMinLeaseDuration [] leases"

section \<open>What they compute\<close>

definition items_rate :: "LeaseItem list \<Rightarrow> string \<Rightarrow> int" where
  \<comment> \<open>the per-second charge of the items in a denom\<close>
  "items_rate items d =
     (\<Sum>i\<leftarrow>items. if Denom (LockedPrice i) = d then Amount (LockedPrice i) * uint (Quantity i) else 0)"

definition reserved_duration :: "u64 \<Rightarrow> Lease \<Rightarrow> u64" where
  "reserved_duration fallback l =
     (if MinLeaseDurationAtCreation l = 0 then fallback else MinLeaseDurationAtCreation l)"

definition reservation :: "u64 \<Rightarrow> string \<Rightarrow> Lease \<Rightarrow> int" where
  "reservation fallback d l = items_rate (Items l) d * uint (reserved_duration fallback l)"

lemma items_rate_simps [simp]:
  "items_rate [] d = 0"
  "items_rate (i # is) d =
     (if Denom (LockedPrice i) = d then Amount (LockedPrice i) * uint (Quantity i) else 0) + items_rate is d"
  by (simp_all add: items_rate_def)

lemma items_rate_absent: "\<forall>i \<in> set items. Denom (LockedPrice i) \<noteq> d \<Longrightarrow> items_rate items d = 0"
  by (induction items) auto

lemma live_iff: "live s \<longleftrightarrow> s = LEASE_STATE_PENDING \<or> s = LEASE_STATE_ACTIVE"
  by (cases s) auto

lemma amt_mem_notin: "coins_ok (c # cs) \<Longrightarrow> amt cs (Denom c) = 0"
  by (simp add: coins_ok_Cons amt_below)

context sdk_laws
begin

lemma add_one:
  assumes "NewCoin E d n = Some c" and "CoinsAdd E acc [c] = Some acc'" and "coins_ok acc"
  shows "coins_ok acc'" and "amt acc' d' = amt acc d' + (if d = d' then n else 0)" and "0 \<le> n"
  using NewCoin_law [OF assms(1)] CoinsAdd_law [OF assms(2,3)] by auto

lemma subtractLoop_law:
  assumes "subtractLoop E other acc cs = Ok res" and "coins_ok acc" and "coins_ok cs" and "coins_ok other"
  shows "coins_ok res \<and> amt res d = amt acc d + max 0 (amt cs d - amt other d)"
  using assms(1-3)
proof (induction cs arbitrary: acc)
  case (Cons coin rest)
  let ?o = "amt other (Denom coin)"
  have o: "CoinsAmountOf E other (Denom coin) = ?o" using assms(4) by (simp add: CoinsAmountOf_law)
  have ok: "coins_ok rest" and hd: "0 < Amount coin" using Cons.prems by (auto simp: coins_ok_Cons)
  have rest: "amt rest (Denom coin) = 0" using amt_mem_notin Cons.prems by blast
  show ?case
  proof (cases "?o < Amount coin")
    case True
    with Cons.prems o obtain c acc' where n: "NewCoin E (Denom coin) (Amount coin - ?o) = Some c"
      and a: "CoinsAdd E acc [c] = Some acc'" and l: "subtractLoop E other acc' rest = Ok res"
      by auto
    note add = add_one [OF n a Cons.prems(2)]
    have "coins_ok res \<and> amt res d = amt acc' d + max 0 (amt rest d - amt other d)"
      using Cons.IH [OF l add(1) ok] .
    with add rest True assms(4) show ?thesis by auto
  next
    case False
    with Cons o ok have "coins_ok res \<and> amt res d = amt acc d + max 0 (amt rest d - amt other d)"
      by simp
    with False rest hd assms(4) show ?thesis by auto
  qed
next
  case Nil
  with assms(4) show ?case by simp
qed

lemma GetAvailableCredit_law:
  assumes "GetAvailableCredit E balance reserved = Ok res" and "coins_ok balance" and "coins_ok reserved"
  shows "coins_ok res \<and> amt res d = max 0 (amt balance d - amt reserved d)"
  using assms subtractLoop_law [of reserved "[]" balance res d]
  by (auto simp: GetAvailableCredit_def CoinsIsZero_ok split: if_splits)

lemma AddReservation_law:
  assumes "AddReservation E reserved toAdd = Ok res" and "coins_ok reserved" and "coins_ok toAdd"
  shows "coins_ok res \<and> amt res d = amt reserved d + amt toAdd d"
  using assms CoinsAdd_law [of reserved toAdd res] by (auto simp: AddReservation_def coins_ok_nn)

lemma SubtractReservation_law:
  assumes "SubtractReservation E reserved toSubtract = Ok res"
    and "coins_ok reserved" and "coins_ok toSubtract"
  shows "coins_ok res \<and> amt res d = max 0 (amt reserved d - amt toSubtract d)"
  using assms subtractLoop_law [of toSubtract "[]" reserved res d]
  by (auto simp: SubtractReservation_def CoinsIsZero_ok split: if_splits)

lemma totalRatesLoop_law:
  assumes "totalRatesLoop E acc items = Ok res" and "coins_ok acc"
  shows "coins_ok res \<and> amt res d = amt acc d + items_rate items d"
  using assms
proof (induction items arbitrary: acc)
  case (Cons i items)
  then obtain r c acc' where m: "IntMul E (Amount (LockedPrice i)) (uint (Quantity i)) = Some r"
    and n: "NewCoin E (Denom (LockedPrice i)) r = Some c" and a: "CoinsAdd E acc [c] = Some acc'"
    and l: "totalRatesLoop E acc' items = Ok res" by auto
  note add = add_one [OF n a Cons.prems(2)]
  show ?case
    using Cons.IH [OF l add(1)] add(2) [of d] IntMul_law [OF m] by simp
qed simp

lemma scaleLoop_law:
  assumes "scaleLoop E k acc rates = Ok res" and "coins_ok acc"
  shows "coins_ok res \<and> amt res d = amt acc d + amt rates d * k"
  using assms
proof (induction rates arbitrary: acc)
  case (Cons r rates)
  then obtain n c acc' where m: "IntMul E (Amount r) k = Some n"
    and n: "NewCoin E (Denom r) n = Some c" and a: "CoinsAdd E acc [c] = Some acc'"
    and l: "scaleLoop E k acc' rates = Ok res" by auto
  note add = add_one [OF n a Cons.prems(2)]
  show ?case
    using Cons.IH [OF l add(1)] add(2) [of d] IntMul_law [OF m] by (simp add: distrib_right)
qed simp

lemma CalculateLeaseReservation_law:
  assumes "CalculateLeaseReservation E items dur = Ok res"
  shows "coins_ok res \<and> amt res d = items_rate items d * uint dur"
proof (cases "items = [] \<or> dur = 0")
  case True
  with assms show ?thesis by (auto simp: CalculateLeaseReservation_def)
next
  case False
  with assms obtain rates where r: "totalRatesLoop E [] items = Ok rates"
    and s: "scaleLoop E (uint dur) [] rates = Ok res"
    by (auto simp: CalculateLeaseReservation_def)
  show ?thesis
    using scaleLoop_law [OF s, of d] totalRatesLoop_law [OF r, of d] by simp
qed

lemma FromRates_law:
  assumes "CalculateLeaseReservationFromRates E rates dur = Ok res" and "coins_ok rates"
  shows "coins_ok res \<and> amt res d = amt rates d * uint dur"
  using assms scaleLoop_law [of "uint dur" "[]" rates res d]
  by (auto simp: CalculateLeaseReservationFromRates_def CoinsIsZero_ok split: if_splits)

lemma GetLeaseReservationAmount_law:
  assumes "GetLeaseReservationAmount E l fallback = Ok res"
  shows "coins_ok res \<and> amt res d = reservation fallback d l"
  using assms CalculateLeaseReservation_law [of "Items l" _ res d]
  by (simp add: GetLeaseReservationAmount_def reservation_def reserved_duration_def Let_def split: if_splits)

end

end
