(* ===== verification/Settlement.thy ===== *)
theory Settlement
  imports Credit "HOL-Library.Product_Lexorder"
begin

text \<open>
  The billing ledger (the stores of \<open>keeper.Keeper\<close> with the bank and SKU keepers
  it holds), accrual (\<open>accrual.go\<close>) and settlement (\<open>settlement.go\<close>).
\<close>

section \<open>The ledger\<close>

record 'x ledger =
  bank :: 'x
  sku_keeper :: sku_state
  authority :: string
  lg_Params :: "Params option"
  Leases :: "(string, Lease) kv"
  LeaseSequence :: u64
  CreditAccounts :: "(addr, CreditAccount) kv"
  CreditAddressIndex :: "(addr, addr) kv"
  LeaseBySKUIndex :: "(string \<times> string, bool) kv"
  CustomDomainIndex :: "(string, CustomDomainTarget) kv"
  events :: "event list"

section \<open>Accrual (accrual.go)\<close>

definition MaxDurationSeconds :: int where
  "MaxDurationSeconds = 100 * 365 * 24 * 60 * 60"

record LeaseItemWithPrice =
  wp_SkuUUID :: string
  wp_Quantity :: u64
  LockedPricePerSecond :: coin

definition ConvertBasePriceToPerSecond :: "'x sdk \<Rightarrow> coin \<Rightarrow> Unit \<Rightarrow> (billing_error, coin) result" where
  "ConvertBasePriceToPerSecond E basePrice unit =
     (let (perSecond, ok) = CalculatePricePerSecond E basePrice unit
      in if \<not> ok then Err ErrPlain else must (NewCoin E (Denom basePrice) perSecond))"

definition CalculateAccruedAmount :: "'x sdk \<Rightarrow> coin \<Rightarrow> u64 \<Rightarrow> duration \<Rightarrow> (billing_error, coin) result" where
  "CalculateAccruedAmount E lockedPricePerSecond quantity duration =
     (let durationSeconds = duration sdiv Second
      in if durationSeconds < 0 then must (NewCoin E (Denom lockedPricePerSecond) 0)
         else if durationSeconds > MaxDurationSeconds then Err ErrPlain
         else
           andThen (must (IntMul E (Amount lockedPricePerSecond) (uint quantity))) (\<lambda>perSecond.
           andThen (must (IntMul E perSecond durationSeconds)) (\<lambda>result.
           if result < 0 then Err ErrPlain
           else must (NewCoin E (Denom lockedPricePerSecond) result))))"

fun totalAccruedLoop ::
  "'x sdk \<Rightarrow> duration \<Rightarrow> coins \<Rightarrow> LeaseItemWithPrice list \<Rightarrow> (billing_error, coins) result" where
  "totalAccruedLoop E duration totals [] = Ok totals"
| "totalAccruedLoop E duration totals (item # items) =
     andThen (orErr (CalculateAccruedAmount E (LockedPricePerSecond item) (wp_Quantity item) duration) ErrPlain)
       (\<lambda>accrued.
     if 0 < Amount accrued
     then andThen (must (CoinsAdd E totals [accrued])) (\<lambda>totals'. totalAccruedLoop E duration totals' items)
     else totalAccruedLoop E duration totals items)"

definition CalculateTotalAccruedForLease ::
  "'x sdk \<Rightarrow> LeaseItemWithPrice list \<Rightarrow> duration \<Rightarrow> (billing_error, coins) result" where
  "CalculateTotalAccruedForLease E items duration = totalAccruedLoop E duration [] items"

section \<open>Balances (keeper.go)\<close>

definition GetCreditBalance :: "'x sdk \<Rightarrow> 'x ledger \<Rightarrow> string \<Rightarrow> string \<Rightarrow> (billing_error, coin) result" where
  "GetCreditBalance E st tenant denom =
     andThen (okOr (DeriveCreditAddressFromBech32 E tenant) ErrPlain) (\<lambda>creditAddr.
     Ok (GetBalance E (bank st) creditAddr denom))"

fun balancesLoop :: "'x sdk \<Rightarrow> 'x \<Rightarrow> addr \<Rightarrow> coins \<Rightarrow> string list \<Rightarrow> (billing_error, coins) result" where
  "balancesLoop E x creditAddr coins [] = Ok coins"
| "balancesLoop E x creditAddr coins (denom # denoms) =
     (let b = GetBalance E x creditAddr denom
      in if 0 < Amount b
         then andThen (must (CoinsAdd E coins [b])) (\<lambda>coins'. balancesLoop E x creditAddr coins' denoms)
         else balancesLoop E x creditAddr coins denoms)"

definition getCreditBalancesForDenoms ::
  "'x sdk \<Rightarrow> 'x ledger \<Rightarrow> string \<Rightarrow> string list \<Rightarrow> (billing_error, coins) result" where
  "getCreditBalancesForDenoms E st tenant denoms =
     andThen (okOr (DeriveCreditAddressFromBech32 E tenant) ErrPlain) (\<lambda>creditAddr.
     balancesLoop E (bank st) creditAddr [] denoms)"

section \<open>Settlement (settlement.go)\<close>

record SettlementResult =
  TransferAmounts :: coins
  AccruedAmounts :: coins
  CreditBalanceAfter :: coins

definition leaseItemDenoms :: "LeaseItem list \<Rightarrow> string list" where
  "leaseItemDenoms items = dedup_from [] (map (\<lambda>i. Denom (LockedPrice i)) items)"

definition LeaseItemsToWithPrice :: "LeaseItem list \<Rightarrow> LeaseItemWithPrice list" where
  "LeaseItemsToWithPrice items =
     map (\<lambda>i. \<lparr>wp_SkuUUID = SkuUuid i, wp_Quantity = Quantity i, LockedPricePerSecond = LockedPrice i\<rparr>) items"

fun transferLoop :: "'x sdk \<Rightarrow> coins \<Rightarrow> coins \<Rightarrow> coins \<Rightarrow> (billing_error, coins) result" where
  "transferLoop E available result [] = Ok result"
| "transferLoop E available result (coin # rest) =
     (let balance = CoinsAmountOf E available (Denom coin);
          transferAmount = (if balance < Amount coin then balance else Amount coin)
      in if 0 < transferAmount
         then
           andThen (must (NewCoin E (Denom coin) transferAmount)) (\<lambda>c.
           andThen (must (CoinsAdd E result [c])) (\<lambda>result'.
           transferLoop E available result' rest))
         else transferLoop E available result rest)"

definition CalculateTransferAmounts :: "'x sdk \<Rightarrow> coins \<Rightarrow> coins \<Rightarrow> (billing_error, coins) result" where
  "CalculateTransferAmounts E accrued available = transferLoop E available [] accrued"

definition settlementAccrual ::
  "'x sdk \<Rightarrow> Lease \<Rightarrow> duration \<Rightarrow> bool \<Rightarrow> (billing_error, coins option) result" where
  \<comment> \<open>the accrual step of \<open>performSettlementCore\<close>; \<open>None\<close> is \<open>overflowed\<close>\<close>
  "settlementAccrual E lease duration silentOnOverflow =
     (case CalculateTotalAccruedForLease E (LeaseItemsToWithPrice (Items lease)) duration of
        Ok accrued \<Rightarrow> Ok (Some accrued)
      | Err e \<Rightarrow> if silentOnOverflow then Ok None else Err ErrInvalidCreditOperation
      | Panic \<Rightarrow> Panic)"

definition settlementTransfer ::
  "'x sdk \<Rightarrow> 'x ledger \<Rightarrow> Lease \<Rightarrow> coins \<Rightarrow> (billing_error, 'x ledger) result" where
  "settlementTransfer E st lease transferAmounts =
     andThen (okOr (DeriveCreditAddressFromBech32 E (Tenant lease)) ErrPlain) (\<lambda>creditAddr.
     andThen (orErr (GetProvider (sku_keeper st) (lease_ProviderUuid lease)) ErrProviderNotFound) (\<lambda>provider.
     andThen (okOr (AccAddressFromBech32 E (PayoutAddress provider)) ErrProviderNotFound) (\<lambda>payoutAddr.
     andThen (okOr (SendCoins E (bank st) creditAddr payoutAddr transferAmounts) ErrInvalidCreditOperation) (\<lambda>b.
     Ok (st\<lparr>bank := b\<rparr>)))))"

definition performSettlementCore ::
  "'x sdk \<Rightarrow> 'x ledger \<Rightarrow> Lease \<Rightarrow> time \<Rightarrow> bool \<Rightarrow> (billing_error, 'x ledger \<times> SettlementResult) result" where
  "performSettlementCore E st lease settleTime silentOnOverflow =
     (let duration = timeSub settleTime (LastSettledAt lease)
      in if duration \<le> 0
         then Ok (st, \<lparr>TransferAmounts = [], AccruedAmounts = [], CreditBalanceAfter = []\<rparr>)
         else
           andThen (settlementAccrual E lease duration silentOnOverflow) (\<lambda>accrual.
           andThen (getCreditBalancesForDenoms E st (Tenant lease) (leaseItemDenoms (Items lease))) (\<lambda>creditBalances.
           let accruedAmounts = (case accrual of None \<Rightarrow> creditBalances | Some a \<Rightarrow> a)
           in if CoinsIsZero E accruedAmounts
              then Ok (st, \<lparr>TransferAmounts = [], AccruedAmounts = [], CreditBalanceAfter = creditBalances\<rparr>)
              else
                andThen (CalculateTransferAmounts E accruedAmounts creditBalances) (\<lambda>transferAmounts.
                if CoinsIsZero E transferAmounts
                then Ok (st, \<lparr>TransferAmounts = [], AccruedAmounts = accruedAmounts,
                              CreditBalanceAfter = creditBalances\<rparr>)
                else
                  andThen (settlementTransfer E st lease transferAmounts) (\<lambda>st'.
                  andThen (must (CoinsSub E creditBalances transferAmounts)) (\<lambda>after.
                  Ok (st', \<lparr>TransferAmounts = transferAmounts, AccruedAmounts = accruedAmounts,
                            CreditBalanceAfter = after\<rparr>)))))))"

definition PerformSettlement ::
  "'x sdk \<Rightarrow> 'x ledger \<Rightarrow> Lease \<Rightarrow> time \<Rightarrow> (billing_error, 'x ledger \<times> SettlementResult) result" where
  "PerformSettlement E st lease settleTime = performSettlementCore E st lease settleTime False"

definition PerformSettlementSilent ::
  "'x sdk \<Rightarrow> 'x ledger \<Rightarrow> Lease \<Rightarrow> time \<Rightarrow> (billing_error, 'x ledger \<times> SettlementResult) result" where
  "PerformSettlementSilent E st lease settleTime = performSettlementCore E st lease settleTime True"

section \<open>What they compute\<close>

definition seconds :: "time \<Rightarrow> time \<Rightarrow> int" where
  \<comment> \<open>the whole seconds a settlement at \<open>t\<close> bills since \<open>t0\<close>\<close>
  "seconds t t0 = timeSub t t0 div Second"

lemma Second_pos [simp]: "0 < Second" by (simp add: Second_def)

lemma sdiv_Second: "0 \<le> d \<Longrightarrow> d sdiv Second = d div Second"
  by (cases "d = 0") (simp_all add: signed_divide_int_def Second_def)

lemma items_rate_wp:
  "items_rate items d = (\<Sum>i\<leftarrow>LeaseItemsToWithPrice items.
     if Denom (LockedPricePerSecond i) = d then Amount (LockedPricePerSecond i) * uint (wp_Quantity i) else 0)"
  by (induction items) (simp_all add: LeaseItemsToWithPrice_def)

lemma items_rate_denoms: "d \<notin> set (leaseItemDenoms items) \<Longrightarrow> items_rate items d = 0"
  by (induction items) (auto simp: leaseItemDenoms_def)

definition prices_nn :: "LeaseItem list \<Rightarrow> bool" where
  "prices_nn items \<longleftrightarrow> (\<forall>i \<in> set items. 0 \<le> Amount (LockedPrice i))"

lemma items_rate_nonneg: "prices_nn items \<Longrightarrow> 0 \<le> items_rate items d"
  by (induction items) (auto simp: prices_nn_def)

context sdk_laws
begin

lemma CalculateAccruedAmount_law:
  assumes "CalculateAccruedAmount E p q dur = Ok c" and "0 \<le> dur"
  shows "c = \<lparr>Denom = Denom p, Amount = Amount p * uint q * (dur div Second)\<rparr> \<and> 0 \<le> Amount c"
proof -
  have s: "\<not> dur sdiv Second < 0" using assms(2) by (simp add: sdiv_Second pos_imp_zdiv_nonneg_iff not_less)
  with assms(1) obtain a b where a: "IntMul E (Amount p) (uint q) = Some a"
    and b: "IntMul E a (dur sdiv Second) = Some b" and c: "NewCoin E (Denom p) b = Some c"
    by (auto simp: CalculateAccruedAmount_def Let_def split: if_split_asm)
  have "b = Amount p * uint q * (dur div Second)"
    using IntMul_law [OF a] IntMul_law [OF b] sdiv_Second [OF assms(2)] by simp
  with NewCoin_law [OF c] show ?thesis by simp
qed

lemma totalAccruedLoop_law:
  assumes "totalAccruedLoop E dur acc items = Ok res" and "coins_ok acc" and "0 \<le> dur"
  shows "coins_ok res \<and> amt res d = amt acc d +
     (\<Sum>i\<leftarrow>items. if Denom (LockedPricePerSecond i) = d
        then Amount (LockedPricePerSecond i) * uint (wp_Quantity i) else 0) * (dur div Second)"
  using assms(1,2)
proof (induction items arbitrary: acc)
  case (Cons i items)
  then obtain c where c: "CalculateAccruedAmount E (LockedPricePerSecond i) (wp_Quantity i) dur = Ok c"
    by auto
  note cl = CalculateAccruedAmount_law [OF c assms(3)]
  show ?case
  proof (cases "0 < Amount c")
    case True
    with Cons.prems c obtain acc' where a: "CoinsAdd E acc [c] = Some acc'"
      and l: "totalAccruedLoop E dur acc' items = Ok res" by auto
    have "coins_nn [c]" using True by simp
    with CoinsAdd_law [OF a Cons.prems(2) this] Cons.IH [OF l] cl show ?thesis
      by (simp add: distrib_right)
  next
    case False
    have "Amount c = Amount (LockedPricePerSecond i) * uint (wp_Quantity i) * (dur div Second)"
      using cl [THEN conjunct1] by simp
    with False cl [THEN conjunct2]
    have z: "Amount (LockedPricePerSecond i) * uint (wp_Quantity i) * (dur div Second) = 0" by linarith
    from False Cons.prems c have "totalAccruedLoop E dur acc items = Ok res" by simp
    from Cons.IH [OF this Cons.prems(2)] z show ?thesis by (simp add: distrib_right)
  qed
qed simp

lemma TotalAccrued_law:
  assumes "CalculateTotalAccruedForLease E (LeaseItemsToWithPrice items) dur = Ok res" and "0 \<le> dur"
  shows "coins_ok res \<and> amt res d = items_rate items d * (dur div Second)"
  using totalAccruedLoop_law [of dur "[]" "LeaseItemsToWithPrice items" res d] assms
  by (simp add: CalculateTotalAccruedForLease_def items_rate_wp)

lemma balancesLoop_law:
  assumes "balancesLoop E x a acc ds = Ok res" and "coins_ok acc" and "distinct ds"
  shows "coins_ok res \<and> amt res d = amt acc d + (if d \<in> set ds then bal E x a d else 0)"
  using assms
proof (induction ds arbitrary: acc)
  case (Cons dn ds)
  let ?b = "GetBalance E x a dn"
  show ?case
  proof (cases "0 < Amount ?b")
    case True
    with Cons.prems obtain acc' where ad: "CoinsAdd E acc [?b] = Some acc'"
      and l: "balancesLoop E x a acc' ds = Ok res" by auto
    have nn: "coins_nn [?b]" using True by simp
    from CoinsAdd_law [OF ad Cons.prems(2) nn] Cons.IH [OF l] Cons.prems(3) show ?thesis
      by (auto simp: GetBalance_Denom)
  next
    case False
    then have z: "bal E x a dn = 0" using GetBalance_nonneg [of x a dn] by simp
    with False Cons.prems have "balancesLoop E x a acc ds = Ok res" by simp
    from Cons.IH [OF this] Cons.prems z show ?thesis by auto
  qed
qed simp

lemma distinct_denoms [simp]: "distinct (leaseItemDenoms items)"
  by (simp add: leaseItemDenoms_def)

lemma getCreditBalances_law:
  assumes "getCreditBalancesForDenoms E st tenant ds = Ok res" and "distinct ds"
    and "DeriveCreditAddressFromBech32 E tenant = Some a"
  shows "coins_ok res \<and> amt res d = (if d \<in> set ds then bal E (bank st) a d else 0)"
  using assms balancesLoop_law [of "bank st" a "[]" ds res d]
  by (simp add: getCreditBalancesForDenoms_def)

lemma transferLoop_law:
  assumes "transferLoop E avail acc cs = Ok res" and "coins_ok acc" and "coins_ok cs" and "coins_ok avail"
  shows "coins_ok res \<and> amt res d = amt acc d + min (amt cs d) (amt avail d)"
  using assms(1-3)
proof (induction cs arbitrary: acc)
  case Nil
  with assms(4) show ?case by simp
next
  case (Cons coin rest)
  let ?b = "amt avail (Denom coin)" and ?t = "min (Amount coin) (amt avail (Denom coin))"
  have b: "CoinsAmountOf E avail (Denom coin) = ?b" using assms(4) by (simp add: CoinsAmountOf_law)
  have t: "(if ?b < Amount coin then ?b else Amount coin) = ?t" by auto
  have ok: "coins_ok rest" and hd: "0 < Amount coin" using Cons.prems by (auto simp: coins_ok_Cons)
  have rest: "amt rest (Denom coin) = 0" using amt_mem_notin Cons.prems by blast
  show ?case
  proof (cases "0 < ?t")
    case True
    with Cons.prems b t obtain c acc' where n: "NewCoin E (Denom coin) ?t = Some c"
      and a: "CoinsAdd E acc [c] = Some acc'" and l: "transferLoop E avail acc' rest = Ok res"
      by (auto simp: Let_def)
    note add = add_one [OF n a Cons.prems(2)]
    from Cons.IH [OF l add(1) ok] add(2) [of d] rest assms(4) show ?thesis by auto
  next
    case False
    with Cons.prems b t hd have "transferLoop E avail acc rest = Ok res" by (auto simp: Let_def)
    moreover have "?b = 0" using False hd amt_ok_nonneg [OF assms(4), of "Denom coin"] by linarith
    ultimately show ?thesis using Cons.IH [of acc] Cons.prems(2) ok rest hd assms(4) by auto
  qed
qed

lemma CalculateTransferAmounts_law:
  assumes "CalculateTransferAmounts E accrued avail = Ok res" and "coins_ok accrued" and "coins_ok avail"
  shows "coins_ok res \<and> amt res d = min (amt accrued d) (amt avail d)"
  using transferLoop_law [of avail "[]" accrued res d] assms
  by (simp add: CalculateTransferAmounts_def)

text \<open>Accrual is refused exactly for spans beyond \<open>MaxDurationSeconds\<close>.\<close>

lemma CalculateAccruedAmount_err:
  assumes "0 \<le> dur" and "0 \<le> Amount p"
  shows "CalculateAccruedAmount E p q dur = Err e \<Longrightarrow> MaxDurationSeconds < dur div Second"
    and "CalculateAccruedAmount E p q dur = Ok c \<Longrightarrow> dur div Second \<le> MaxDurationSeconds"
proof -
  have s: "0 \<le> dur div Second" using assms(1) by (simp add: pos_imp_zdiv_nonneg_iff)
  have nn: "IntMul E (Amount p) (uint q) = Some a \<Longrightarrow> IntMul E a (dur div Second) = Some b \<Longrightarrow> 0 \<le> b" for a b
    using s assms(2) by (auto dest!: IntMul_law)
  show "CalculateAccruedAmount E p q dur = Err e \<Longrightarrow> MaxDurationSeconds < dur div Second"
    using s nn by (fastforce simp: CalculateAccruedAmount_def Let_def sdiv_Second [OF assms(1)] andThen_eq_Err
        split: if_split_asm)
  show "CalculateAccruedAmount E p q dur = Ok c \<Longrightarrow> dur div Second \<le> MaxDurationSeconds"
    using s by (auto simp: CalculateAccruedAmount_def Let_def sdiv_Second [OF assms(1)] split: if_split_asm)
qed

lemma totalAccruedLoop_err:
  assumes "0 \<le> dur" and "\<forall>i \<in> set items. 0 \<le> Amount (LockedPricePerSecond i)"
  shows "totalAccruedLoop E dur acc items = Err e \<Longrightarrow> MaxDurationSeconds < dur div Second"
    and "totalAccruedLoop E dur acc items = Ok res \<Longrightarrow> items = [] \<or> dur div Second \<le> MaxDurationSeconds"
proof -
  have "totalAccruedLoop E dur acc items = Err e \<Longrightarrow> MaxDurationSeconds < dur div Second" for acc
    using assms(2)
  proof (induction items arbitrary: acc)
    case (Cons i items)
    then show ?case
      using CalculateAccruedAmount_err(1) [OF assms(1), of "LockedPricePerSecond i" "wp_Quantity i"]
      by (auto simp: andThen_eq_Err orErr_eq_Err split: if_split_asm)
  qed simp
  then show "totalAccruedLoop E dur acc items = Err e \<Longrightarrow> MaxDurationSeconds < dur div Second" .
  show "totalAccruedLoop E dur acc items = Ok res \<Longrightarrow> items = [] \<or> dur div Second \<le> MaxDurationSeconds"
    using assms(2) CalculateAccruedAmount_err(2) [OF assms(1)] by (cases items) auto
qed

lemma TotalAccrued_err:
  assumes "0 \<le> dur" and "prices_nn items"
  shows "CalculateTotalAccruedForLease E (LeaseItemsToWithPrice items) dur = Err e \<Longrightarrow>
           MaxDurationSeconds < dur div Second"
    and "CalculateTotalAccruedForLease E (LeaseItemsToWithPrice items) dur = Ok res \<Longrightarrow>
           items = [] \<or> dur div Second \<le> MaxDurationSeconds"
  using totalAccruedLoop_err [OF assms(1), of "LeaseItemsToWithPrice items" "[]"] assms(2)
  by (auto simp: CalculateTotalAccruedForLease_def prices_nn_def LeaseItemsToWithPrice_def)

lemma settlementTransfer_law:
  assumes "settlementTransfer E st l cs = Ok st'" and "coins_ok cs"
    and "DeriveCreditAddressFromBech32 E (Tenant l) = Some a"
  shows "\<exists>p pa b. GetProvider (sku_keeper st) (lease_ProviderUuid l) = Ok p \<and>
     AccAddressFromBech32 E (PayoutAddress p) = Some pa \<and> st' = st\<lparr>bank := b\<rparr> \<and>
     (\<forall>x d. bal E b x d = bal E (bank st) x d - (if x = a then amt cs d else 0)
          + (if x = pa then amt cs d else 0))"
proof -
  from assms obtain p pa b where "GetProvider (sku_keeper st) (lease_ProviderUuid l) = Ok p"
    and "AccAddressFromBech32 E (PayoutAddress p) = Some pa"
    and s: "SendCoins E (bank st) a pa cs = Some b" and "st' = st\<lparr>bank := b\<rparr>"
    by (auto simp: settlementTransfer_def)
  with SendCoins_law [OF s assms(2)] show ?thesis by blast
qed

end

definition due :: "Lease \<Rightarrow> time \<Rightarrow> (string \<Rightarrow> int) \<Rightarrow> string \<Rightarrow> int" where
  \<comment> \<open>what a settlement at \<open>t\<close> moves, given the credit balances \<open>b\<close>\<close>
  "due l t b d =
     (if t \<le> LastSettledAt l then 0
      else if seconds t (LastSettledAt l) \<le> MaxDurationSeconds
      then min (items_rate (Items l) d * seconds t (LastSettledAt l)) (b d)
      else if d \<in> set (leaseItemDenoms (Items l)) then b d else 0)"

context sdk_laws
begin

lemma settle_law:
  assumes run: "performSettlementCore E st l t silent = Ok (st', r)"
    and a: "DeriveCreditAddressFromBech32 E (Tenant l) = Some a" and nn: "prices_nn (Items l)"
  shows "coins_ok (TransferAmounts r)" and "amt (TransferAmounts r) d = due l t (bal E (bank st) a) d"
    and "(TransferAmounts r = [] \<and> st' = st) \<or>
      (\<exists>p pa b. GetProvider (sku_keeper st) (lease_ProviderUuid l) = Ok p \<and>
         AccAddressFromBech32 E (PayoutAddress p) = Some pa \<and> st' = st\<lparr>bank := b\<rparr> \<and>
         (\<forall>x d. bal E b x d = bal E (bank st) x d - (if x = a then amt (TransferAmounts r) d else 0)
            + (if x = pa then amt (TransferAmounts r) d else 0)))"
proof -
  let ?dur = "timeSub t (LastSettledAt l)" and ?ds = "leaseItemDenoms (Items l)"
  let ?goal = "coins_ok (TransferAmounts r) \<and>
      amt (TransferAmounts r) d = due l t (bal E (bank st) a) d \<and>
      ((TransferAmounts r = [] \<and> st' = st) \<or>
      (\<exists>p pa b. GetProvider (sku_keeper st) (lease_ProviderUuid l) = Ok p \<and>
         AccAddressFromBech32 E (PayoutAddress p) = Some pa \<and> st' = st\<lparr>bank := b\<rparr> \<and>
         (\<forall>x d. bal E b x d = bal E (bank st) x d - (if x = a then amt (TransferAmounts r) d else 0)
            + (if x = pa then amt (TransferAmounts r) d else 0))))"
  have g: ?goal
  proof (cases "t \<le> LastSettledAt l")
    case True
    with run show ?thesis by (auto simp: performSettlementCore_def due_def Let_def)
  next
    case False
    then have pos: "0 \<le> ?dur" "\<not> ?dur \<le> 0" by (simp_all add: timeSub_def)
    from run pos obtain accr cb where accr: "settlementAccrual E l ?dur silent = Ok accr"
      and cb: "getCreditBalancesForDenoms E st (Tenant l) ?ds = Ok cb"
      by (auto simp: performSettlementCore_def Let_def simp del: timeSub_le_0_iff)
    define acc where "acc = (case accr of None \<Rightarrow> cb | Some x \<Rightarrow> x)"
    note cbl = getCreditBalances_law [OF cb distinct_denoms a]
    have acc: "coins_ok acc \<and> min (amt acc d) (amt cb d) = due l t (bal E (bank st) a) d" for d
    proof (cases accr)
      case None
      with accr obtain e where "CalculateTotalAccruedForLease E (LeaseItemsToWithPrice (Items l)) ?dur = Err e"
        by (auto simp: settlementAccrual_def split: result.splits if_splits)
      from TotalAccrued_err(1) [OF pos(1) nn this] False cbl None show ?thesis
        by (simp add: acc_def due_def seconds_def)
    next
      case (Some x)
      with accr have x: "CalculateTotalAccruedForLease E (LeaseItemsToWithPrice (Items l)) ?dur = Ok x"
        by (auto simp: settlementAccrual_def split: result.splits if_splits)
      note xl = TotalAccrued_law [OF x pos(1)]
      have z: "0 \<le> ?dur div Second" using pos(1) by (simp add: pos_imp_zdiv_nonneg_iff)
      have r0: "items_rate (Items l) d = 0" if "d \<notin> set ?ds" using items_rate_denoms that .
      from TotalAccrued_err(2) [OF pos(1) nn x]
      have "Items l = [] \<or> seconds t (LastSettledAt l) \<le> MaxDurationSeconds" by (simp add: seconds_def)
      then show ?thesis
        using xl [of d] cbl [of d] False Some r0 z items_rate_nonneg [OF nn, of d]
          GetBalance_nonneg [of "bank st" a d]
        by (auto simp: acc_def due_def seconds_def leaseItemDenoms_def)
    qed
    show ?thesis
    proof (cases "CoinsIsZero E acc")
      case True
      with acc have "acc = []" using CoinsIsZero_ok by blast
      with acc [of d] cbl [of d] GetBalance_nonneg [of "bank st" a d]
      have "due l t (bal E (bank st) a) d = 0" by (auto simp: min_def split: if_splits)
      with run pos accr cb True show ?thesis
        by (auto simp: performSettlementCore_def Let_def acc_def simp del: timeSub_le_0_iff)
    next
      case nz: False
      from run pos accr cb nz obtain ta where ta: "CalculateTransferAmounts E acc cb = Ok ta"
        by (auto simp: performSettlementCore_def Let_def acc_def simp del: timeSub_le_0_iff)
      note tl = CalculateTransferAmounts_law [OF ta acc [THEN conjunct1] cbl [THEN conjunct1]]
      then have tl': "coins_ok ta \<and> amt ta d = due l t (bal E (bank st) a) d" for d using acc by simp
      show ?thesis
      proof (cases "CoinsIsZero E ta")
        case True
        with tl' have "ta = []" using CoinsIsZero_ok by blast
        with tl' [of d] run pos accr cb nz ta True show ?thesis
          by (auto simp: performSettlementCore_def Let_def acc_def [symmetric] simp del: timeSub_le_0_iff)
      next
        case False
        with run pos accr cb nz ta obtain after where st': "settlementTransfer E st l ta = Ok st'"
          and r: "r = \<lparr>TransferAmounts = ta, AccruedAmounts = acc, CreditBalanceAfter = after\<rparr>"
          by (auto simp: performSettlementCore_def Let_def acc_def [symmetric] simp del: timeSub_le_0_iff)
        from settlementTransfer_law [OF st' tl' [THEN conjunct1] a] tl' [of d] show ?thesis
          unfolding r SettlementResult.select_convs by blast
      qed
    qed
  qed
  show "coins_ok (TransferAmounts r)" by (rule g [THEN conjunct1])
  show "amt (TransferAmounts r) d = due l t (bal E (bank st) a) d"
    by (rule g [THEN conjunct2, THEN conjunct1])
  show "(TransferAmounts r = [] \<and> st' = st) \<or>
      (\<exists>p pa b. GetProvider (sku_keeper st) (lease_ProviderUuid l) = Ok p \<and>
         AccAddressFromBech32 E (PayoutAddress p) = Some pa \<and> st' = st\<lparr>bank := b\<rparr> \<and>
         (\<forall>x d. bal E b x d = bal E (bank st) x d - (if x = a then amt (TransferAmounts r) d else 0)
            + (if x = pa then amt (TransferAmounts r) d else 0)))"
    by (rule g [THEN conjunct2, THEN conjunct2])
qed

end

end
