(* ===== verification/Billing_Keeper.thy ===== *)
theory Billing_Keeper
  imports Settlement
begin

text \<open>
  The keeper of \<open>x/billing\<close> (\<open>keeper.go\<close>): leases and the indexes derived from them,
  credit accounts, lease counts and reservations, the auto-close check, expiry of
  pending leases and the end blocker.  A write into a \<open>CacheContext\<close> that is not
  committed is a computation whose state is dropped with its error.
\<close>

section \<open>Parameters and leases\<close>

definition GetParams :: "'x ledger \<Rightarrow> (billing_error, Params) result" where
  "GetParams st = okOr (lg_Params st) ErrStore"

definition SetParams :: "'x ledger \<Rightarrow> Params \<Rightarrow> 'x ledger" where
  "SetParams st p = st\<lparr>lg_Params := Some p\<rparr>"

definition emit :: "event list \<Rightarrow> 'x ledger \<Rightarrow> 'x ledger" where
  "emit evs st = st\<lparr>events := events st @ evs\<rparr>"

definition GetLease :: "'x ledger \<Rightarrow> string \<Rightarrow> (billing_error, Lease) result" where
  "GetLease st uuid = okOr (kv_get (Leases st) uuid) ErrLeaseNotFound"

definition editable :: "Lease \<Rightarrow> bool" where
  "editable l \<longleftrightarrow> State l = LEASE_STATE_PENDING \<or> State l = LEASE_STATE_ACTIVE"

definition domainsByService :: "LeaseItem list \<Rightarrow> (string, string) kv" where
  \<comment> \<open>the maps \<open>prevByService\<close> and \<open>newByService\<close>\<close>
  "domainsByService items =
     foldl (\<lambda>m i. if CustomDomain i \<noteq> [] then kv_set (ServiceName i) (CustomDomain i) m else m) [] items"

fun releaseLoop ::
  "Lease \<Rightarrow> (string, string) kv \<Rightarrow> (string, CustomDomainTarget) kv \<Rightarrow> (string \<times> string) list
   \<Rightarrow> (string, CustomDomainTarget) kv" where
  "releaseLoop lease newByService idx [] = idx"
| "releaseLoop lease newByService idx ((s, prevDomain) # rest) =
     (if editable lease \<and> kv_get newByService s = Some prevDomain
      then releaseLoop lease newByService idx rest
      else (case kv_get idx prevDomain of
              Some existing \<Rightarrow>
                if tgt_LeaseUuid existing \<noteq> lease_Uuid lease \<or> tgt_ServiceName existing \<noteq> s
                then releaseLoop lease newByService idx rest
                else releaseLoop lease newByService (kv_del prevDomain idx) rest
            | None \<Rightarrow> releaseLoop lease newByService idx rest))"

fun installLoop ::
  "Lease \<Rightarrow> (string, CustomDomainTarget) kv \<Rightarrow> (string \<times> string) list
   \<Rightarrow> (billing_error, (string, CustomDomainTarget) kv) result" where
  "installLoop lease idx [] = Ok idx"
| "installLoop lease idx ((s, newDomain) # rest) =
     (case kv_get idx newDomain of
        Some existing \<Rightarrow>
          if tgt_LeaseUuid existing = lease_Uuid lease \<and> tgt_ServiceName existing = s
          then installLoop lease idx rest
          else Err ErrCustomDomainAlreadyClaimed
      | None \<Rightarrow>
          installLoop lease
            (kv_set newDomain \<lparr>tgt_LeaseUuid = lease_Uuid lease, tgt_ServiceName = s\<rparr> idx) rest)"

definition reconcileCustomDomainIndex ::
  "(string, CustomDomainTarget) kv \<Rightarrow> Lease option \<Rightarrow> Lease
   \<Rightarrow> (billing_error, (string, CustomDomainTarget) kv) result" where
  "reconcileCustomDomainIndex idx prev lease =
     (let prevByService = (case prev of None \<Rightarrow> [] | Some p \<Rightarrow> domainsByService (Items p));
          newByService = domainsByService (Items lease);
          idx' = releaseLoop lease newByService idx prevByService
      in if \<not> editable lease then Ok idx' else installLoop lease idx' newByService)"

definition setSKUIndex :: "Lease \<Rightarrow> (string \<times> string, bool) kv \<Rightarrow> (string \<times> string, bool) kv" where
  "setSKUIndex lease idx = foldl (\<lambda>m i. kv_set (SkuUuid i, lease_Uuid lease) True m) idx (Items lease)"

definition SetLease :: "'x sdk \<Rightarrow> 'x ledger \<Rightarrow> Lease \<Rightarrow> (billing_error, 'x ledger) result" where
  \<comment> \<open>the tenant indexes decode the tenant address\<close>
  "SetLease E st lease =
     (if AccAddressFromBech32 E (Tenant lease) = None then Err ErrStore
      else
        andThen (reconcileCustomDomainIndex (CustomDomainIndex st) (kv_get (Leases st) (lease_Uuid lease)) lease)
          (\<lambda>idx.
        Ok (st\<lparr>Leases := kv_set (lease_Uuid lease) lease (Leases st),
               LeaseBySKUIndex := setSKUIndex lease (LeaseBySKUIndex st),
               CustomDomainIndex := idx\<rparr>)))"

definition GetNextLeaseSequence :: "'x ledger \<Rightarrow> u64 \<times> 'x ledger" where
  "GetNextLeaseSequence st = (LeaseSequence st, st\<lparr>LeaseSequence := LeaseSequence st + 1\<rparr>)"

section \<open>Reading leases through the indexes\<close>

definition tenantAddr :: "'x sdk \<Rightarrow> Lease \<Rightarrow> addr option" where
  "tenantAddr E l = AccAddressFromBech32 E (Tenant l)"

definition leaseIndex :: "(Lease \<Rightarrow> bool) \<Rightarrow> 'x ledger \<Rightarrow> string list" where
  \<comment> \<open>the primary keys an index yields for one reference key, in ascending order\<close>
  "leaseIndex p st = map fst (filter (\<lambda>e. p (snd e)) (Leases st))"

fun collectLeases :: "'x ledger \<Rightarrow> string list \<Rightarrow> (billing_error, Lease list) result" where
  "collectLeases st [] = Ok []"
| "collectLeases st (leaseUUID # rest) =
     andThen (okOr (kv_get (Leases st) leaseUUID) ErrStore) (\<lambda>lease.
     andThen (collectLeases st rest) (\<lambda>leases. Ok (lease # leases)))"

definition GetAllLeases :: "'x ledger \<Rightarrow> Lease list" where
  "GetAllLeases st = map snd (Leases st)"

definition GetLeasesByTenant :: "'x sdk \<Rightarrow> 'x ledger \<Rightarrow> string \<Rightarrow> (billing_error, Lease list) result" where
  "GetLeasesByTenant E st tenant =
     andThen (okOr (AccAddressFromBech32 E tenant) ErrPlain) (\<lambda>a.
     collectLeases st (leaseIndex (\<lambda>l. tenantAddr E l = Some a) st))"

definition maxGetLeasesByProviderUUID :: nat where
  "maxGetLeasesByProviderUUID = 10000"

fun iterateLeases ::
  "'x ledger \<Rightarrow> (Lease \<Rightarrow> 'l \<Rightarrow> (billing_error, bool \<times> 'l) result) \<Rightarrow> 'l \<Rightarrow> string list
   \<Rightarrow> (billing_error, 'l) result" where
  "iterateLeases st cb l [] = Ok l"
| "iterateLeases st cb l (leaseUUID # rest) =
     andThen (okOr (kv_get (Leases st) leaseUUID) ErrStore) (\<lambda>lease.
     andThen (cb lease l) (\<lambda>(stop, l').
     if stop then Ok l' else iterateLeases st cb l' rest))"

definition IterateLeasesByProvider ::
  "'x ledger \<Rightarrow> string \<Rightarrow> (Lease \<Rightarrow> 'l \<Rightarrow> (billing_error, bool \<times> 'l) result) \<Rightarrow> 'l
   \<Rightarrow> (billing_error, 'l) result" where
  "IterateLeasesByProvider st providerUUID cb l =
     iterateLeases st cb l (leaseIndex (\<lambda>x. lease_ProviderUuid x = providerUUID) st)"

definition GetLeasesByProviderUUID :: "'x ledger \<Rightarrow> string \<Rightarrow> (billing_error, Lease list) result" where
  "GetLeasesByProviderUUID st providerUUID =
     IterateLeasesByProvider st providerUUID
       (\<lambda>lease leases. let leases' = leases @ [lease]
          in Ok (length leases' \<ge> maxGetLeasesByProviderUUID, leases')) []"

definition GetLeasesByState :: "'x ledger \<Rightarrow> LeaseState \<Rightarrow> (billing_error, Lease list) result" where
  "GetLeasesByState st state = collectLeases st (leaseIndex (\<lambda>l. State l = state) st)"

definition GetPendingLeases :: "'x ledger \<Rightarrow> (billing_error, Lease list) result" where
  "GetPendingLeases st = GetLeasesByState st LEASE_STATE_PENDING"

definition GetActiveLeases :: "'x ledger \<Rightarrow> (billing_error, Lease list) result" where
  "GetActiveLeases st = GetLeasesByState st LEASE_STATE_ACTIVE"

definition GetLeasesByProviderAndState ::
  "'x ledger \<Rightarrow> string \<Rightarrow> LeaseState \<Rightarrow> (billing_error, Lease list) result" where
  "GetLeasesByProviderAndState st providerUUID state =
     collectLeases st (leaseIndex (\<lambda>l. lease_ProviderUuid l = providerUUID \<and> State l = state) st)"

definition GetPendingLeasesByProvider :: "'x ledger \<Rightarrow> string \<Rightarrow> (billing_error, Lease list) result" where
  "GetPendingLeasesByProvider st providerUUID =
     GetLeasesByProviderAndState st providerUUID LEASE_STATE_PENDING"

definition GetLeasesByTenantAndState ::
  "'x sdk \<Rightarrow> 'x ledger \<Rightarrow> string \<Rightarrow> LeaseState \<Rightarrow> (billing_error, Lease list) result" where
  "GetLeasesByTenantAndState E st tenant state =
     andThen (okOr (AccAddressFromBech32 E tenant) ErrPlain) (\<lambda>a.
     collectLeases st (leaseIndex (\<lambda>l. tenantAddr E l = Some a \<and> State l = state) st))"

definition GetLeasesBySKU :: "'x ledger \<Rightarrow> string \<Rightarrow> (billing_error, Lease list) result" where
  "GetLeasesBySKU st skuUUID =
     collectLeases st (map (snd \<circ> fst) (filter (\<lambda>e. fst (fst e) = skuUUID) (LeaseBySKUIndex st)))"

section \<open>Credit accounts\<close>

definition GetCreditAccount :: "'x sdk \<Rightarrow> 'x ledger \<Rightarrow> string \<Rightarrow> (billing_error, CreditAccount) result" where
  "GetCreditAccount E st tenant =
     andThen (okOr (AccAddressFromBech32 E tenant) ErrCreditAccountNotFound) (\<lambda>a.
     okOr (kv_get (CreditAccounts st) a) ErrCreditAccountNotFound)"

definition SetCreditAccount :: "'x sdk \<Rightarrow> 'x ledger \<Rightarrow> CreditAccount \<Rightarrow> (billing_error, 'x ledger) result" where
  "SetCreditAccount E st ca =
     andThen (okOr (AccAddressFromBech32 E (ca_Tenant ca)) ErrPlain) (\<lambda>a.
     Ok (st\<lparr>CreditAccounts := kv_set a ca (CreditAccounts st),
            CreditAddressIndex := kv_set (DeriveCreditAddress E a) a (CreditAddressIndex st)\<rparr>))"

definition GetAllCreditAccounts :: "'x ledger \<Rightarrow> CreditAccount list" where
  "GetAllCreditAccounts st = map snd (CreditAccounts st)"

definition countLeasesByTenantAndStateScan ::
  "'x sdk \<Rightarrow> 'x ledger \<Rightarrow> string \<Rightarrow> LeaseState \<Rightarrow> (billing_error, u64) result" where
  "countLeasesByTenantAndStateScan E st tenant state =
     andThen (okOr (AccAddressFromBech32 E tenant) ErrPlain) (\<lambda>a.
     Ok (foldl (\<lambda>count _. count + 1) 0
           (leaseIndex (\<lambda>l. tenantAddr E l = Some a \<and> State l = state) st)))"

definition CountActiveLeasesByTenant :: "'x sdk \<Rightarrow> 'x ledger \<Rightarrow> string \<Rightarrow> (billing_error, u64) result" where
  "CountActiveLeasesByTenant E st tenant =
     (case GetCreditAccount E st tenant of
        Ok ca \<Rightarrow> Ok (ActiveLeaseCount ca)
      | Err e \<Rightarrow> if e \<noteq> ErrCreditAccountNotFound then Err e
                 else countLeasesByTenantAndStateScan E st tenant LEASE_STATE_ACTIVE
      | Panic \<Rightarrow> Panic)"

definition CountPendingLeasesByTenant :: "'x sdk \<Rightarrow> 'x ledger \<Rightarrow> string \<Rightarrow> (billing_error, u64) result" where
  "CountPendingLeasesByTenant E st tenant =
     (case GetCreditAccount E st tenant of
        Ok ca \<Rightarrow> Ok (PendingLeaseCount ca)
      | Err e \<Rightarrow> if e \<noteq> ErrCreditAccountNotFound then Err e
                 else countLeasesByTenantAndStateScan E st tenant LEASE_STATE_PENDING
      | Panic \<Rightarrow> Panic)"

definition DecrementActiveLeaseCount :: "CreditAccount \<Rightarrow> CreditAccount" where
  "DecrementActiveLeaseCount ca =
     (if ActiveLeaseCount ca > 0 then ca\<lparr>ActiveLeaseCount := ActiveLeaseCount ca - 1\<rparr> else ca)"

definition DecrementPendingLeaseCount :: "CreditAccount \<Rightarrow> CreditAccount" where
  "DecrementPendingLeaseCount ca =
     (if PendingLeaseCount ca > 0 then ca\<lparr>PendingLeaseCount := PendingLeaseCount ca - 1\<rparr> else ca)"

definition ReleaseLeaseReservation ::
  "'x sdk \<Rightarrow> CreditAccount \<Rightarrow> Lease \<Rightarrow> u64 \<Rightarrow> (billing_error, CreditAccount) result" where
  "ReleaseLeaseReservation E ca lease minLeaseDuration =
     andThen (GetLeaseReservationAmount E lease minLeaseDuration) (\<lambda>reservationAmount.
     andThen (SubtractReservation E (ReservedAmounts ca) reservationAmount) (\<lambda>reserved.
     Ok (ca\<lparr>ReservedAmounts := reserved\<rparr>)))"

definition getRelevantDenomsForTenant ::
  "'x sdk \<Rightarrow> 'x ledger \<Rightarrow> string \<Rightarrow> coins \<Rightarrow> (billing_error, string list) result" where
  "getRelevantDenomsForTenant E st tenant reservedAmounts =
     (let denoms0 = dedup_from [] (map Denom reservedAmounts);
          scan = (\<lambda>a state denoms.
            andThen (collectLeases st
                (take MaxCreditEstimateLeases (leaseIndex (\<lambda>l. tenantAddr E l = Some a \<and> State l = state) st))) (\<lambda>leases.
            Ok (dedup_from denoms (concat (map (\<lambda>l. map (\<lambda>i. Denom (LockedPrice i)) (Items l)) leases)))))
      in andThen (okOr (AccAddressFromBech32 E tenant) ErrPlain) (\<lambda>a.
         andThen (scan a LEASE_STATE_ACTIVE denoms0) (\<lambda>denoms1.
         scan a LEASE_STATE_PENDING denoms1)))"

section \<open>Withdrawable amounts and automatic closing\<close>

fun withdrawableLoop :: "'x sdk \<Rightarrow> coins \<Rightarrow> coins \<Rightarrow> coins \<Rightarrow> (billing_error, coins) result" where
  "withdrawableLoop E creditBalances result [] = Ok result"
| "withdrawableLoop E creditBalances result (accrued # rest) =
     (let balance = CoinsAmountOf E creditBalances (Denom accrued)
      in if balance < Amount accrued
         then (if 0 < balance
               then
                 andThen (must (NewCoin E (Denom accrued) balance)) (\<lambda>c.
                 andThen (must (CoinsAdd E result [c])) (\<lambda>result'.
                 withdrawableLoop E creditBalances result' rest))
               else withdrawableLoop E creditBalances result rest)
         else
           andThen (must (CoinsAdd E result [accrued])) (\<lambda>result'.
           withdrawableLoop E creditBalances result' rest))"

definition withdrawableDuration :: "block_ctx \<Rightarrow> Lease \<Rightarrow> duration option" where
  "withdrawableDuration ctx lease =
     (if State lease = LEASE_STATE_ACTIVE then Some (timeSub (BlockTime ctx) (LastSettledAt lease))
      else map_option (\<lambda>c. timeSub c (LastSettledAt lease)) (ClosedAt lease))"

definition CalculateWithdrawableForLease ::
  "'x sdk \<Rightarrow> block_ctx \<Rightarrow> 'x ledger \<Rightarrow> Lease \<Rightarrow> (billing_error, coins) result" where
  \<comment> \<open>an accrual or balance error is logged and yields no coins\<close>
  "CalculateWithdrawableForLease E ctx st lease =
     (case withdrawableDuration ctx lease of
        None \<Rightarrow> Ok []
      | Some duration \<Rightarrow>
          if duration \<le> 0 then Ok []
          else (case CalculateTotalAccruedForLease E (LeaseItemsToWithPrice (Items lease)) duration of
                  Panic \<Rightarrow> Panic
                | Err _ \<Rightarrow> Ok []
                | Ok accruedAmounts \<Rightarrow>
                    if CoinsIsZero E accruedAmounts then Ok []
                    else (case getCreditBalancesForDenoms E st (Tenant lease) (leaseItemDenoms (Items lease)) of
                            Panic \<Rightarrow> Panic
                          | Err _ \<Rightarrow> Ok []
                          | Ok creditBalances \<Rightarrow> withdrawableLoop E creditBalances [] accruedAmounts)))"

definition ShouldAutoCloseLease ::
  "'x sdk \<Rightarrow> block_ctx \<Rightarrow> 'x ledger \<Rightarrow> Lease \<Rightarrow> (billing_error, bool \<times> time) result" where
  "ShouldAutoCloseLease E ctx st lease =
     (if State lease \<noteq> LEASE_STATE_ACTIVE then Ok (False, zeroTime)
      else
        (let blockTime = BlockTime ctx; duration = timeSub blockTime (LastSettledAt lease)
         in if duration < 0 then Err ErrInvalidLease
            else
              andThen (getCreditBalancesForDenoms E st (Tenant lease) (leaseItemDenoms (Items lease)))
                (\<lambda>creditBalances.
              andThen
                (if duration > 0
                 then (case CalculateTotalAccruedForLease E (LeaseItemsToWithPrice (Items lease)) duration of
                         Panic \<Rightarrow> Panic
                       | Err _ \<Rightarrow> Ok True
                       | Ok accruedAmounts \<Rightarrow>
                           Ok (list_ex (\<lambda>accrued. Amount accrued \<ge>
                                 CoinsAmountOf E creditBalances (Denom accrued)) accruedAmounts))
                 else Ok (list_ex (\<lambda>item. CoinsAmountOf E creditBalances (Denom (LockedPrice item)) = 0)
                           (Items lease)))
                (\<lambda>shouldClose. if \<not> shouldClose then Ok (False, zeroTime) else Ok (True, blockTime)))))"

definition ClosureReasonCreditExhausted :: string where
  "ClosureReasonCreditExhausted = ''credit exhausted''"

definition AutoCloseLease ::
  "'x sdk \<Rightarrow> 'x ledger \<Rightarrow> Lease \<Rightarrow> time \<Rightarrow> u64 \<Rightarrow> (billing_error, 'x ledger \<times> Lease \<times> coins) result" where
  \<comment> \<open>returns the mutated lease and the transferred amounts\<close>
  "AutoCloseLease E st lease closeTime minLeaseDuration =
     andThen (PerformSettlementSilent E st lease closeTime) (\<lambda>(st1, r).
     let lease' = lease\<lparr>State := LEASE_STATE_CLOSED, ClosedAt := Some closeTime,
                        LastSettledAt := closeTime, ClosureReason := ClosureReasonCreditExhausted\<rparr>
     in andThen (SetLease E st1 lease') (\<lambda>st2.
     andThen (GetCreditAccount E st2 (Tenant lease')) (\<lambda>ca.
     andThen (ReleaseLeaseReservation E (DecrementActiveLeaseCount ca) lease' minLeaseDuration) (\<lambda>ca'.
     andThen (SetCreditAccount E st2 ca') (\<lambda>st3.
     Ok (st3, lease', TransferAmounts r))))))"

section \<open>Expiry of pending leases\<close>

definition ExpirePendingLease ::
  "'x sdk \<Rightarrow> block_ctx \<Rightarrow> 'x ledger \<Rightarrow> Lease \<Rightarrow> (billing_error, 'x ledger) result" where
  "ExpirePendingLease E ctx st lease =
     (if State lease \<noteq> LEASE_STATE_PENDING then Err ErrLeaseNotPending
      else
        andThen (GetParams st) (\<lambda>params.
        let lease' = lease\<lparr>State := LEASE_STATE_EXPIRED, ExpiredAt := Some (BlockTime ctx)\<rparr>
        in andThen (SetLease E st lease') (\<lambda>st1.
        andThen (GetCreditAccount E st1 (Tenant lease')) (\<lambda>ca.
        andThen (ReleaseLeaseReservation E (DecrementPendingLeaseCount ca) lease' (MinLeaseDuration params)) (\<lambda>ca'.
        andThen (SetCreditAccount E st1 ca') (\<lambda>st2.
        Ok (emit [Event ''lease_expired''
              [(''lease_uuid'', AStr (lease_Uuid lease')), (''tenant'', AStr (Tenant lease')),
               (''provider_uuid'', AStr (lease_ProviderUuid lease')),
               (''reason'', AStr ''pending_timeout'')]] st2)))))))"

fun collectExpired ::
  "block_ctx \<Rightarrow> duration \<Rightarrow> 'x ledger \<Rightarrow> string list \<Rightarrow> string list \<Rightarrow> string list" where
  \<comment> \<open>the first pass of the end blocker over the pending index\<close>
  "collectExpired ctx pendingTimeout st expiredUUIDs [] = expiredUUIDs"
| "collectExpired ctx pendingTimeout st expiredUUIDs (leaseUUID # rest) =
     (if length expiredUUIDs \<ge> MaxPendingLeaseExpirationsPerBlock then expiredUUIDs
      else (case kv_get (Leases st) leaseUUID of
              None \<Rightarrow> collectExpired ctx pendingTimeout st expiredUUIDs rest
            | Some lease \<Rightarrow>
                if BlockTime ctx > CreatedAt lease + pendingTimeout
                then collectExpired ctx pendingTimeout st (expiredUUIDs @ [leaseUUID]) rest
                else collectExpired ctx pendingTimeout st expiredUUIDs rest))"

fun expireLoop :: "'x sdk \<Rightarrow> block_ctx \<Rightarrow> 'x ledger \<Rightarrow> string list \<Rightarrow> (billing_error, 'x ledger) result" where
  \<comment> \<open>the second pass: a lease that fails to expire is logged and skipped\<close>
  "expireLoop E ctx st [] = Ok st"
| "expireLoop E ctx st (leaseUUID # rest) =
     (case kv_get (Leases st) leaseUUID of
        None \<Rightarrow> expireLoop E ctx st rest
      | Some lease \<Rightarrow>
          (case ExpirePendingLease E ctx st lease of
             Ok st' \<Rightarrow> expireLoop E ctx st' rest
           | Err _ \<Rightarrow> expireLoop E ctx st rest
           | Panic \<Rightarrow> Panic))"

definition EndBlocker :: "'x sdk \<Rightarrow> block_ctx \<Rightarrow> 'x ledger \<Rightarrow> (billing_error, 'x ledger) result" where
  "EndBlocker E ctx st =
     andThen (GetParams st) (\<lambda>params.
     let pendingTimeout = i64 (i64 (uint (PendingTimeout params)) * Second);
         expiredUUIDs = collectExpired ctx pendingTimeout st []
           (leaseIndex (\<lambda>l. State l = LEASE_STATE_PENDING) st)
     in expireLoop E ctx st expiredUUIDs)"

end
