(* ===== verification/Billing_Msgs.thy ===== *)
theory Billing_Msgs
  imports Billing_Keeper
begin

text \<open>
  Custom domains (\<open>custom_domain.go\<close>) and the message server of \<open>x/billing\<close>
  (\<open>msg_server.go\<close>).  Every handler validates first and then applies its changes;
  the changes of a batch are staged and dropped together when one of them fails.
\<close>

section \<open>Custom domains (custom_domain.go)\<close>

definition HasAdminPrivileges :: "'x ledger \<Rightarrow> string \<Rightarrow> (billing_error, string) result" where
  "HasAdminPrivileges st sender =
     (if sender = authority st then Ok ''authority''
      else
        andThen (GetParams st) (\<lambda>params.
        if IsAllowed params sender then Ok ''allowed'' else Ok []))"

definition IsAuthorizedForTenant :: "'x ledger \<Rightarrow> string \<Rightarrow> string \<Rightarrow> (billing_error, string) result" where
  "IsAuthorizedForTenant st sender tenant =
     (if tenant = [] then Err ErrPlain
      else if sender = tenant then Ok ''tenant''
      else HasAdminPrivileges st sender)"

definition GetLeaseByCustomDomain ::
  "'x ledger \<Rightarrow> string \<Rightarrow> (billing_error, (Lease \<times> string) option) result" where
  "GetLeaseByCustomDomain st domain =
     (case kv_get (CustomDomainIndex st) (ToLower (TrimSpace domain)) of
        None \<Rightarrow> Ok None
      | Some target \<Rightarrow>
          andThen (GetLease st (tgt_LeaseUuid target)) (\<lambda>lease. Ok (Some (lease, tgt_ServiceName target))))"

fun findItemLoop :: "string \<Rightarrow> nat \<Rightarrow> nat \<times> nat \<Rightarrow> LeaseItem list \<Rightarrow> nat \<times> nat" where
  \<comment> \<open>the pair \<open>(matches, idx)\<close> over the items from index \<open>i\<close> on\<close>
  "findItemLoop serviceName i acc [] = acc"
| "findItemLoop serviceName i (matches, idx) (item # items) =
     (if ServiceName item = serviceName then findItemLoop serviceName (i + 1) (matches + 1, i) items
      else findItemLoop serviceName (i + 1) (matches, idx) items)"

definition findLeaseItemByServiceName :: "Lease \<Rightarrow> string \<Rightarrow> (billing_error, nat) result" where
  "findLeaseItemByServiceName lease serviceName =
     (if length (Items lease) > 1 \<and> ServiceName (hd (Items lease)) = [] then Err ErrAmbiguousLeaseItem
      else
        (let (matches, idx) = findItemLoop serviceName 0 (0, 0) (Items lease)
         in if matches = 0 then Err ErrLeaseItemNotFound
            else if matches = 1 then Ok idx
            else Err ErrAmbiguousLeaseItem))"

definition setItemDomain :: "Lease \<Rightarrow> nat \<Rightarrow> string \<Rightarrow> Lease" where
  "setItemDomain lease i domain =
     lease\<lparr>Items := (Items lease)[i := (Items lease ! i)\<lparr>CustomDomain := domain\<rparr>]\<rparr>"

definition clearItemDomain ::
  "'x sdk \<Rightarrow> 'x ledger \<Rightarrow> Lease \<Rightarrow> nat \<Rightarrow> string \<Rightarrow> (billing_error, 'x ledger \<times> string) result" where
  "clearItemDomain E st lease itemIdx role =
     (let item = Items lease ! itemIdx; previous = CustomDomain item
      in if previous = [] then Ok (st, role)
         else
           andThen (SetLease E st (setItemDomain lease itemIdx [])) (\<lambda>st'.
           Ok (emit [Event ''lease_custom_domain_cleared''
                 [(''lease_uuid'', AStr (lease_Uuid lease)), (''tenant'', AStr (Tenant lease)),
                  (''service_name'', AStr (ServiceName item)), (''custom_domain'', AStr previous),
                  (''set_by'', AStr role)]] st', role)))"

definition claimItemDomain ::
  "'x sdk \<Rightarrow> 'x ledger \<Rightarrow> Lease \<Rightarrow> nat \<Rightarrow> string \<Rightarrow> string \<Rightarrow> string
   \<Rightarrow> (billing_error, 'x ledger \<times> string) result" where
  "claimItemDomain E st lease itemIdx leaseUUID domain role =
     andThen (orErr (IsValidFQDN domain) ErrInvalidCustomDomain) (\<lambda>_.
     andThen (GetParams st) (\<lambda>params.
     if MatchesReservedSuffix domain (ReservedDomainSuffixes params) then Err ErrInvalidCustomDomain
     else
       (let itemServiceName = ServiceName (Items lease ! itemIdx)
        in case kv_get (CustomDomainIndex st) domain of
             Some target \<Rightarrow>
               if tgt_LeaseUuid target = leaseUUID \<and> tgt_ServiceName target = itemServiceName then Ok (st, role)
               else Err ErrCustomDomainAlreadyClaimed
           | None \<Rightarrow>
               andThen (SetLease E st (setItemDomain lease itemIdx domain)) (\<lambda>st'.
               Ok (emit [Event ''lease_custom_domain_set''
                     [(''lease_uuid'', AStr (lease_Uuid lease)), (''tenant'', AStr (Tenant lease)),
                      (''service_name'', AStr itemServiceName), (''custom_domain'', AStr domain),
                      (''set_by'', AStr role)]] st', role)))))"

definition keeper_SetItemCustomDomain ::
  "'x sdk \<Rightarrow> 'x ledger \<Rightarrow> string \<Rightarrow> string \<Rightarrow> string \<Rightarrow> string \<Rightarrow> (billing_error, 'x ledger \<times> string) result" where
  "keeper_SetItemCustomDomain E st sender leaseUUID serviceName domain =
     andThen (GetLease st leaseUUID) (\<lambda>lease.
     andThen (IsAuthorizedForTenant st sender (Tenant lease)) (\<lambda>role.
     if role = [] then Err ErrUnauthorized
     else if State lease \<noteq> LEASE_STATE_PENDING \<and> State lease \<noteq> LEASE_STATE_ACTIVE then Err ErrLeaseNotEditable
     else
       andThen (findLeaseItemByServiceName lease serviceName) (\<lambda>itemIdx.
       let domain' = ToLower (TrimSpace domain)
       in if domain' = [] then clearItemDomain E st lease itemIdx role
          else claimItemDomain E st lease itemIdx leaseUUID domain' role)))"

section \<open>Funding and parameters\<close>

definition newCreditAccount :: "'x sdk \<Rightarrow> string \<Rightarrow> addr \<Rightarrow> CreditAccount" where
  "newCreditAccount E tenant creditAddr =
     \<lparr>ca_Tenant = tenant, CreditAddress = AccAddressString E creditAddr,
      ActiveLeaseCount = 0, PendingLeaseCount = 0, ReservedAmounts = []\<rparr>"

definition FundCredit ::
  "'x sdk \<Rightarrow> 'x ledger \<Rightarrow> MsgFundCredit \<Rightarrow> (billing_error, 'x ledger \<times> string \<times> coin) result" where
  "FundCredit E st msg =
     andThen (MsgFundCredit_ValidateBasic E msg) (\<lambda>_.
     andThen (okOr (DeriveCreditAddressFromBech32 E (fc_Tenant msg)) ErrPlain) (\<lambda>creditAddr.
     andThen (okOr (AccAddressFromBech32 E (fc_Sender msg)) ErrPlain) (\<lambda>senderAddr.
     andThen (must (NewCoins E [fc_Amount msg])) (\<lambda>amount.
     andThen (okOr (SendCoins E (bank st) senderAddr creditAddr amount) ErrInvalidCreditOperation) (\<lambda>b.
     let st1 = st\<lparr>bank := b\<rparr>
     in andThen (case GetCreditAccount E st1 (fc_Tenant msg) of
            Ok ca \<Rightarrow> Ok (st1, ca)
          | Err e \<Rightarrow>
              if e \<noteq> ErrCreditAccountNotFound then Err ErrInvalidCreditOperation
              else
                Ok (if \<not> HasAccount E b creditAddr then st1\<lparr>bank := RegisterAccount E b creditAddr\<rparr> else st1,
                    newCreditAccount E (fc_Tenant msg) creditAddr)
          | Panic \<Rightarrow> Panic) (\<lambda>(st2, ca).
     andThen (SetCreditAccount E st2 ca) (\<lambda>st3.
     let newBalance = GetBalance E (bank st3) creditAddr (Denom (fc_Amount msg))
     in Ok (emit [Event ''credit_funded''
              [(''tenant'', AStr (fc_Tenant msg)), (''credit_address'', AStr (AccAddressString E creditAddr)),
               (''sender'', AStr (fc_Sender msg)), (''amount'', ACoin (fc_Amount msg)),
               (''new_balance'', ACoin newBalance)]] st3,
            AccAddressString E creditAddr, newBalance))))))))"

definition UpdateParams :: "'x sdk \<Rightarrow> 'x ledger \<Rightarrow> MsgUpdateParams \<Rightarrow> (billing_error, 'x ledger) result" where
  "UpdateParams E st msg =
     andThen (MsgUpdateParams_ValidateBasic E msg) (\<lambda>_.
     if authority st \<noteq> upd_Authority msg then Err ErrUnauthorized
     else Ok (emit [Event ''params_updated'' []] (SetParams st (upd_Params msg))))"

definition SetItemCustomDomain ::
  "'x sdk \<Rightarrow> 'x ledger \<Rightarrow> MsgSetItemCustomDomain \<Rightarrow> (billing_error, 'x ledger) result" where
  "SetItemCustomDomain E st msg =
     andThen (MsgSetItemCustomDomain_ValidateBasic E msg) (\<lambda>_.
     andThen (keeper_SetItemCustomDomain E st (scd_Sender msg) (scd_LeaseUuid msg) (scd_ServiceName msg)
        (scd_CustomDomain msg)) (\<lambda>(st', _). Ok st'))"

section \<open>Lease creation\<close>

record leaseCreationResult =
  lcr_leaseUUID :: string
  lcr_providerUUID :: string
  lcr_itemCount :: nat
  lcr_totalRates :: coins
  lcr_pendingLeases :: u64
  lcr_metaHash :: "byte list"

fun lockItems ::
  "'x sdk \<Rightarrow> sku_state \<Rightarrow> string option \<Rightarrow> LeaseItem list \<Rightarrow> coins \<Rightarrow> LeaseItemInput list
   \<Rightarrow> (billing_error, string option \<times> LeaseItem list \<times> coins) result" where
  \<comment> \<open>step 3 of \<open>createLeaseInternal\<close>; the provider is \<open>None\<close> before the first item\<close>
  "lockItems E sk providerUUID leaseItems totalRates [] = Ok (providerUUID, leaseItems, totalRates)"
| "lockItems E sk providerUUID leaseItems totalRates (inputItem # items) =
     andThen (orErr (GetSKU sk (in_SkuUuid inputItem)) ErrSKUNotFound) (\<lambda>sku.
     if \<not> sku_Active sku then Err ErrSKUNotActive
     else if providerUUID \<noteq> None \<and> providerUUID \<noteq> Some (sku_ProviderUuid sku) then Err ErrMixedProviders
     else
       andThen (orErr (ConvertBasePriceToPerSecond E (BasePrice sku) (sku_Unit sku)) ErrSKUNotFound)
         (\<lambda>lockedPricePerSecond.
       andThen (must (IntMul E (Amount lockedPricePerSecond) (uint (in_Quantity inputItem)))) (\<lambda>rate.
       andThen (must (NewCoin E (Denom lockedPricePerSecond) rate)) (\<lambda>itemRate.
       andThen (must (CoinsAdd E totalRates [itemRate])) (\<lambda>totalRates'.
       lockItems E sk (Some (sku_ProviderUuid sku))
         (leaseItems @ [\<lparr>SkuUuid = in_SkuUuid inputItem, Quantity = in_Quantity inputItem,
            LockedPrice = lockedPricePerSecond, ServiceName = in_ServiceName inputItem, CustomDomain = []\<rparr>])
         totalRates' items)))))"

definition checkTenantLimits ::
  "'x sdk \<Rightarrow> 'x ledger \<Rightarrow> Params \<Rightarrow> string \<Rightarrow> LeaseItemInput list \<Rightarrow> (billing_error, CreditAccount) result" where
  \<comment> \<open>steps 0 and 1 of \<open>createLeaseInternal\<close>\<close>
  "checkTenantLimits E st params tenant items =
     (if of_nat (length items) > MaxItemsPerLease params then Err ErrTooManyLeaseItems
      else
        andThen (orErr (GetCreditAccount E st tenant) ErrCreditAccountNotFound) (\<lambda>creditAccount.
        if ActiveLeaseCount creditAccount \<ge> MaxLeasesPerTenant params then Err ErrMaxLeasesReached
        else if PendingLeaseCount creditAccount \<ge> MaxPendingLeasesPerTenant params
        then Err ErrMaxPendingLeasesReached
        else Ok creditAccount))"

definition reserveCredit ::
  "'x sdk \<Rightarrow> 'x ledger \<Rightarrow> Params \<Rightarrow> string \<Rightarrow> CreditAccount \<Rightarrow> coins \<Rightarrow> (billing_error, CreditAccount) result" where
  \<comment> \<open>step 5 of \<open>createLeaseInternal\<close>\<close>
  "reserveCredit E st params tenant creditAccount totalRates =
     andThen (CalculateLeaseReservationFromRates E totalRates (MinLeaseDuration params)) (\<lambda>reservationAmount.
     andThen (getCreditBalancesForDenoms E st tenant (map Denom totalRates)) (\<lambda>creditBalances.
     andThen (GetAvailableCredit E creditBalances (ReservedAmounts creditAccount)) (\<lambda>availableCredit.
     if list_ex (\<lambda>res. CoinsAmountOf E availableCredit (Denom res) < Amount res) reservationAmount
     then Err ErrInsufficientCredit
     else
       andThen (AddReservation E (ReservedAmounts creditAccount) reservationAmount) (\<lambda>reserved.
       Ok (creditAccount\<lparr>ReservedAmounts := reserved\<rparr>)))))"

definition storeLease ::
  "'x sdk \<Rightarrow> block_ctx \<Rightarrow> 'x ledger \<Rightarrow> Params \<Rightarrow> string \<Rightarrow> string \<Rightarrow> LeaseItem list \<Rightarrow> byte list \<Rightarrow> CreditAccount
   \<Rightarrow> (billing_error, 'x ledger \<times> string \<times> u64) result" where
  \<comment> \<open>steps 6 and 7 of \<open>createLeaseInternal\<close>\<close>
  "storeLease E ctx st params tenant providerUUID leaseItems metaHash creditAccount =
     (let (leaseSeq, st1) = GetNextLeaseSequence st;
          leaseUUID = GenerateUUIDv7 ctx ModuleName leaseSeq;
          lease = \<lparr>lease_Uuid = leaseUUID, Tenant = tenant, lease_ProviderUuid = providerUUID,
            Items = leaseItems, State = LEASE_STATE_PENDING, CreatedAt = BlockTime ctx, ClosedAt = None,
            LastSettledAt = BlockTime ctx, AcknowledgedAt = None, RejectedAt = None, RejectionReason = [],
            ExpiredAt = None, ClosureReason = [], lease_MetaHash = metaHash,
            MinLeaseDurationAtCreation = MinLeaseDuration params\<rparr>
      in andThen (SetLease E st1 lease) (\<lambda>st2.
         let ca = creditAccount\<lparr>PendingLeaseCount := PendingLeaseCount creditAccount + 1\<rparr>
         in andThen (SetCreditAccount E st2 ca) (\<lambda>st3.
         Ok (st3, leaseUUID, PendingLeaseCount ca))))"

definition createLeaseInternal ::
  "'x sdk \<Rightarrow> block_ctx \<Rightarrow> 'x ledger \<Rightarrow> string \<Rightarrow> LeaseItemInput list \<Rightarrow> byte list
   \<Rightarrow> (billing_error, 'x ledger \<times> leaseCreationResult) result" where
  "createLeaseInternal E ctx st tenant items metaHash =
     andThen (GetParams st) (\<lambda>params.
     andThen (checkTenantLimits E st params tenant items) (\<lambda>creditAccount.
     andThen (lockItems E (sku_keeper st) None [] [] items) (\<lambda>(provider, leaseItems, totalRates).
     let providerUUID = (case provider of None \<Rightarrow> [] | Some p \<Rightarrow> p)
     in andThen (orErr (GetProvider (sku_keeper st) providerUUID) ErrProviderNotFound) (\<lambda>p.
     if \<not> provider_Active p then Err ErrProviderNotActive
     else
       andThen (reserveCredit E st params tenant creditAccount totalRates) (\<lambda>creditAccount'.
       andThen (storeLease E ctx st params tenant providerUUID leaseItems metaHash creditAccount')
         (\<lambda>(st', leaseUUID, pending).
       Ok (st', \<lparr>lcr_leaseUUID = leaseUUID, lcr_providerUUID = providerUUID,
                 lcr_itemCount = length leaseItems, lcr_totalRates = totalRates,
                 lcr_pendingLeases = pending, lcr_metaHash = metaHash\<rparr>)))))))"

definition emitLeaseCreatedEvent ::
  "leaseCreationResult \<Rightarrow> string \<Rightarrow> string \<Rightarrow> 'x ledger \<Rightarrow> 'x ledger" where
  "emitLeaseCreatedEvent result tenant createdBy st =
     emit [Event ''lease_created''
       ([(''lease_uuid'', AStr (lcr_leaseUUID result)), (''tenant'', AStr tenant),
         (''provider_uuid'', AStr (lcr_providerUUID result)), (''item_count'', ANat (lcr_itemCount result)),
         (''total_rate_per_second'', ACoins (lcr_totalRates result)),
         (''pending_lease_count'', ANat (unat (lcr_pendingLeases result))), (''created_by'', AStr createdBy)] @
        (if lcr_metaHash result \<noteq> [] then [(''meta_hash'', AHex (lcr_metaHash result))] else []))] st"

definition CreateLease ::
  "'x sdk \<Rightarrow> block_ctx \<Rightarrow> 'x ledger \<Rightarrow> MsgCreateLease \<Rightarrow> (billing_error, 'x ledger \<times> string) result" where
  "CreateLease E ctx st msg =
     andThen (MsgCreateLease_ValidateBasic E msg) (\<lambda>_.
     andThen (createLeaseInternal E ctx st (cl_Tenant msg) (cl_Items msg) (cl_MetaHash msg)) (\<lambda>(st', result).
     Ok (emitLeaseCreatedEvent result (cl_Tenant msg) ''tenant'' st', lcr_leaseUUID result)))"

definition isAuthorizedForTenantLeaseCreation :: "'x ledger \<Rightarrow> string \<Rightarrow> (billing_error, bool) result" where
  "isAuthorizedForTenantLeaseCreation st sender =
     andThen (HasAdminPrivileges st sender) (\<lambda>role. Ok (role \<noteq> []))"

definition CreateLeaseForTenant ::
  "'x sdk \<Rightarrow> block_ctx \<Rightarrow> 'x ledger \<Rightarrow> MsgCreateLeaseForTenant \<Rightarrow> (billing_error, 'x ledger \<times> string) result" where
  "CreateLeaseForTenant E ctx st msg =
     andThen (MsgCreateLeaseForTenant_ValidateBasic E msg) (\<lambda>_.
     andThen (orErr (isAuthorizedForTenantLeaseCreation st (clt_Authority msg)) ErrUnauthorized) (\<lambda>authorized.
     if \<not> authorized then Err ErrUnauthorized
     else
       andThen (createLeaseInternal E ctx st (clt_Tenant msg) (clt_Items msg) (clt_MetaHash msg)) (\<lambda>(st', result).
       Ok (emitLeaseCreatedEvent result (clt_Tenant msg) ''authority'' st', lcr_leaseUUID result))))"

section \<open>Batches of pending leases\<close>

record pendingLeaseBatchResult =
  plb_leases :: "Lease list"
  plb_creditAccounts :: "(string, CreditAccount) kv"
  plb_tenantOrder :: "string list"
  plb_providerUUID :: string

fun validatePendingLoop ::
  "'x sdk \<Rightarrow> 'x ledger \<Rightarrow> pendingLeaseBatchResult \<Rightarrow> string list \<Rightarrow> (billing_error, pendingLeaseBatchResult) result" where
  "validatePendingLoop E st acc [] = Ok acc"
| "validatePendingLoop E st acc (uuid # rest) =
     andThen (orErr (GetLease st uuid) ErrLeaseNotFound) (\<lambda>lease.
     if State lease \<noteq> LEASE_STATE_PENDING then Err ErrLeaseNotPending
     else if plb_providerUUID acc \<noteq> [] \<and> lease_ProviderUuid lease \<noteq> plb_providerUUID acc then Err ErrMixedProviders
     else
       (let acc1 = (if plb_providerUUID acc = [] then acc\<lparr>plb_providerUUID := lease_ProviderUuid lease\<rparr> else acc)
        in andThen
             (if kv_get (plb_creditAccounts acc1) (Tenant lease) \<noteq> None then Ok acc1
              else
                andThen (orErr (GetCreditAccount E st (Tenant lease)) ErrCreditAccountNotFound) (\<lambda>ca.
                Ok (acc1\<lparr>plb_creditAccounts := kv_set (Tenant lease) ca (plb_creditAccounts acc1),
                         plb_tenantOrder := plb_tenantOrder acc1 @ [Tenant lease]\<rparr>))) (\<lambda>acc2.
        validatePendingLoop E st (acc2\<lparr>plb_leases := plb_leases acc2 @ [lease]\<rparr>) rest)))"

definition validatePendingLeaseBatch ::
  "'x sdk \<Rightarrow> 'x ledger \<Rightarrow> string list \<Rightarrow> (billing_error, pendingLeaseBatchResult) result" where
  "validatePendingLeaseBatch E st leaseUuids =
     validatePendingLoop E st \<lparr>plb_leases = [], plb_creditAccounts = [], plb_tenantOrder = [],
       plb_providerUUID = []\<rparr> leaseUuids"

definition validateProviderAuthorization ::
  "'x ledger \<Rightarrow> string \<Rightarrow> string \<Rightarrow> (billing_error, Provider) result" where
  "validateProviderAuthorization st sender providerUUID =
     andThen (orErr (GetProvider (sku_keeper st) providerUUID) ErrProviderNotFound) (\<lambda>provider.
     if sender \<noteq> Address provider \<and> sender \<noteq> authority st then Err ErrUnauthorized else Ok provider)"

definition zeroAccount :: CreditAccount where
  \<comment> \<open>what reading an absent key of the Go map yields\<close>
  "zeroAccount = \<lparr>ca_Tenant = [], CreditAddress = [], ActiveLeaseCount = 0, PendingLeaseCount = 0,
     ReservedAmounts = []\<rparr>"

definition account_of :: "(string, CreditAccount) kv \<Rightarrow> string \<Rightarrow> CreditAccount" where
  "account_of cas tenant = (case kv_get cas tenant of None \<Rightarrow> zeroAccount | Some ca \<Rightarrow> ca)"

fun persistAccounts ::
  "'x sdk \<Rightarrow> 'x ledger \<Rightarrow> (string, CreditAccount) kv \<Rightarrow> string list \<Rightarrow> (billing_error, 'x ledger) result" where
  "persistAccounts E st creditAccounts [] = Ok st"
| "persistAccounts E st creditAccounts (tenant # rest) =
     andThen (SetCreditAccount E st (account_of creditAccounts tenant)) (\<lambda>st'.
     persistAccounts E st' creditAccounts rest)"

fun acknowledgeLoop ::
  "'x sdk \<Rightarrow> time \<Rightarrow> 'x ledger \<Rightarrow> (string, CreditAccount) kv \<Rightarrow> Lease list
   \<Rightarrow> (billing_error, 'x ledger \<times> (string, CreditAccount) kv) result" where
  "acknowledgeLoop E blockTime st creditAccounts [] = Ok (st, creditAccounts)"
| "acknowledgeLoop E blockTime st creditAccounts (lease # leases) =
     (let lease' = lease\<lparr>State := LEASE_STATE_ACTIVE, AcknowledgedAt := Some blockTime, LastSettledAt := blockTime\<rparr>
      in andThen (orErr (SetLease E st lease') ErrInvalidLease) (\<lambda>st'.
         let ca = DecrementPendingLeaseCount (account_of creditAccounts (Tenant lease'));
             ca' = ca\<lparr>ActiveLeaseCount := ActiveLeaseCount ca + 1\<rparr>
         in acknowledgeLoop E blockTime st' (kv_set (Tenant lease') ca' creditAccounts) leases))"

definition AcknowledgeLease ::
  "'x sdk \<Rightarrow> block_ctx \<Rightarrow> 'x ledger \<Rightarrow> MsgAcknowledgeLease \<Rightarrow> (billing_error, 'x ledger \<times> time \<times> nat) result" where
  "AcknowledgeLease E ctx st msg =
     andThen (MsgAcknowledgeLease_ValidateBasic E msg) (\<lambda>_.
     andThen (validatePendingLeaseBatch E st (ack_LeaseUuids msg)) (\<lambda>validated.
     andThen (validateProviderAuthorization st (ack_Sender msg) (plb_providerUUID validated)) (\<lambda>_.
     let leases = plb_leases validated
     in andThen (acknowledgeLoop E (BlockTime ctx) st (plb_creditAccounts validated) leases) (\<lambda>(st1, creditAccounts).
     andThen (persistAccounts E st1 creditAccounts (plb_tenantOrder validated)) (\<lambda>st2.
     Ok (emit (map (\<lambda>l. Event ''lease_acknowledged''
            [(''lease_uuid'', AStr (lease_Uuid l)), (''tenant'', AStr (Tenant l)),
             (''provider_uuid'', AStr (lease_ProviderUuid l)), (''acknowledged_by'', AStr (ack_Sender msg))]) leases @
          (if length leases > 1
           then [Event ''batch_acknowledged''
             [(''lease_count'', ANat (length leases)), (''provider_uuid'', AStr (plb_providerUUID validated)),
              (''acknowledged_by'', AStr (ack_Sender msg))]] else [])) st2,
         BlockTime ctx, length leases))))))"

fun rejectLoop ::
  "'x sdk \<Rightarrow> time \<Rightarrow> string \<Rightarrow> u64 \<Rightarrow> 'x ledger \<Rightarrow> (string, CreditAccount) kv \<Rightarrow> Lease list
   \<Rightarrow> (billing_error, 'x ledger \<times> (string, CreditAccount) kv) result" where
  "rejectLoop E blockTime reason minLeaseDuration st creditAccounts [] = Ok (st, creditAccounts)"
| "rejectLoop E blockTime reason minLeaseDuration st creditAccounts (lease # leases) =
     (let lease' = lease\<lparr>State := LEASE_STATE_REJECTED, RejectedAt := Some blockTime, RejectionReason := reason\<rparr>
      in andThen (orErr (SetLease E st lease') ErrInvalidLease) (\<lambda>st'.
         let ca = DecrementPendingLeaseCount (account_of creditAccounts (Tenant lease'))
         in andThen (ReleaseLeaseReservation E ca lease' minLeaseDuration) (\<lambda>ca'.
            rejectLoop E blockTime reason minLeaseDuration st' (kv_set (Tenant lease') ca' creditAccounts) leases)))"

definition RejectLease ::
  "'x sdk \<Rightarrow> block_ctx \<Rightarrow> 'x ledger \<Rightarrow> MsgRejectLease \<Rightarrow> (billing_error, 'x ledger \<times> time \<times> nat) result" where
  "RejectLease E ctx st msg =
     andThen (MsgRejectLease_ValidateBasic E msg) (\<lambda>_.
     andThen (GetParams st) (\<lambda>params.
     andThen (validatePendingLeaseBatch E st (rej_LeaseUuids msg)) (\<lambda>validated.
     andThen (validateProviderAuthorization st (rej_Sender msg) (plb_providerUUID validated)) (\<lambda>_.
     let leases = plb_leases validated
     in andThen (rejectLoop E (BlockTime ctx) (rej_Reason msg) (MinLeaseDuration params) st
                  (plb_creditAccounts validated) leases) (\<lambda>(st1, creditAccounts).
     andThen (persistAccounts E st1 creditAccounts (plb_tenantOrder validated)) (\<lambda>st2.
     Ok (emit (map (\<lambda>l. Event ''lease_rejected''
            [(''lease_uuid'', AStr (lease_Uuid l)), (''tenant'', AStr (Tenant l)),
             (''provider_uuid'', AStr (lease_ProviderUuid l)), (''rejected_by'', AStr (rej_Sender msg)),
             (''rejection_reason'', AStr (EventAttribute (rej_Reason msg)))]) leases @
          (if length leases > 1
           then [Event ''batch_rejected''
             [(''lease_count'', ANat (length leases)), (''provider_uuid'', AStr (plb_providerUUID validated)),
              (''rejected_by'', AStr (rej_Sender msg))]] else [])) st2,
         BlockTime ctx, length leases)))))))"

fun validateCancelLoop ::
  "'x ledger \<Rightarrow> string \<Rightarrow> Lease list \<Rightarrow> string list \<Rightarrow> (billing_error, Lease list) result" where
  "validateCancelLoop st tenant leases [] = Ok leases"
| "validateCancelLoop st tenant leases (leaseUUID # rest) =
     andThen (GetLease st leaseUUID) (\<lambda>lease.
     if tenant \<noteq> Tenant lease then Err ErrUnauthorized
     else if State lease \<noteq> LEASE_STATE_PENDING then Err ErrLeaseNotPending
     else validateCancelLoop st tenant (leases @ [lease]) rest)"

definition RejectionReasonCancelledByTenant :: string where
  "RejectionReasonCancelledByTenant = ''cancelled by tenant''"

fun cancelLoop ::
  "'x sdk \<Rightarrow> time \<Rightarrow> u64 \<Rightarrow> 'x ledger \<Rightarrow> CreditAccount \<Rightarrow> Lease list
   \<Rightarrow> (billing_error, 'x ledger \<times> CreditAccount) result" where
  "cancelLoop E blockTime minLeaseDuration st creditAccount [] = Ok (st, creditAccount)"
| "cancelLoop E blockTime minLeaseDuration st creditAccount (lease # leases) =
     (let lease' = lease\<lparr>State := LEASE_STATE_REJECTED, RejectedAt := Some blockTime,
                          RejectionReason := RejectionReasonCancelledByTenant\<rparr>
      in andThen (orErr (SetLease E st lease') ErrInvalidLease) (\<lambda>st'.
         andThen (ReleaseLeaseReservation E (DecrementPendingLeaseCount creditAccount) lease' minLeaseDuration) (\<lambda>ca.
         cancelLoop E blockTime minLeaseDuration st' ca leases)))"

definition CancelLease ::
  "'x sdk \<Rightarrow> block_ctx \<Rightarrow> 'x ledger \<Rightarrow> MsgCancelLease \<Rightarrow> (billing_error, 'x ledger \<times> time \<times> nat) result" where
  "CancelLease E ctx st msg =
     andThen (MsgCancelLease_ValidateBasic E msg) (\<lambda>_.
     andThen (GetParams st) (\<lambda>params.
     andThen (validateCancelLoop st (can_Tenant msg) [] (can_LeaseUuids msg)) (\<lambda>leases.
     andThen (orErr (GetCreditAccount E st (can_Tenant msg)) ErrCreditAccountNotFound) (\<lambda>creditAccount.
     andThen (cancelLoop E (BlockTime ctx) (MinLeaseDuration params) st creditAccount leases) (\<lambda>(st1, ca).
     andThen (SetCreditAccount E st1 ca) (\<lambda>st2.
     Ok (emit (map (\<lambda>l. Event ''lease_cancelled''
            [(''lease_uuid'', AStr (lease_Uuid l)), (''tenant'', AStr (Tenant l)),
             (''provider_uuid'', AStr (lease_ProviderUuid l)), (''cancelled_by'', AStr (can_Tenant msg))]) leases @
          (if length leases > 1
           then [Event ''batch_cancelled''
             [(''lease_count'', ANat (length leases)), (''tenant'', AStr (can_Tenant msg)),
              (''cancelled_by'', AStr (can_Tenant msg))]] else [])) st2,
         BlockTime ctx, length leases)))))))"

end
