(* ===== verification/Billing_Payouts.thy ===== *)
theory Billing_Payouts
  imports Billing_Msgs
begin

text \<open>
  The handlers of \<open>msg_server.go\<close> that settle leases, \<open>CloseLease\<close> and \<open>Withdraw\<close>,
  and the dispatch over all messages of the module.
\<close>

section \<open>CloseLease\<close>

record closeBatch =
  cb_leases :: "Lease list"
  cb_creditAccounts :: "(string, CreditAccount) kv"
  cb_tenantOrder :: "string list"
  cb_providerCache :: "(string, string) kv"
  cb_closedBy :: string

definition closeRole ::
  "'x ledger \<Rightarrow> string \<Rightarrow> (string, string) kv \<Rightarrow> Lease \<Rightarrow> (billing_error, string \<times> (string, string) kv) result" where
  \<comment> \<open>the role under which the sender may close the lease (empty when none), and the
      provider cache\<close>
  "closeRole st sender cache lease =
     (let byTenant = (if sender = Tenant lease then ''tenant'' else []);
          leaseClosedBy = (if sender = authority st then ''authority'' else byTenant)
      in if leaseClosedBy \<noteq> [] then Ok (leaseClosedBy, cache)
         else
           andThen
             (case kv_get cache (lease_ProviderUuid lease) of
                Some a \<Rightarrow> Ok (a, cache)
              | None \<Rightarrow>
                  (case GetProvider (sku_keeper st) (lease_ProviderUuid lease) of
                     Ok provider \<Rightarrow> Ok (Address provider, kv_set (lease_ProviderUuid lease) (Address provider) cache)
                   | Err e \<Rightarrow> if e \<noteq> SkuErrProviderNotFound then Err ErrStore else Ok ([], cache)
                   | Panic \<Rightarrow> Panic)) (\<lambda>(providerAddr, cache').
           Ok (if providerAddr \<noteq> [] \<and> sender = providerAddr then ''provider'' else [], cache')))"

fun validateCloseLoop ::
  "'x sdk \<Rightarrow> 'x ledger \<Rightarrow> string \<Rightarrow> closeBatch \<Rightarrow> string list \<Rightarrow> (billing_error, closeBatch) result" where
  \<comment> \<open>phase 1\<close>
  "validateCloseLoop E st sender acc [] = Ok acc"
| "validateCloseLoop E st sender acc (uuid # rest) =
     andThen (orErr (GetLease st uuid) ErrLeaseNotFound) (\<lambda>lease.
     if State lease \<noteq> LEASE_STATE_ACTIVE then Err ErrLeaseNotActive
     else
       andThen (closeRole st sender (cb_providerCache acc) lease) (\<lambda>(leaseClosedBy, cache).
       if leaseClosedBy = [] then Err ErrUnauthorized
       else if sender \<noteq> authority st \<and> cb_closedBy acc \<noteq> [] \<and> cb_closedBy acc \<noteq> leaseClosedBy
       then Err ErrUnauthorized
       else
         (let acc1 = acc\<lparr>cb_providerCache := cache,
                cb_closedBy := (if sender = authority st then ''authority''
                                else if cb_closedBy acc = [] then leaseClosedBy else cb_closedBy acc)\<rparr>
          in andThen
               (if kv_get (cb_creditAccounts acc1) (Tenant lease) \<noteq> None then Ok acc1
                else
                  andThen (orErr (GetCreditAccount E st (Tenant lease)) ErrCreditAccountNotFound) (\<lambda>ca.
                  Ok (acc1\<lparr>cb_creditAccounts := kv_set (Tenant lease) ca (cb_creditAccounts acc1),
                           cb_tenantOrder := cb_tenantOrder acc1 @ [Tenant lease]\<rparr>))) (\<lambda>acc2.
          validateCloseLoop E st sender (acc2\<lparr>cb_leases := cb_leases acc2 @ [lease]\<rparr>) rest))))"

definition settleLease ::
  "'x sdk \<Rightarrow> 'x ledger \<Rightarrow> Lease \<Rightarrow> time \<Rightarrow> (billing_error, 'x ledger \<times> Lease \<times> coins) result" where
  "settleLease E st lease settleTime =
     andThen (PerformSettlement E st lease settleTime) (\<lambda>(st', result).
     Ok (st', lease\<lparr>LastSettledAt := settleTime\<rparr>, TransferAmounts result))"

record closeEvent =
  ev_uuid :: string
  ev_tenant :: string
  ev_providerUUID :: string
  ev_settledAmounts :: coins
  ev_closedBy :: string
  ev_duration :: duration
  ev_activeCount :: u64
  ev_closureReason :: string

definition settleForClose ::
  "'x sdk \<Rightarrow> block_ctx \<Rightarrow> string \<Rightarrow> string \<Rightarrow> 'x ledger \<Rightarrow> Lease
   \<Rightarrow> (billing_error, 'x ledger \<times> Lease \<times> coins \<times> string \<times> duration) result" where
  \<comment> \<open>settle one lease and mark it closed: by exhaustion when its credit runs out, else normally\<close>
  "settleForClose E ctx reason closedBy st lease =
     andThen (ShouldAutoCloseLease E ctx st lease) (\<lambda>(shouldAutoClose, autoCloseTime).
     if shouldAutoClose
     then
       (let closeTime = autoCloseTime; duration = timeSub closeTime (LastSettledAt lease)
        in andThen (PerformSettlementSilent E st lease closeTime) (\<lambda>(st', result).
           Ok (st', lease\<lparr>State := LEASE_STATE_CLOSED, ClosedAt := Some closeTime, LastSettledAt := closeTime,
                          ClosureReason := ClosureReasonCreditExhausted\<rparr>,
               TransferAmounts result, ''credit_exhaustion'', duration)))
     else
       (let closeTime = BlockTime ctx; duration = timeSub closeTime (LastSettledAt lease)
        in andThen (settleLease E st lease closeTime) (\<lambda>(st', lease', settled).
           Ok (st', lease'\<lparr>State := LEASE_STATE_CLOSED, ClosedAt := Some closeTime, ClosureReason := reason\<rparr>,
               settled, closedBy, duration))))"

fun closeLoop ::
  "'x sdk \<Rightarrow> block_ctx \<Rightarrow> string \<Rightarrow> string \<Rightarrow> u64 \<Rightarrow> 'x ledger \<Rightarrow> (string, CreditAccount) kv \<Rightarrow> coins
   \<Rightarrow> closeEvent list \<Rightarrow> Lease list
   \<Rightarrow> (billing_error, 'x ledger \<times> (string, CreditAccount) kv \<times> coins \<times> closeEvent list) result" where
  \<comment> \<open>phase 2\<close>
  "closeLoop E ctx reason closedBy minLeaseDuration st creditAccounts totalAmounts evs [] =
     Ok (st, creditAccounts, totalAmounts, evs)"
| "closeLoop E ctx reason closedBy minLeaseDuration st creditAccounts totalAmounts evs (lease # leases) =
     andThen (settleForClose E ctx reason closedBy st lease) (\<lambda>(st1, lease', settled, leaseClosedBy, duration).
     andThen (orErr (SetLease E st1 lease') ErrInvalidLease) (\<lambda>st2.
     let ca = DecrementActiveLeaseCount (account_of creditAccounts (Tenant lease'))
     in andThen (ReleaseLeaseReservation E ca lease' minLeaseDuration) (\<lambda>ca'.
     andThen (must (CoinsAdd E totalAmounts settled)) (\<lambda>totalAmounts'.
     closeLoop E ctx reason closedBy minLeaseDuration st2 (kv_set (Tenant lease') ca' creditAccounts) totalAmounts'
       (evs @ [\<lparr>ev_uuid = lease_Uuid lease', ev_tenant = Tenant lease', ev_providerUUID = lease_ProviderUuid lease',
                ev_settledAmounts = settled, ev_closedBy = leaseClosedBy, ev_duration = duration,
                ev_activeCount = ActiveLeaseCount ca', ev_closureReason = ClosureReason lease'\<rparr>]) leases))))"

definition closedEvent :: "closeEvent \<Rightarrow> event" where
  "closedEvent ev = Event ''lease_closed''
     ([(''lease_uuid'', AStr (ev_uuid ev)), (''tenant'', AStr (ev_tenant ev)),
       (''provider_uuid'', AStr (ev_providerUUID ev)), (''settled_amounts'', ACoins (ev_settledAmounts ev)),
       (''closed_by'', AStr (ev_closedBy ev)), (''duration_seconds'', AInt (ev_duration ev sdiv Second)),
       (''active_lease_count'', ANat (unat (ev_activeCount ev)))] @
      (if ev_closureReason ev \<noteq> [] then [(''closure_reason'', AStr (EventAttribute (ev_closureReason ev)))] else []))"

definition CloseLease ::
  "'x sdk \<Rightarrow> block_ctx \<Rightarrow> 'x ledger \<Rightarrow> MsgCloseLease \<Rightarrow> (billing_error, 'x ledger \<times> time \<times> nat \<times> coins) result" where
  "CloseLease E ctx st msg =
     andThen (MsgCloseLease_ValidateBasic E msg) (\<lambda>_.
     andThen (GetParams st) (\<lambda>params.
     andThen (validateCloseLoop E st (close_Sender msg) \<lparr>cb_leases = [], cb_creditAccounts = [],
                cb_tenantOrder = [], cb_providerCache = [], cb_closedBy = []\<rparr> (close_LeaseUuids msg)) (\<lambda>batch.
     andThen (closeLoop E ctx (close_Reason msg) (cb_closedBy batch) (MinLeaseDuration params) st
                (cb_creditAccounts batch) [] [] (cb_leases batch)) (\<lambda>(st1, creditAccounts, totalAmounts, evs).
     andThen (persistAccounts E st1 creditAccounts (cb_tenantOrder batch)) (\<lambda>st2.
     Ok (emit (map closedEvent evs @
          (if length (cb_leases batch) > 1
           then [Event ''batch_closed''
             [(''lease_count'', ANat (length (cb_leases batch))), (''closed_by'', AStr (cb_closedBy batch)),
              (''settled_amounts'', ACoins totalAmounts)]] else [])) st2,
         BlockTime ctx, length (cb_leases batch), totalAmounts))))))"

section \<open>Withdraw\<close>

record withdrawResponse =
  wr_TotalAmounts :: coins
  wr_PayoutAddress :: string
  wr_WithdrawalCount :: u64
  wr_HasMore :: bool

fun validateWithdrawLoop ::
  "'x ledger \<Rightarrow> string \<Rightarrow> (string \<times> Provider) option \<Rightarrow> Lease list \<Rightarrow> string list
   \<Rightarrow> (billing_error, (string \<times> Provider) option \<times> Lease list) result" where
  "validateWithdrawLoop st sender prov leases [] = Ok (prov, leases)"
| "validateWithdrawLoop st sender prov leases (leaseUUID # rest) =
     andThen (GetLease st leaseUUID) (\<lambda>lease.
     (case prov of
        None \<Rightarrow>
          andThen (validateProviderAuthorization st sender (lease_ProviderUuid lease)) (\<lambda>provider.
          validateWithdrawLoop st sender (Some (lease_ProviderUuid lease, provider)) (leases @ [lease]) rest)
      | Some (providerUUID, provider) \<Rightarrow>
          if lease_ProviderUuid lease \<noteq> providerUUID then Err ErrInvalidLease
          else validateWithdrawLoop st sender prov (leases @ [lease]) rest))"

definition withdrawSettleTime :: "block_ctx \<Rightarrow> Lease \<Rightarrow> time option" where
  "withdrawSettleTime ctx lease =
     (if State lease = LEASE_STATE_ACTIVE then Some (BlockTime ctx) else ClosedAt lease)"

record withdrawAcc =
  wa_total :: coins
  wa_count :: u64
  wa_autoClosed :: "string list"
  wa_amounts :: "(string, coins) kv"

definition autoClose_check ::
  "'x sdk \<Rightarrow> block_ctx \<Rightarrow> 'x ledger \<Rightarrow> Lease \<Rightarrow> (billing_error, bool \<times> time) result" where
  \<comment> \<open>both withdrawal modes check active leases only\<close>
  "autoClose_check E ctx st lease =
     (if State lease = LEASE_STATE_ACTIVE then ShouldAutoCloseLease E ctx st lease else Ok (False, zeroTime))"

fun withdrawLoop ::
  "'x sdk \<Rightarrow> block_ctx \<Rightarrow> u64 \<Rightarrow> 'x ledger \<Rightarrow> withdrawAcc \<Rightarrow> Lease list
   \<Rightarrow> (billing_error, 'x ledger \<times> withdrawAcc) result" where
  "withdrawLoop E ctx minLeaseDuration st acc [] = Ok (st, acc)"
| "withdrawLoop E ctx minLeaseDuration st acc (lease # leases) =
     andThen (autoClose_check E ctx st lease) (\<lambda>(shouldAutoClose, closeTime).
     if shouldAutoClose
     then
       andThen (AutoCloseLease E st lease closeTime minLeaseDuration) (\<lambda>(st', lease', transfer).
       andThen
         (if \<not> CoinsIsZero E transfer
          then
            andThen (must (CoinsAdd E (wa_total acc) transfer)) (\<lambda>totalAmounts.
            Ok (acc\<lparr>wa_total := totalAmounts, wa_amounts := kv_set (lease_Uuid lease') transfer (wa_amounts acc)\<rparr>))
          else Ok acc) (\<lambda>acc'.
       withdrawLoop E ctx minLeaseDuration st'
         (acc'\<lparr>wa_autoClosed := wa_autoClosed acc' @ [lease_Uuid lease'], wa_count := wa_count acc' + 1\<rparr>) leases))
     else
       (let settleTime = (case withdrawSettleTime ctx lease of None \<Rightarrow> LastSettledAt lease | Some t \<Rightarrow> t)
        in andThen (PerformSettlement E st lease settleTime) (\<lambda>(st', result).
           if CoinsIsZero E (AccruedAmounts result) then withdrawLoop E ctx minLeaseDuration st' acc leases
           else
             andThen (SetLease E st' (lease\<lparr>LastSettledAt := settleTime\<rparr>)) (\<lambda>st''.
             andThen (must (CoinsAdd E (wa_total acc) (TransferAmounts result))) (\<lambda>totalAmounts.
             withdrawLoop E ctx minLeaseDuration st''
               (acc\<lparr>wa_total := totalAmounts, wa_count := wa_count acc + 1,
                    wa_amounts := kv_set (lease_Uuid lease) (TransferAmounts result) (wa_amounts acc)\<rparr>) leases)))))"

definition withdrawEvent :: "Provider \<Rightarrow> withdrawAcc \<Rightarrow> Lease \<Rightarrow> event list" where
  "withdrawEvent provider acc lease =
     (if lease_Uuid lease \<in> set (wa_autoClosed acc)
      then [Event ''provider_withdraw''
              [(''lease_uuid'', AStr (lease_Uuid lease)), (''amount'', AStr ''0''),
               (''provider_uuid'', AStr (lease_ProviderUuid lease)), (''auto_closed'', AStr ''true'')]]
      else (case kv_get (wa_amounts acc) (lease_Uuid lease) of
              Some amounts \<Rightarrow>
                [Event ''provider_withdraw''
                   [(''lease_uuid'', AStr (lease_Uuid lease)), (''amount'', ACoins amounts),
                    (''provider_uuid'', AStr (lease_ProviderUuid lease)),
                    (''payout_address'', AStr (PayoutAddress provider))]]
            | None \<Rightarrow> []))"

definition zeroProvider :: Provider where
  "zeroProvider = \<lparr>provider_Uuid = [], Address = [], PayoutAddress = [], provider_MetaHash = [],
     provider_Active = False, ApiUrl = []\<rparr>"

definition withdrawFromLeases ::
  "'x sdk \<Rightarrow> block_ctx \<Rightarrow> 'x ledger \<Rightarrow> MsgWithdraw \<Rightarrow> (billing_error, 'x ledger \<times> withdrawResponse) result" where
  "withdrawFromLeases E ctx st msg =
     andThen (GetParams st) (\<lambda>params.
     andThen (validateWithdrawLoop st (w_Sender msg) None [] (w_LeaseUuids msg)) (\<lambda>(prov, leases).
     let (providerUUID, provider) = (case prov of None \<Rightarrow> ([], zeroProvider) | Some p \<Rightarrow> p)
     in andThen (withdrawLoop E ctx (MinLeaseDuration params) st
           \<lparr>wa_total = [], wa_count = 0, wa_autoClosed = [], wa_amounts = []\<rparr> leases) (\<lambda>(st', acc).
     if wa_count acc = 0 \<and> wa_autoClosed acc = [] then Err ErrNoWithdrawableAmount
     else
       Ok (emit (concat (map (withdrawEvent provider acc) leases) @
            (if length (w_LeaseUuids msg) > 1
             then [Event ''batch_withdraw''
               [(''lease_count'', ANat (unat (wa_count acc))), (''provider_uuid'', AStr providerUUID),
                (''amount'', ACoins (wa_total acc)), (''payout_address'', AStr (PayoutAddress provider))]]
             else [])) st',
           \<lparr>wr_TotalAmounts = wa_total acc, wr_PayoutAddress = PayoutAddress provider,
            wr_WithdrawalCount = wa_count acc, wr_HasMore = False\<rparr>))))"

fun collectUpTo :: "u64 \<Rightarrow> string list \<Rightarrow> string list \<Rightarrow> string list \<times> bool" where
  \<comment> \<open>the closure \<open>collectLeases\<close>: append keys until the limit is reached\<close>
  "collectUpTo limit leaseUUIDs [] = (leaseUUIDs, False)"
| "collectUpTo limit leaseUUIDs (uuid # rest) =
     (if of_nat (length leaseUUIDs) \<ge> limit then (leaseUUIDs, True)
      else collectUpTo limit (leaseUUIDs @ [uuid]) rest)"

definition collectProviderLeases :: "'x ledger \<Rightarrow> string \<Rightarrow> u64 \<Rightarrow> string list \<times> bool" where
  "collectProviderLeases st providerUUID limit =
     (let idx = (\<lambda>state. leaseIndex (\<lambda>l. lease_ProviderUuid l = providerUUID \<and> State l = state) st);
          (uuids, hasMore) = collectUpTo limit [] (idx LEASE_STATE_ACTIVE)
      in if hasMore then (uuids, True) else collectUpTo limit uuids (idx LEASE_STATE_CLOSED))"

datatype 'x withdrawStep =
    Skipped \<comment> \<open>the staged changes are dropped\<close>
  | Settled "'x ledger" coins
  | AutoClosed "'x ledger" coins

definition withdrawOne ::
  "'x sdk \<Rightarrow> block_ctx \<Rightarrow> u64 \<Rightarrow> 'x ledger \<Rightarrow> Lease \<Rightarrow> (billing_error, 'x withdrawStep) result" where
  \<comment> \<open>the body of the provider-wide loop; an error is logged and the lease skipped\<close>
  "withdrawOne E ctx minLeaseDuration st lease =
     andThen (autoClose_check E ctx st lease) (\<lambda>(shouldAutoClose, closeTime).
     if shouldAutoClose
     then
       andThen (AutoCloseLease E st lease closeTime minLeaseDuration) (\<lambda>(st', lease', transfer).
       Ok (AutoClosed (emit [Event ''lease_auto_closed''
             [(''lease_uuid'', AStr (lease_Uuid lease')), (''tenant'', AStr (Tenant lease')),
              (''provider_uuid'', AStr (lease_ProviderUuid lease')),
              (''reason'', AStr ''credit_exhausted'')]] st') transfer))
     else (case withdrawSettleTime ctx lease of
             None \<Rightarrow> Ok Skipped
           | Some settleTime \<Rightarrow>
               if \<not> settleTime > LastSettledAt lease then Ok Skipped
               else
                 andThen (PerformSettlementSilent E st lease settleTime) (\<lambda>(st', result).
                 if CoinsIsZero E (TransferAmounts result) then Ok Skipped
                 else
                   andThen (SetLease E st' (lease\<lparr>LastSettledAt := settleTime\<rparr>)) (\<lambda>st''.
                   Ok (Settled st'' (TransferAmounts result))))))"

fun providerLoop ::
  "'x sdk \<Rightarrow> block_ctx \<Rightarrow> u64 \<Rightarrow> 'x ledger \<Rightarrow> coins \<Rightarrow> u64 \<Rightarrow> u64 \<Rightarrow> string list
   \<Rightarrow> (billing_error, 'x ledger \<times> coins \<times> u64 \<times> u64) result" where
  "providerLoop E ctx minLeaseDuration st totalAmounts count autoClosedCount [] = Ok (st, totalAmounts, count, autoClosedCount)"
| "providerLoop E ctx minLeaseDuration st totalAmounts count autoClosedCount (leaseUUID # rest) =
     (case GetLease st leaseUUID of
        Panic \<Rightarrow> Panic
      | Err _ \<Rightarrow> providerLoop E ctx minLeaseDuration st totalAmounts count autoClosedCount rest
      | Ok lease \<Rightarrow>
          (case withdrawOne E ctx minLeaseDuration st lease of
             Panic \<Rightarrow> Panic
           | Err _ \<Rightarrow> providerLoop E ctx minLeaseDuration st totalAmounts count autoClosedCount rest
           | Ok Skipped \<Rightarrow> providerLoop E ctx minLeaseDuration st totalAmounts count autoClosedCount rest
           | Ok (Settled st' transfer) \<Rightarrow>
               andThen (must (CoinsAdd E totalAmounts transfer)) (\<lambda>totalAmounts'.
               providerLoop E ctx minLeaseDuration st' totalAmounts' (count + 1) autoClosedCount rest)
           | Ok (AutoClosed st' transfer) \<Rightarrow>
               andThen (if \<not> CoinsIsZero E transfer then must (CoinsAdd E totalAmounts transfer) else Ok totalAmounts) (\<lambda>totalAmounts'.
               providerLoop E ctx minLeaseDuration st' totalAmounts' (count + 1) (autoClosedCount + 1) rest)))"

definition withdrawFromProvider ::
  "'x sdk \<Rightarrow> block_ctx \<Rightarrow> 'x ledger \<Rightarrow> MsgWithdraw \<Rightarrow> (billing_error, 'x ledger \<times> withdrawResponse) result" where
  "withdrawFromProvider E ctx st msg =
     andThen (GetParams st) (\<lambda>params.
     andThen (validateProviderAuthorization st (w_Sender msg) (w_ProviderUuid msg)) (\<lambda>provider.
     let limit = (if w_Limit msg = 0 then DefaultProviderWithdrawLimit else w_Limit msg);
         (leaseUUIDs, hasMore) = collectProviderLeases st (w_ProviderUuid msg) limit
     in andThen (providerLoop E ctx (MinLeaseDuration params) st [] 0 0 leaseUUIDs)
          (\<lambda>(st', totalAmounts, count, autoClosedCount).
     Ok (emit [Event ''batch_withdraw''
           [(''provider_uuid'', AStr (w_ProviderUuid msg)), (''amount'', ACoins totalAmounts),
            (''lease_count'', ANat (unat count)), (''payout_address'', AStr (PayoutAddress provider)),
            (''auto_closed'', ANat (unat autoClosedCount))]] st',
         \<lparr>wr_TotalAmounts = totalAmounts, wr_PayoutAddress = PayoutAddress provider,
          wr_WithdrawalCount = count, wr_HasMore = hasMore\<rparr>))))"

definition Withdraw ::
  "'x sdk \<Rightarrow> block_ctx \<Rightarrow> 'x ledger \<Rightarrow> MsgWithdraw \<Rightarrow> (billing_error, 'x ledger \<times> withdrawResponse) result" where
  "Withdraw E ctx st msg =
     andThen (MsgWithdraw_ValidateBasic E msg) (\<lambda>_.
     if w_ProviderUuid msg \<noteq> [] then withdrawFromProvider E ctx st msg
     else withdrawFromLeases E ctx st msg)"

section \<open>Dispatch\<close>

datatype billing_msg =
    FundCreditMsg MsgFundCredit | CreateLeaseMsg MsgCreateLease
  | CreateLeaseForTenantMsg MsgCreateLeaseForTenant | CloseLeaseMsg MsgCloseLease
  | WithdrawMsg MsgWithdraw | UpdateParamsMsg MsgUpdateParams | AcknowledgeLeaseMsg MsgAcknowledgeLease
  | RejectLeaseMsg MsgRejectLease | CancelLeaseMsg MsgCancelLease
  | SetItemCustomDomainMsg MsgSetItemCustomDomain

datatype billing_resp =
    FundResp string coin | LeaseResp string | CloseResp time nat coins
  | WithdrawResp withdrawResponse | BatchResp time nat | NoResp

fun billing_handle :: "'x sdk \<Rightarrow> (block_ctx, 'x ledger, billing_msg, billing_error, billing_resp) server" where
  "billing_handle E ctx st (FundCreditMsg m) =
     andThen (FundCredit E st m) (\<lambda>(st', a, b). Ok (st', FundResp a b))"
| "billing_handle E ctx st (CreateLeaseMsg m) =
     andThen (CreateLease E ctx st m) (\<lambda>(st', u). Ok (st', LeaseResp u))"
| "billing_handle E ctx st (CreateLeaseForTenantMsg m) =
     andThen (CreateLeaseForTenant E ctx st m) (\<lambda>(st', u). Ok (st', LeaseResp u))"
| "billing_handle E ctx st (CloseLeaseMsg m) =
     andThen (CloseLease E ctx st m) (\<lambda>(st', t, n, cs). Ok (st', CloseResp t n cs))"
| "billing_handle E ctx st (WithdrawMsg m) =
     andThen (Withdraw E ctx st m) (\<lambda>(st', r). Ok (st', WithdrawResp r))"
| "billing_handle E ctx st (UpdateParamsMsg m) =
     andThen (UpdateParams E st m) (\<lambda>st'. Ok (st', NoResp))"
| "billing_handle E ctx st (AcknowledgeLeaseMsg m) =
     andThen (AcknowledgeLease E ctx st m) (\<lambda>(st', t, n). Ok (st', BatchResp t n))"
| "billing_handle E ctx st (RejectLeaseMsg m) =
     andThen (RejectLease E ctx st m) (\<lambda>(st', t, n). Ok (st', BatchResp t n))"
| "billing_handle E ctx st (CancelLeaseMsg m) =
     andThen (CancelLease E ctx st m) (\<lambda>(st', t, n). Ok (st', BatchResp t n))"
| "billing_handle E ctx st (SetItemCustomDomainMsg m) =
     andThen (SetItemCustomDomain E st m) (\<lambda>st'. Ok (st', NoResp))"

end
