(* ===== verification/Accounts_Inv.thy ===== *)
theory Accounts_Inv
  imports Billing_Payouts
begin

text \<open>
  The bookkeeping invariant of the credit accounts: what an account records
  (reserved amounts, active and pending lease counts) is what the stored leases of
  its tenant add up to.  The operations on leases are proved to keep it one lease
  at a time; the handlers follow.
\<close>

section \<open>What the leases of a tenant add up to\<close>

definition hw :: "'x sdk \<Rightarrow> addr \<Rightarrow> string \<Rightarrow> Lease \<Rightarrow> int" where
  "hw E a d l = (if tenantAddr E l = Some a \<and> live (State l) then reservation 0 d l else 0)"

definition aw :: "'x sdk \<Rightarrow> addr \<Rightarrow> Lease \<Rightarrow> int" where
  "aw E a l = (if tenantAddr E l = Some a \<and> State l = LEASE_STATE_ACTIVE then 1 else 0)"

definition pw :: "'x sdk \<Rightarrow> addr \<Rightarrow> Lease \<Rightarrow> int" where
  "pw E a l = (if tenantAddr E l = Some a \<and> State l = LEASE_STATE_PENDING then 1 else 0)"

definition held :: "'x sdk \<Rightarrow> (string, Lease) kv \<Rightarrow> addr \<Rightarrow> string \<Rightarrow> int" where
  \<comment> \<open>the credit the live leases of \<open>a\<close> reserve in a denom\<close>
  "held E L a d = kv_sum (hw E a d) L"

definition actives :: "'x sdk \<Rightarrow> (string, Lease) kv \<Rightarrow> addr \<Rightarrow> int" where
  "actives E L a = kv_sum (aw E a) L"

definition pendings :: "'x sdk \<Rightarrow> (string, Lease) kv \<Rightarrow> addr \<Rightarrow> int" where
  "pendings E L a = kv_sum (pw E a) L"

definition lease_wf :: "'x sdk \<Rightarrow> string \<Rightarrow> Lease \<Rightarrow> bool" where
  "lease_wf E u l \<longleftrightarrow> lease_Uuid l = u \<and>
     (\<exists>a \<in> set_option (tenantAddr E l). Tenant l = AccAddressString E a) \<and>
     list_all (\<lambda>i. 0 \<le> Amount (LockedPrice i)) (Items l) \<and>
     (live (State l) \<longrightarrow> MinLeaseDurationAtCreation l \<noteq> 0)"

definition leases_wf :: "'x sdk \<Rightarrow> (string, Lease) kv \<Rightarrow> bool" where
  "leases_wf E L \<longleftrightarrow> kv_ok L \<and> kv_all (lease_wf E) L \<and> length L < 2 ^ 64"

definition account_matches :: "'x sdk \<Rightarrow> (string, Lease) kv \<Rightarrow> addr \<Rightarrow> CreditAccount \<Rightarrow> bool" where
  "account_matches E L a ca \<longleftrightarrow>
     AccAddressFromBech32 E (ca_Tenant ca) = Some a \<and> coins_ok (ReservedAmounts ca) \<and>
     (\<forall>d. amt (ReservedAmounts ca) d = held E L a d) \<and>
     uint (ActiveLeaseCount ca) = actives E L a \<and>
     uint (PendingLeaseCount ca) = pendings E L a"

definition same_book :: "Lease \<Rightarrow> Lease \<Rightarrow> bool" where
  \<comment> \<open>two versions of a lease that reserve the same when live\<close>
  "same_book l l' \<longleftrightarrow> Tenant l' = Tenant l \<and> map LockedPrice (Items l') = map LockedPrice (Items l) \<and>
     map Quantity (Items l') = map Quantity (Items l) \<and>
     MinLeaseDurationAtCreation l' = MinLeaseDurationAtCreation l"

lemma same_book_refl [simp]: "same_book l l"
  by (simp add: same_book_def)

lemma items_rate_zip:
  "items_rate is d = (\<Sum>(p, q)\<leftarrow>zip (map LockedPrice is) (map Quantity is).
     if Denom p = d then Amount p * uint q else 0)"
  by (induction "is") simp_all

lemma items_rate_cong:
  "map LockedPrice is' = map LockedPrice is \<Longrightarrow> map Quantity is' = map Quantity is \<Longrightarrow>
   items_rate is' d = items_rate is d"
  by (simp add: items_rate_zip)

lemma same_book_weights:
  assumes "same_book l l'"
  shows "tenantAddr E l' = tenantAddr E l" and "reservation fb d l' = reservation fb d l"
  using assms items_rate_cong [of "Items l'" "Items l" d]
  by (simp_all add: same_book_def tenantAddr_def reservation_def reserved_duration_def)

lemma reservation_fallback:
  "MinLeaseDurationAtCreation l \<noteq> 0 \<Longrightarrow> reservation fb d l = reservation 0 d l"
  by (simp add: reservation_def reserved_duration_def)

lemma lease_wf_prices: "lease_wf E u l \<Longrightarrow> prices_nn (Items l)"
  by (simp add: lease_wf_def prices_nn_def list_all_iff)

lemma reservation_nonneg: "lease_wf E u l \<Longrightarrow> 0 \<le> reservation fb d l"
  by (simp add: reservation_def items_rate_nonneg [OF lease_wf_prices])

lemma hw_nonneg: "lease_wf E u l \<Longrightarrow> 0 \<le> hw E a d l"
  by (simp add: hw_def reservation_nonneg)

lemma weights_le:
  assumes "leases_wf E L" and "kv_get L u = Some l"
  shows "hw E a d l \<le> held E L a d" and "aw E a l \<le> actives E L a" and "pw E a l \<le> pendings E L a"
proof -
  have "kv_all (\<lambda>_ l. 0 \<le> hw E a d l) L"
    using assms(1) by (auto simp: leases_wf_def kv_all_def dest!: hw_nonneg [of E _ _ a d])
  then show "hw E a d l \<le> held E L a d"
    unfolding held_def using assms(2) by (rule kv_sum_mono_all)
  show "aw E a l \<le> actives E L a"
    unfolding actives_def using assms(2) by (intro kv_sum_mono_all) (auto simp: kv_all_def aw_def)
  show "pw E a l \<le> pendings E L a"
    unfolding pendings_def using assms(2) by (intro kv_sum_mono_all) (auto simp: kv_all_def pw_def)
qed

lemma kv_sum_count_le: "(\<And>v. f v \<le> (1::int)) \<Longrightarrow> kv_sum f m \<le> int (length m)"
proof (induction m)
  case (Cons e m)
  obtain k v where e: "e = (k, v)" by fastforce
  have "kv_sum f m \<le> int (length m)" and "f v \<le> 1" using Cons by auto
  then show ?case unfolding e by simp
qed simp

lemma counts_bound:
  "actives E L a \<le> int (length L)" "pendings E L a \<le> int (length L)"
  unfolding actives_def pendings_def by (rule kv_sum_count_le; simp add: aw_def pw_def)+

text \<open>One write of a lease changes the sums by the difference of its weights.\<close>

lemma sums_set:
  assumes "kv_ok L" and "kv_get L u = Some l"
  shows "held E (kv_set u l' L) a d = held E L a d - hw E a d l + hw E a d l'"
    and "actives E (kv_set u l' L) a = actives E L a - aw E a l + aw E a l'"
    and "pendings E (kv_set u l' L) a = pendings E L a - pw E a l + pw E a l'"
  using assms by (simp_all add: held_def actives_def pendings_def kv_sum_set_old)

lemma sums_new:
  assumes "kv_ok L" and "kv_get L u = None"
  shows "held E (kv_set u l' L) a d = held E L a d + hw E a d l'"
    and "actives E (kv_set u l' L) a = actives E L a + aw E a l'"
    and "pendings E (kv_set u l' L) a = pendings E L a + pw E a l'"
  using assms by (simp_all add: held_def actives_def pendings_def kv_sum_set_old)

lemma matches_cong:
  assumes "account_matches E L a ca" and "\<And>d. held E L' a d = held E L a d"
    and "actives E L' a = actives E L a" and "pendings E L' a = pendings E L a"
  shows "account_matches E L' a ca"
  using assms by (simp add: account_matches_def)

lemma matches_other:
  assumes "kv_ok L" and "kv_get L u = Some l" and "same_book l l'" and "tenantAddr E l \<noteq> Some a"
    and "account_matches E L a ca"
  shows "account_matches E (kv_set u l' L) a ca"
  using assms(5)
  by (rule matches_cong)
    (simp_all add: sums_set [OF assms(1,2)] hw_def aw_def pw_def same_book_weights [OF assms(3)] assms(4))

lemma matches_keep:
  assumes "kv_ok L" and "kv_get L u = Some l" and "same_book l l'" and "State l' = State l"
    and "account_matches E L a ca"
  shows "account_matches E (kv_set u l' L) a ca"
  using assms(5)
  by (rule matches_cong)
    (simp_all add: sums_set [OF assms(1,2)] hw_def aw_def pw_def same_book_weights [OF assms(3)] assms(4))

lemma dec_pos: "1 \<le> uint x \<Longrightarrow> x > 0 \<and> uint (x - 1) = uint x - 1" for x :: u64
proof -
  assume n: "1 \<le> uint x"
  then have pos: "0 < x" by (simp add: word_less_def)
  from unat_minus1 [OF this] have "int (unat (x - 1)) = int (unat x - 1)" by simp
  moreover have "1 \<le> unat x" using pos by (simp add: word_less_nat_alt Suc_leI)
  ultimately have "int (unat (x - 1)) = int (unat x) - 1" by (simp only: of_nat_diff of_nat_1)
  with pos show ?thesis by simp
qed

lemma Decrement_sel [simp]:
  "ca_Tenant (DecrementActiveLeaseCount ca) = ca_Tenant ca"
  "ReservedAmounts (DecrementActiveLeaseCount ca) = ReservedAmounts ca"
  "PendingLeaseCount (DecrementActiveLeaseCount ca) = PendingLeaseCount ca"
  "ca_Tenant (DecrementPendingLeaseCount ca) = ca_Tenant ca"
  "ReservedAmounts (DecrementPendingLeaseCount ca) = ReservedAmounts ca"
  "ActiveLeaseCount (DecrementPendingLeaseCount ca) = ActiveLeaseCount ca"
  by (simp_all add: DecrementActiveLeaseCount_def DecrementPendingLeaseCount_def)

lemma Decrement_count:
  "1 \<le> uint (ActiveLeaseCount ca) \<Longrightarrow>
   uint (ActiveLeaseCount (DecrementActiveLeaseCount ca)) = uint (ActiveLeaseCount ca) - 1"
  "1 \<le> uint (PendingLeaseCount ca) \<Longrightarrow>
   uint (PendingLeaseCount (DecrementPendingLeaseCount ca)) = uint (PendingLeaseCount ca) - 1"
  using dec_pos by (simp_all add: DecrementActiveLeaseCount_def DecrementPendingLeaseCount_def)

lemma wf_get: "leases_wf E L \<Longrightarrow> kv_get L u = Some l \<Longrightarrow> lease_wf E u l"
  by (auto simp: leases_wf_def intro: kv_all_get)

lemma wf_ok: "leases_wf E L \<Longrightarrow> kv_ok L"
  by (simp add: leases_wf_def)

context sdk_laws
begin

lemma Release_law:
  assumes "ReleaseLeaseReservation E ca l md = Ok ca'" and "coins_ok (ReservedAmounts ca)"
  shows "\<exists>r. ca' = ca\<lparr>ReservedAmounts := r\<rparr> \<and> coins_ok r \<and>
     (\<forall>d. amt r d = max 0 (amt (ReservedAmounts ca) d - reservation md d l))"
proof -
  from assms obtain x r where x: "GetLeaseReservationAmount E l md = Ok x"
    and r: "SubtractReservation E (ReservedAmounts ca) x = Ok r" and ca': "ca' = ca\<lparr>ReservedAmounts := r\<rparr>"
    by (auto simp: ReleaseLeaseReservation_def)
  note xl = GetLeaseReservationAmount_law [OF x]
  from SubtractReservation_law [OF r assms(2) xl [THEN conjunct1]] xl ca' show ?thesis by auto
qed

lemma release_amount:
  assumes "leases_wf E L" and "kv_get L u = Some l" and "tenantAddr E l = Some a" and "live (State l)"
    and "same_book l l'"
  shows "reservation md d l' = hw E a d l" and "hw E a d l \<le> held E L a d"
proof -
  have "MinLeaseDurationAtCreation l \<noteq> 0"
    using wf_get [OF assms(1,2)] assms(4) by (simp add: lease_wf_def)
  then show "reservation md d l' = hw E a d l"
    using assms(3,4) same_book_weights(2) [OF assms(5)] by (simp add: hw_def reservation_fallback [of l md])
  show "hw E a d l \<le> held E L a d" by (rule weights_le [OF assms(1,2)])
qed

lemma matches_release_pending:
  assumes wf: "leases_wf E L" and l: "kv_get L u = Some l" "State l = LEASE_STATE_PENDING" "tenantAddr E l = Some a"
    and l': "same_book l l'" "\<not> live (State l')" and m: "account_matches E L a ca"
    and r: "ReleaseLeaseReservation E (DecrementPendingLeaseCount ca) l' md = Ok ca'"
  shows "account_matches E (kv_set u l' L) a ca'"
proof -
  have lv: "live (State l)" using l(2) by simp
  have p: "pw E a l = 1" and n: "1 \<le> pendings E L a"
    using l weights_le(3) [OF wf l(1), of a] by (simp_all add: pw_def)
  have z: "hw E a d l' = 0" "aw E a l' = 0" "pw E a l' = 0" "aw E a l = 0" for d
    using l'(2) l(2) by (auto simp: hw_def aw_def pw_def)
  from Release_law [OF r] m obtain x where x: "ca' = (DecrementPendingLeaseCount ca)\<lparr>ReservedAmounts := x\<rparr>"
    "coins_ok x" "\<And>d. amt x d = max 0 (amt (ReservedAmounts ca) d - reservation md d l')"
    by (auto simp: account_matches_def)
  have "amt x d = held E L a d - hw E a d l" for d
    using x(3) [of d] m release_amount(1) [OF wf l(1,3) lv l'(1), of md d] release_amount(2) [OF wf l(1,3) lv l'(1), of d]
    by (simp add: account_matches_def)
  with x m p z n Decrement_count(2) [of ca] show ?thesis
    by (simp add: account_matches_def sums_set [OF wf_ok [OF wf] l(1)])
qed

lemma matches_release_active:
  assumes wf: "leases_wf E L" and l: "kv_get L u = Some l" "State l = LEASE_STATE_ACTIVE" "tenantAddr E l = Some a"
    and l': "same_book l l'" "\<not> live (State l')" and m: "account_matches E L a ca"
    and r: "ReleaseLeaseReservation E (DecrementActiveLeaseCount ca) l' md = Ok ca'"
  shows "account_matches E (kv_set u l' L) a ca'"
proof -
  have lv: "live (State l)" using l(2) by simp
  have p: "aw E a l = 1" and n: "1 \<le> actives E L a"
    using l weights_le(2) [OF wf l(1), of a] by (simp_all add: aw_def)
  have z: "hw E a d l' = 0" "aw E a l' = 0" "pw E a l' = 0" "pw E a l = 0" for d
    using l'(2) l(2) by (auto simp: hw_def aw_def pw_def)
  from Release_law [OF r] m obtain x where x: "ca' = (DecrementActiveLeaseCount ca)\<lparr>ReservedAmounts := x\<rparr>"
    "coins_ok x" "\<And>d. amt x d = max 0 (amt (ReservedAmounts ca) d - reservation md d l')"
    by (auto simp: account_matches_def)
  have "amt x d = held E L a d - hw E a d l" for d
    using x(3) [of d] m release_amount(1) [OF wf l(1,3) lv l'(1), of md d] release_amount(2) [OF wf l(1,3) lv l'(1), of d]
    by (simp add: account_matches_def)
  with x m p z n Decrement_count(1) [of ca] show ?thesis
    by (simp add: account_matches_def sums_set [OF wf_ok [OF wf] l(1)])
qed

end

lemma inc_count: "uint x < 2 ^ 64 - 1 \<Longrightarrow> uint (x + 1) = uint x + 1" for x :: u64
proof -
  assume "uint x < 2 ^ 64 - 1"
  then have "int (unat x + 1) < int (2 ^ 64)" by simp
  then have "unat x + 1 < 2 ^ 64" by (simp only: of_nat_less_iff)
  from unat_plus1 [OF this] have "int (unat (x + 1)) = int (unat x) + 1" by simp
  then show ?thesis by simp
qed

lemma active_room:
  assumes "leases_wf E L" and "kv_get L u = Some l" and "State l \<noteq> LEASE_STATE_ACTIVE"
  shows "actives E L a < 2 ^ 64 - 1"
proof -
  have ok: "kv_ok L" using assms(1) by (rule wf_ok)
  have "kv_sum (\<lambda>l. 1 - aw E a l) L \<ge> 1"
  proof -
    have "1 - aw E a l \<le> kv_sum (\<lambda>l. 1 - aw E a l) L"
      using assms(2) by (intro kv_sum_mono_all) (auto simp: kv_all_def aw_def)
    with assms(3) show ?thesis by (simp add: aw_def)
  qed
  moreover have "kv_sum (\<lambda>l. 1 - aw E a l) m = int (length m) - kv_sum (aw E a) m" for m :: "(string, Lease) kv"
    by (induction m) auto
  ultimately show ?thesis using assms(1) by (simp add: leases_wf_def actives_def)
qed

lemma matches_ack:
  assumes wf: "leases_wf E L" and l: "kv_get L u = Some l" "State l = LEASE_STATE_PENDING" "tenantAddr E l = Some a"
    and l': "same_book l l'" "State l' = LEASE_STATE_ACTIVE" and m: "account_matches E L a ca"
    and c: "c = DecrementPendingLeaseCount ca" and ca': "ca' = c\<lparr>ActiveLeaseCount := ActiveLeaseCount c + 1\<rparr>"
  shows "account_matches E (kv_set u l' L) a ca'"
proof -
  have w: "pw E a l = 1" "aw E a l = 0" "aw E a l' = 1" "pw E a l' = 0" "hw E a d l' = hw E a d l" for d
    using l l' by (simp_all add: pw_def aw_def hw_def same_book_weights [OF l'(1)])
  then have n: "1 \<le> pendings E L a" using weights_le(3) [OF wf l(1), of a] by simp
  have act: "actives E L a < 2 ^ 64 - 1" using active_room [OF wf l(1)] l(2) by simp
  show ?thesis
    using m w n Decrement_count(2) [of ca] inc_count [of "ActiveLeaseCount ca"] act
    by (simp add: account_matches_def sums_set [OF wf_ok [OF wf] l(1)] c ca')
qed

lemma matches_create:
  assumes ok: "kv_ok L" and l: "kv_get L u = None" "State l = LEASE_STATE_PENDING" "tenantAddr E l = Some a"
    and m: "account_matches E L a ca" and lim: "PendingLeaseCount ca < mx"
    and r: "coins_ok r" "\<And>d. amt r d = amt (ReservedAmounts ca) d + reservation 0 d l"
    and ca': "ca' = ca\<lparr>ReservedAmounts := r, PendingLeaseCount := PendingLeaseCount ca + 1\<rparr>"
  shows "account_matches E (kv_set u l L) a ca'"
proof -
  have "uint (PendingLeaseCount ca) < uint mx" using lim by (simp add: word_less_def)
  then have room: "uint (PendingLeaseCount ca) < 2 ^ 64 - 1"
    using unsigned_less [of mx, where 'a = int] by simp
  show ?thesis
    using m r l inc_count [OF room]
    by (simp add: account_matches_def sums_new [OF ok l(1)] ca' hw_def aw_def pw_def)
qed

lemma matches_new_other:
  assumes "kv_ok L" and "kv_get L u = None" and "tenantAddr E l \<noteq> Some a" and "account_matches E L a ca"
  shows "account_matches E (kv_set u l L) a ca"
  using assms(4)
  by (rule matches_cong) (simp_all add: sums_new [OF assms(1,2)] hw_def aw_def pw_def assms(3))

section \<open>The invariant on the ledger\<close>

definition live_has_account :: "'x sdk \<Rightarrow> 'x ledger \<Rightarrow> Lease \<Rightarrow> bool" where
  "live_has_account E st l \<longleftrightarrow>
     (live (State l) \<longrightarrow> (\<exists>a \<in> set_option (tenantAddr E l). kv_get (CreditAccounts st) a \<noteq> None))"

definition encodable :: "'x sdk \<Rightarrow> addr \<Rightarrow> CreditAccount \<Rightarrow> bool" where
  "encodable E a ca \<longleftrightarrow> AccAddressFromBech32 E (AccAddressString E a) = Some a"

definition cached_ok :: "'x sdk \<Rightarrow> (string, Lease) kv \<Rightarrow> string \<Rightarrow> CreditAccount \<Rightarrow> bool" where
  "cached_ok E L t ca \<longleftrightarrow>
     (\<exists>a \<in> set_option (AccAddressFromBech32 E t). t = AccAddressString E a \<and> account_matches E L a ca)"

definition batch_inv :: "'x sdk \<Rightarrow> string set \<Rightarrow> (string, CreditAccount) kv \<Rightarrow> 'x ledger \<Rightarrow> bool" where
  \<comment> \<open>the invariant while a batch holds the accounts \<open>cas\<close> in memory: those match the
      leases, and so do the stored ones except at the tenants \<open>K\<close> still to be written\<close>
  "batch_inv E K cas st \<longleftrightarrow> leases_wf E (Leases st) \<and> kv_ok (CreditAccounts st) \<and>
     kv_all (encodable E) (CreditAccounts st) \<and>
     kv_all (\<lambda>_. live_has_account E st) (Leases st) \<and> kv_ok cas \<and>
     kv_all (cached_ok E (Leases st)) cas \<and>
     kv_all (\<lambda>a ca. AccAddressString E a \<notin> K \<longrightarrow> account_matches E (Leases st) a ca) (CreditAccounts st)"

definition accounts_inv :: "'x sdk \<Rightarrow> 'x ledger \<Rightarrow> bool" where
  "accounts_inv E st \<longleftrightarrow> leases_wf E (Leases st) \<and> kv_ok (CreditAccounts st) \<and>
     kv_all (encodable E) (CreditAccounts st) \<and>
     kv_all (\<lambda>_. live_has_account E st) (Leases st) \<and>
     kv_all (account_matches E (Leases st)) (CreditAccounts st)"

lemma accounts_batch: "accounts_inv E st \<longleftrightarrow> batch_inv E {} [] st"
  by (simp add: accounts_inv_def batch_inv_def)

lemma SetLease_sel:
  assumes "SetLease E st l = Ok st'"
  shows "Leases st' = kv_set (lease_Uuid l) l (Leases st)" "CreditAccounts st' = CreditAccounts st"
    "lg_Params st' = lg_Params st" "sku_keeper st' = sku_keeper st" "bank st' = bank st"
    "authority st' = authority st" "LeaseSequence st' = LeaseSequence st" "events st' = events st"
    "CreditAddressIndex st' = CreditAddressIndex st"
  using assms by (auto simp: SetLease_def split: if_splits)

lemma SetCreditAccount_sel:
  assumes "SetCreditAccount E st ca = Ok st'"
  shows "\<exists>a. AccAddressFromBech32 E (ca_Tenant ca) = Some a \<and>
     st' = st\<lparr>CreditAccounts := kv_set a ca (CreditAccounts st),
              CreditAddressIndex := kv_set (DeriveCreditAddress E a) a (CreditAddressIndex st)\<rparr>"
  using assms by (auto simp: SetCreditAccount_def)

lemma GetCreditAccount_sel:
  "GetCreditAccount E st t = Ok ca \<longleftrightarrow>
     (\<exists>a. AccAddressFromBech32 E t = Some a \<and> kv_get (CreditAccounts st) a = Some ca)"
  by (auto simp: GetCreditAccount_def)

lemma emit_ledger [simp]:
  "Leases (emit evs st) = Leases st" "CreditAccounts (emit evs st) = CreditAccounts st"
  "lg_Params (emit evs st) = lg_Params st" "sku_keeper (emit evs st) = sku_keeper st"
  "bank (emit evs st) = bank st" "authority (emit evs st) = authority st"
  "CustomDomainIndex (emit evs st) = CustomDomainIndex st"
  "LeaseSequence (emit evs st) = LeaseSequence st"
  by (simp_all add: emit_def)

lemma batch_inv_cong:
  "Leases st' = Leases st \<Longrightarrow> CreditAccounts st' = CreditAccounts st \<Longrightarrow>
   batch_inv E K cas st' = batch_inv E K cas st"
  by (simp add: batch_inv_def live_has_account_def [abs_def])

lemma settle_frame:
  assumes "performSettlementCore E st l t silent = Ok (st', r)"
  shows "\<exists>b. st' = st\<lparr>bank := b\<rparr>"
proof -
  have refl: "\<exists>b. st = st\<lparr>bank := b\<rparr>" by (rule exI [of _ "bank st"]) simp
  show ?thesis
    using assms refl
    by (auto simp: performSettlementCore_def Let_def settlementTransfer_def simp del: timeSub_le_0_iff
        split: if_split_asm)
qed

lemma list_all_prices:
  "list_all (\<lambda>i. 0 \<le> Amount (LockedPrice i)) is = list_all (\<lambda>p. 0 \<le> Amount p) (map LockedPrice is)"
  by (simp add: list_all_iff)

lemma same_book_wf:
  assumes "lease_wf E u l" and "same_book l l'" and "lease_Uuid l' = u" and "live (State l') \<longrightarrow> live (State l)"
  shows "lease_wf E u l'"
  using assms by (auto simp: lease_wf_def same_book_def tenantAddr_def list_all_prices)

lemma length_kv_set: "kv_get m k \<noteq> None \<Longrightarrow> length (kv_set k v m) = length m \<or> \<not> kv_ok m"
  by (cases "kv_ok m") (simp_all add: kv_set_map)

lemma leases_wf_set:
  assumes "leases_wf E L" and "kv_get L u = Some l" and "same_book l l'" and "lease_Uuid l' = u"
    and "live (State l') \<longrightarrow> live (State l)"
  shows "leases_wf E (kv_set u l' L)"
  using assms same_book_wf [OF wf_get [OF assms(1,2)] assms(3-5)] length_kv_set [of L u l']
  by (auto simp: leases_wf_def intro!: kv_all_set)

text \<open>One lease moves on; the account of its tenant is updated in memory.\<close>

lemma batch_step:
  assumes inv: "batch_inv E K cas st" and l: "kv_get (Leases st) u = Some l" "tenantAddr E l = Some a"
    and l': "same_book l l'" "lease_Uuid l' = u" "live (State l') \<longrightarrow> live (State l)"
    and st': "Leases st' = kv_set u l' (Leases st)" "CreditAccounts st' = CreditAccounts st"
    and m: "account_matches E (kv_set u l' (Leases st)) a ca'" and K: "Tenant l \<in> K"
  shows "batch_inv E K (kv_set (Tenant l) ca' cas) st'"
proof -
  have wf: "leases_wf E (Leases st)" using inv by (simp add: batch_inv_def)
  note ok = wf_ok [OF wf]
  have t: "Tenant l = AccAddressString E a" "AccAddressFromBech32 E (Tenant l) = Some a"
    using wf_get [OF wf l(1)] l(2) by (auto simp: lease_wf_def tenantAddr_def)
  have la: "kv_all (\<lambda>_. live_has_account E st') (Leases st')"
    using inv l l' unfolding st'(1)
    by (intro kv_all_set) (auto simp: batch_inv_def live_has_account_def [abs_def] st'(2)
        same_book_weights(1) [OF l'(1)] dest: kv_all_get)
  have other: "account_matches E (Leases st') b ca" if "account_matches E (Leases st) b ca" "b \<noteq> a" for b ca
    unfolding st'(1) using that l(2) by (intro matches_other [OF ok l(1) l'(1)]) auto
  have "cached_ok E (Leases st') t ca" if "cached_ok E (Leases st) t ca" "t \<noteq> Tenant l" for t ca
    using that other t by (fastforce simp: cached_ok_def)
  moreover have "cached_ok E (Leases st') (Tenant l) ca'"
    using m t by (simp add: cached_ok_def st'(1))
  ultimately have cas: "kv_all (cached_ok E (Leases st')) (kv_set (Tenant l) ca' cas)"
    using inv by (auto simp: batch_inv_def kv_all_set_iff elim: kv_all_mono)
  have acc: "kv_all (\<lambda>a ca. AccAddressString E a \<notin> K \<longrightarrow> account_matches E (Leases st') a ca) (CreditAccounts st')"
    using inv K t other unfolding st'(2) batch_inv_def kv_all_def by metis
  show ?thesis
    using la cas acc inv leases_wf_set [OF wf l(1) l'] by (simp add: batch_inv_def st')
qed

lemma batch_load:
  assumes inv: "batch_inv E K cas st" and t: "AccAddressFromBech32 E t = Some a" "t = AccAddressString E a"
    and new: "t \<notin> K" and ca: "GetCreditAccount E st t = Ok ca"
  shows "batch_inv E (insert t K) (kv_set t ca cas) st"
proof -
  from ca t(1) have "kv_get (CreditAccounts st) a = Some ca" by (simp add: GetCreditAccount_sel)
  then have "cached_ok E (Leases st) t ca"
    using inv t new kv_all_get [of "\<lambda>a ca. AccAddressString E a \<notin> K \<longrightarrow> account_matches E (Leases st) a ca"
        "CreditAccounts st" a ca]
    by (auto simp: batch_inv_def cached_ok_def)
  moreover have "kv_all (\<lambda>a ca. AccAddressString E a \<notin> insert t K \<longrightarrow> account_matches E (Leases st) a ca)
      (CreditAccounts st)"
    using inv by (auto simp: batch_inv_def kv_all_def)
  ultimately show ?thesis using inv by (simp add: batch_inv_def kv_all_set)
qed

lemma persist_step:
  assumes inv: "batch_inv E K cas st" and ca: "kv_get cas t = Some ca"
    and run: "SetCreditAccount E st ca = Ok st'"
  shows "batch_inv E (K - {t}) cas st'"
proof -
  have "cached_ok E (Leases st) t ca"
    using inv ca by (auto simp: batch_inv_def intro: kv_all_get)
  then obtain a where a: "AccAddressFromBech32 E t = Some a" "t = AccAddressString E a"
    "account_matches E (Leases st) a ca" by (auto simp: cached_ok_def)
  with SetCreditAccount_sel [OF run] have st': "Leases st' = Leases st"
    "CreditAccounts st' = kv_set a ca (CreditAccounts st)"
    by (auto simp: account_matches_def)
  have la: "kv_all (\<lambda>_. live_has_account E st') (Leases st)"
    using inv by (auto simp: batch_inv_def live_has_account_def st' elim!: kv_all_mono)
  have "kv_all (encodable E) (kv_set a ca (CreditAccounts st))"
    using inv a by (intro kv_all_set) (auto simp: batch_inv_def encodable_def)
  moreover have "account_matches E (Leases st) b c"
    if "kv_get (CreditAccounts st) b = Some c" "b \<noteq> a" "AccAddressString E b \<notin> K - {t}" for b c
  proof -
    have "encodable E b c" using inv that(1) by (auto simp: batch_inv_def intro: kv_all_get)
    with that(2) a have "AccAddressString E b \<noteq> t" by (auto simp: encodable_def)
    with that inv show ?thesis
      using kv_all_get [of "\<lambda>a ca. AccAddressString E a \<notin> K \<longrightarrow> account_matches E (Leases st) a ca"
        "CreditAccounts st" b c] by (auto simp: batch_inv_def)
  qed
  then have "kv_all (\<lambda>b c. AccAddressString E b \<notin> K - {t} \<longrightarrow> account_matches E (Leases st) b c)
      (kv_set a ca (CreditAccounts st))"
    using inv a(3) by (auto simp: batch_inv_def kv_all_iff)
  ultimately show ?thesis using inv la by (simp add: batch_inv_def st')
qed

lemma batch_mono: "batch_inv E K cas st \<Longrightarrow> K \<subseteq> K' \<Longrightarrow> batch_inv E K' cas st"
  by (auto simp: batch_inv_def kv_all_def)

lemma persist_all:
  assumes "batch_inv E K cas st" and "\<forall>t \<in> set order. kv_get cas t \<noteq> None"
    and "persistAccounts E st cas order = Ok st'"
  shows "batch_inv E (K - set order) cas st'"
  using assms
proof (induction order arbitrary: st K)
  case (Cons t order)
  then obtain ca where ca: "kv_get cas t = Some ca" by auto
  with Cons.prems obtain st1 where st1: "SetCreditAccount E st ca = Ok st1"
    and rest: "persistAccounts E st1 cas order = Ok st'" by (auto simp: account_of_def)
  from Cons.IH [OF persist_step [OF Cons.prems(1) ca st1] _ rest] Cons.prems(2) show ?case
    by (simp add: Diff_insert2 [symmetric])
qed simp

lemma batch_done: "batch_inv E {} cas st \<Longrightarrow> accounts_inv E st"
  by (auto simp: batch_inv_def accounts_inv_def)

text \<open>A lease and the account of its tenant change together.\<close>

lemma accounts_step:
  assumes inv: "accounts_inv E st" and l: "kv_get (Leases st) u = Some l" "tenantAddr E l = Some a"
    and l': "same_book l l'" "lease_Uuid l' = u" "live (State l') \<longrightarrow> live (State l)"
    and st1: "Leases st1 = kv_set u l' (Leases st)" "CreditAccounts st1 = CreditAccounts st"
    and m: "account_matches E (kv_set u l' (Leases st)) a ca'"
    and run: "SetCreditAccount E st1 ca' = Ok st'"
  shows "accounts_inv E st'"
proof -
  have "batch_inv E {Tenant l} [] st"
    using inv by (auto simp: accounts_batch intro: batch_mono)
  from batch_step [OF this l l' st1 m] have "batch_inv E {Tenant l} [(Tenant l, ca')] st1" by simp
  from persist_step [OF this _ run, of "Tenant l"] show ?thesis
    by (auto simp: kv_get_Cons intro: batch_done)
qed

text \<open>Settlement moves only \<open>LastSettledAt\<close>.\<close>

lemma accounts_keep:
  assumes inv: "accounts_inv E st" and l: "kv_get (Leases st) u = Some l"
    and l': "same_book l l'" "lease_Uuid l' = u" "State l' = State l"
    and st': "Leases st' = kv_set u l' (Leases st)" "CreditAccounts st' = CreditAccounts st"
  shows "accounts_inv E st'"
proof -
  have wf: "leases_wf E (Leases st)" using inv by (simp add: accounts_inv_def)
  have "leases_wf E (Leases st')" unfolding st'(1) using l'(3) by (intro leases_wf_set [OF wf l l'(1,2)]) simp
  moreover have "kv_all (\<lambda>_. live_has_account E st') (Leases st')"
    using inv l l' unfolding st'(1)
    by (intro kv_all_set) (auto simp: accounts_inv_def live_has_account_def [abs_def] st'(2)
        same_book_weights(1) [OF l'(1)] dest: kv_all_get)
  moreover have "kv_all (account_matches E (Leases st')) (CreditAccounts st')"
  proof -
    have "kv_all (account_matches E (Leases st)) (CreditAccounts st)"
      using inv by (simp add: accounts_inv_def)
    then show ?thesis
      unfolding st' by (rule kv_all_mono) (rule matches_keep [OF wf_ok [OF wf] l l'(1,3)])
  qed
  ultimately show ?thesis using inv by (simp add: accounts_inv_def st'(2))
qed

lemma accounts_cong:
  "Leases st' = Leases st \<Longrightarrow> CreditAccounts st' = CreditAccounts st \<Longrightarrow> accounts_inv E st' = accounts_inv E st"
  by (simp add: accounts_inv_def live_has_account_def [abs_def])

lemma accounts_frame [simp]:
  "accounts_inv E (st\<lparr>bank := b\<rparr>) = accounts_inv E st"
  "accounts_inv E (emit evs st) = accounts_inv E st"
  "accounts_inv E (st\<lparr>lg_Params := p\<rparr>) = accounts_inv E st"
  "accounts_inv E (st\<lparr>LeaseSequence := n\<rparr>) = accounts_inv E st"
  "accounts_inv E (st\<lparr>sku_keeper := sk\<rparr>) = accounts_inv E st"
  by (rule accounts_cong; simp)+

end
