(* ===== verification/Handlers_Inv.thy ===== *)
theory Handlers_Inv
  imports Accounts_Inv
begin

text \<open>
  Every operation of the billing module that changes state keeps the bookkeeping
  invariant of the credit accounts.
\<close>

section \<open>Single leases\<close>

lemma inv_get:
  assumes "accounts_inv E st" and "kv_get (Leases st) u = Some l"
  shows "lease_wf E u l" and "lease_Uuid l = u"
    and "\<exists>a. tenantAddr E l = Some a \<and> Tenant l = AccAddressString E a"
  using wf_get [OF _ assms(2), of E] assms(1) by (auto simp: accounts_inv_def lease_wf_def)

lemma inv_account:
  "accounts_inv E st \<Longrightarrow> kv_get (CreditAccounts st) a = Some ca \<Longrightarrow> account_matches E (Leases st) a ca"
  by (auto simp: accounts_inv_def intro: kv_all_get)

lemma inv_wf: "accounts_inv E st \<Longrightarrow> leases_wf E (Leases st)"
  by (simp add: accounts_inv_def)

lemma settled_inv:
  assumes "performSettlementCore E st l t silent = Ok (st', r)"
  shows "accounts_inv E' st' = accounts_inv E' st" and "Leases st' = Leases st"
    and "CreditAccounts st' = CreditAccounts st" and "lg_Params st' = lg_Params st"
    and "sku_keeper st' = sku_keeper st" and "authority st' = authority st"
    and "CustomDomainIndex st' = CustomDomainIndex st" and "LeaseSequence st' = LeaseSequence st"
  using settle_frame [OF assms] by auto

context sdk_laws
begin

lemma AutoCloseLease_accounts:
  assumes run: "AutoCloseLease E st l t md = Ok (st', l', cs)" and inv: "accounts_inv E st"
    and l: "kv_get (Leases st) u = Some l" "State l = LEASE_STATE_ACTIVE"
  shows "accounts_inv E st'"
proof -
  let ?l = "l\<lparr>State := LEASE_STATE_CLOSED, ClosedAt := Some t, LastSettledAt := t,
     ClosureReason := ClosureReasonCreditExhausted\<rparr>"
  from run obtain st1 r st2 ca ca' where s: "performSettlementCore E st l t True = Ok (st1, r)"
    and st2: "SetLease E st1 ?l = Ok st2" and ca: "GetCreditAccount E st2 (Tenant l) = Ok ca"
    and ca': "ReleaseLeaseReservation E (DecrementActiveLeaseCount ca) ?l md = Ok ca'"
    and st3: "SetCreditAccount E st2 ca' = Ok st'"
    by (auto simp: AutoCloseLease_def PerformSettlementSilent_def Let_def)
  note g = inv_get [OF inv l(1)] and si = settled_inv [OF s]
  from g(3) obtain a where a: "tenantAddr E l = Some a" by auto
  note sl = SetLease_sel [OF st2]
  have "account_matches E (Leases st) a ca"
    using ca a inv si by (intro inv_account) (auto simp: GetCreditAccount_sel tenantAddr_def sl)
  then have "account_matches E (kv_set u ?l (Leases st)) a ca'"
    using matches_release_active [OF inv_wf [OF inv] l a _ _ _ ca'] by (simp add: same_book_def)
  with st3 show ?thesis
    by (intro accounts_step [OF inv l(1) a, of ?l st2 ca']) (simp_all add: same_book_def g(2) sl si)
qed

lemma ExpirePendingLease_accounts:
  assumes run: "ExpirePendingLease E ctx st l = Ok st'" and inv: "accounts_inv E st"
    and l: "kv_get (Leases st) u = Some l"
  shows "accounts_inv E st'"
proof -
  let ?l = "l\<lparr>State := LEASE_STATE_EXPIRED, ExpiredAt := Some (BlockTime ctx)\<rparr>"
  from run obtain p :: Params and st2 ca ca' st3 evs where pend: "State l = LEASE_STATE_PENDING"
    and st2: "SetLease E st ?l = Ok st2" and ca: "GetCreditAccount E st2 (Tenant l) = Ok ca"
    and ca': "ReleaseLeaseReservation E (DecrementPendingLeaseCount ca) ?l (MinLeaseDuration p) = Ok ca'"
    and st3: "SetCreditAccount E st2 ca' = Ok st3" and st': "st' = emit evs st3"
    by (auto simp: ExpirePendingLease_def Let_def split: if_splits)
  note g = inv_get [OF inv l]
  from g(3) obtain a where a: "tenantAddr E l = Some a" by auto
  note sl = SetLease_sel [OF st2]
  have "account_matches E (Leases st) a ca"
    using ca a inv by (intro inv_account) (auto simp: GetCreditAccount_sel tenantAddr_def sl)
  then have "account_matches E (kv_set u ?l (Leases st)) a ca'"
    using matches_release_pending [OF inv_wf [OF inv] l pend a _ _ _ ca'] by (simp add: same_book_def)
  with st3 show ?thesis unfolding st' accounts_frame
    by (intro accounts_step [OF inv l a, of ?l st2 ca']) (simp_all add: same_book_def g(2) sl)
qed

lemma expireLoop_accounts:
  "expireLoop E ctx st us = Ok st' \<Longrightarrow> accounts_inv E st \<Longrightarrow> accounts_inv E st'"
  by (induction us arbitrary: st)
    (auto split: option.splits result.splits dest: ExpirePendingLease_accounts)

lemma EndBlocker_accounts:
  "EndBlocker E ctx st = Ok st' \<Longrightarrow> accounts_inv E st \<Longrightarrow> accounts_inv E st'"
  by (auto simp: EndBlocker_def Let_def dest: expireLoop_accounts)

lemma setItemDomain_book: "same_book l (setItemDomain l i d)"
proof (cases "i < length (Items l)")
  case True
  then show ?thesis
    by (simp add: same_book_def setItemDomain_def map_update list_update_same_conv)
qed (simp add: same_book_def setItemDomain_def list_update_beyond)

lemma SetItemCustomDomain_accounts:
  assumes run: "SetItemCustomDomain E st msg = Ok st'" and inv: "accounts_inv E st"
  shows "accounts_inv E st'"
proof -
  from run obtain r0 where k: "keeper_SetItemCustomDomain E st (scd_Sender msg) (scd_LeaseUuid msg)
      (scd_ServiceName msg) (scd_CustomDomain msg) = Ok (st', r0)"
    by (auto simp: SetItemCustomDomain_def)
  then obtain l role i d where l: "kv_get (Leases st) (scd_LeaseUuid msg) = Some l"
    and r: "clearItemDomain E st l i role = Ok (st', r0) \<or>
      claimItemDomain E st l i (scd_LeaseUuid msg) d role = Ok (st', r0)"
    by (auto simp: keeper_SetItemCustomDomain_def GetLease_def Let_def split: if_split_asm)
  have keep: "accounts_inv E st1" if "SetLease E st (setItemDomain l i d) = Ok st1" for st1 d
    using SetLease_sel [OF that] inv_get(2) [OF inv l]
    by (intro accounts_keep [OF inv l setItemDomain_book]) (simp_all add: setItemDomain_def)
  from r show ?thesis
  proof
    assume "clearItemDomain E st l i role = Ok (st', r0)"
    with inv keep show ?thesis by (auto simp: clearItemDomain_def Let_def split: if_split_asm)
  next
    assume "claimItemDomain E st l i (scd_LeaseUuid msg) d role = Ok (st', r0)"
    with inv keep show ?thesis
      by (auto simp: claimItemDomain_def Let_def split: if_split_asm option.splits)
  qed
qed

lemma UpdateParams_accounts:
  "UpdateParams E st msg = Ok st' \<Longrightarrow> accounts_inv E st \<Longrightarrow> accounts_inv E st'"
  by (auto simp: UpdateParams_def SetParams_def split: if_splits)

lemma kv_sum_all_zero: "kv_all (\<lambda>_ v. f v = 0) m \<Longrightarrow> kv_sum f m = 0"
  by (rule kv_sum_zero) (auto simp: kv_all_def)

lemma no_account_no_leases:
  assumes "accounts_inv E st" and "kv_get (CreditAccounts st) a = None"
  shows "held E (Leases st) a d = 0" "actives E (Leases st) a = 0" "pendings E (Leases st) a = 0"
proof -
  have "kv_all (\<lambda>_ l. tenantAddr E l = Some a \<longrightarrow> \<not> live (State l)) (Leases st)"
    using assms by (auto simp: accounts_inv_def live_has_account_def kv_all_def)
  then have "kv_all (\<lambda>_ l. hw E a d l = 0 \<and> aw E a l = 0 \<and> pw E a l = 0) (Leases st)"
    by (rule kv_all_mono) (auto simp: hw_def aw_def pw_def)
  then show "held E (Leases st) a d = 0" "actives E (Leases st) a = 0" "pendings E (Leases st) a = 0"
    unfolding held_def actives_def pendings_def by (auto intro!: kv_sum_all_zero simp: kv_all_def)
qed

lemma put_account:
  assumes inv: "accounts_inv E st" and m: "account_matches E (Leases st) a ca"
    and st': "Leases st' = Leases st" "CreditAccounts st' = kv_set a ca (CreditAccounts st)"
  shows "accounts_inv E st'"
proof -
  have "encodable E a ca" using m by (auto simp: account_matches_def encodable_def intro: bech32_reencode)
  then show ?thesis
    using inv m by (auto simp: accounts_inv_def st' live_has_account_def kv_all_set elim!: kv_all_mono)
qed

lemma FundCredit_accounts:
  assumes run: "FundCredit E st msg = Ok (st', addr, b)" and inv: "accounts_inv E st"
  shows "accounts_inv E st'"
proof -
  from run obtain a x st2 ca st3 evs where a: "AccAddressFromBech32 E (fc_Tenant msg) = Some a"
    and c: "(case GetCreditAccount E (st\<lparr>bank := x\<rparr>) (fc_Tenant msg) of
            Ok ca \<Rightarrow> Ok (st\<lparr>bank := x\<rparr>, ca)
          | Err e \<Rightarrow>
              if e \<noteq> ErrCreditAccountNotFound then Err ErrInvalidCreditOperation
              else
                Ok (if \<not> HasAccount E x (DeriveCreditAddress E a)
                    then st\<lparr>bank := x\<rparr>\<lparr>bank := RegisterAccount E x (DeriveCreditAddress E a)\<rparr> else st\<lparr>bank := x\<rparr>,
                    newCreditAccount E (fc_Tenant msg) (DeriveCreditAddress E a))
          | Panic \<Rightarrow> Panic) = Ok (st2, ca)"
    and st3: "SetCreditAccount E st2 ca = Ok st3" and st': "st' = emit evs st3"
    by (auto simp: FundCredit_def Let_def DeriveCreditAddressFromBech32_def)
  have m: "Leases st2 = Leases st \<and> CreditAccounts st2 = CreditAccounts st \<and> account_matches E (Leases st) a ca"
  proof (cases "kv_get (CreditAccounts st) a")
    case None
    then show ?thesis
      using c a no_account_no_leases [OF inv None]
      by (auto simp: GetCreditAccount_def newCreditAccount_def account_matches_def)
  next
    case (Some ca0)
    then show ?thesis using c a inv_account [OF inv Some] by (auto simp: GetCreditAccount_def)
  qed
  with SetCreditAccount_sel [OF st3] show ?thesis
    unfolding st' accounts_frame by (intro put_account [OF inv, of a ca]) (auto simp: account_matches_def)
qed

end

section \<open>Lease creation\<close>

definition params_ok :: "'x sdk \<Rightarrow> 'x ledger \<Rightarrow> bool" where
  "params_ok E st \<longleftrightarrow> (\<forall>p \<in> set_option (lg_Params st). Params_Validate E p = Ok ())"

definition canonical :: "'x sdk \<Rightarrow> string \<Rightarrow> bool" where
  \<comment> \<open>the address string is the one the SDK prints\<close>
  "canonical E t \<longleftrightarrow> (\<forall>a \<in> set_option (AccAddressFromBech32 E t). t = AccAddressString E a)"

definition next_uuid :: "block_ctx \<Rightarrow> 'x ledger \<Rightarrow> string" where
  "next_uuid ctx st = GenerateUUIDv7 ctx ModuleName (LeaseSequence st)"

lemma params_min_duration:
  "params_ok E st \<Longrightarrow> GetParams st = Ok p \<Longrightarrow> MinLeaseDuration p \<noteq> 0"
  by (auto simp: params_ok_def GetParams_def Params_Validate_def split: if_split_asm)

context sdk_laws
begin

lemma ConvertBasePrice_nonneg: "ConvertBasePriceToPerSecond E b u = Ok c \<Longrightarrow> 0 \<le> Amount c"
  by (auto simp: ConvertBasePriceToPerSecond_def Let_def split: if_splits prod.splits dest!: NewCoin_law)

lemma lockItems_law:
  assumes "lockItems E sk p items rates ins = Ok (p', items', rates')"
    and "coins_ok rates \<and> (\<forall>d. amt rates d = items_rate items d) \<and> prices_nn items \<and>
         list_all (\<lambda>i. CustomDomain i = []) items"
  shows "coins_ok rates' \<and> (\<forall>d. amt rates' d = items_rate items' d) \<and> prices_nn items' \<and>
         list_all (\<lambda>i. CustomDomain i = []) items'"
  using assms
proof (induction ins arbitrary: p items rates)
  case (Cons i ins)
  from Cons.prems(1) obtain sku :: SKU and c rate ir rates1 where
    c: "ConvertBasePriceToPerSecond E (BasePrice sku) (sku_Unit sku) = Ok c"
    and m: "IntMul E (Amount c) (uint (in_Quantity i)) = Some rate"
    and n: "NewCoin E (Denom c) rate = Some ir" and ad: "CoinsAdd E rates [ir] = Some rates1"
    and rest: "lockItems E sk (Some (sku_ProviderUuid sku)) (items @ [\<lparr>SkuUuid = in_SkuUuid i,
        Quantity = in_Quantity i, LockedPrice = c, ServiceName = in_ServiceName i, CustomDomain = []\<rparr>])
        rates1 ins = Ok (p', items', rates')"
    by (auto split: if_split_asm)
  note add = add_one [OF n ad]
  have app: "items_rate (xs @ ys) d = items_rate xs d + items_rate ys d" for xs ys d
    by (simp add: items_rate_def)
  show ?case
    using Cons.prems(2) add IntMul_law [OF m] ConvertBasePrice_nonneg [OF c]
    by (intro Cons.IH [OF rest]) (auto simp: app prices_nn_def)
qed simp

lemma reserveCredit_law:
  assumes run: "reserveCredit E st params t ca rates = Ok ca'" and rates: "coins_ok rates"
    and ca: "coins_ok (ReservedAmounts ca)" and a: "DeriveCreditAddressFromBech32 E t = Some a"
  shows "\<exists>r. ca' = ca\<lparr>ReservedAmounts := r\<rparr> \<and> coins_ok r \<and>
    (\<forall>d. amt r d = amt (ReservedAmounts ca) d + amt rates d * uint (MinLeaseDuration params)) \<and>
    (\<forall>d. 0 < amt rates d * uint (MinLeaseDuration params) \<longrightarrow> amt r d \<le> bal E (bank st) a d)"
proof -
  from run obtain res cb av r where
    res: "CalculateLeaseReservationFromRates E rates (MinLeaseDuration params) = Ok res"
    and cb: "getCreditBalancesForDenoms E st t (map Denom rates) = Ok cb"
    and av: "GetAvailableCredit E cb (ReservedAmounts ca) = Ok av"
    and chk: "\<not> list_ex (\<lambda>res. CoinsAmountOf E av (Denom res) < Amount res) res"
    and r: "AddReservation E (ReservedAmounts ca) res = Ok r" and ca': "ca' = ca\<lparr>ReservedAmounts := r\<rparr>"
    by (auto simp: reserveCredit_def split: if_split_asm)
  note resl = FromRates_law [OF res rates]
  have dis: "distinct (map Denom rates)" using rates by (simp add: coins_ok_def strict_sorted_iff)
  note cbl = getCreditBalances_law [OF cb dis a]
  note avl = GetAvailableCredit_law [OF av cbl [THEN conjunct1] ca]
  note rl = AddReservation_law [OF r ca resl [THEN conjunct1]]
  have enough: "amt r d \<le> bal E (bank st) a d" if pos: "0 < amt res d" for d
  proof -
    from pos resl have "d \<in> Denom ` set res" using amt_pos_iff by blast
    then obtain c where c: "c \<in> set res" "Denom c = d" by auto
    then have "amt res d = Amount c" using resl amt_mem by blast
    moreover have "Amount c \<le> amt av d"
      using chk c avl CoinsAmountOf_law [of av d] by (auto simp: list_ex_iff not_less)
    moreover have "amt av d = max 0 (amt cb d - amt (ReservedAmounts ca) d)" using avl by blast
    moreover have "amt cb d \<le> bal E (bank st) a d" using cbl GetBalance_nonneg [of "bank st" a d] by simp
    ultimately show ?thesis using pos rl by auto
  qed
  show ?thesis using ca' rl resl enough by auto
qed

lemma createLeaseInternal_run:
  assumes run: "createLeaseInternal E ctx st t ins mh = Ok (st', res)"
  obtains p ca prov items rates ca' st2 l q where "GetParams st = Ok p"
    and "GetCreditAccount E st t = Ok ca" and "PendingLeaseCount ca < MaxPendingLeasesPerTenant p"
    and "ActiveLeaseCount ca < MaxLeasesPerTenant p"
    and "lockItems E (sku_keeper st) None [] [] ins = Ok (prov, items, rates)"
    and "reserveCredit E st p t ca rates = Ok ca'"
    and "l = \<lparr>lease_Uuid = next_uuid ctx st, Tenant = t, lease_ProviderUuid = (case prov of None \<Rightarrow> [] | Some p \<Rightarrow> p),
            Items = items, State = LEASE_STATE_PENDING, CreatedAt = BlockTime ctx, ClosedAt = None,
            LastSettledAt = BlockTime ctx, AcknowledgedAt = None, RejectedAt = None, RejectionReason = [],
            ExpiredAt = None, ClosureReason = [], lease_MetaHash = mh,
            MinLeaseDurationAtCreation = MinLeaseDuration p\<rparr>"
    and "SetLease E (st\<lparr>LeaseSequence := LeaseSequence st + 1\<rparr>) l = Ok st2"
    and "SetCreditAccount E st2 (ca'\<lparr>PendingLeaseCount := PendingLeaseCount ca' + 1\<rparr>) = Ok st'"
    and "lcr_leaseUUID res = next_uuid ctx st" and "of_nat (length ins) \<le> MaxItemsPerLease p"
    and "GetProvider (sku_keeper st) (case prov of None \<Rightarrow> [] | Some p \<Rightarrow> p) = Ok q" and "provider_Active q"
  using run that
  by (auto simp: createLeaseInternal_def checkTenantLimits_def storeLease_def GetNextLeaseSequence_def
      next_uuid_def Let_def not_le split: if_split_asm)

end

lemma length_kv_set_le: "length (kv_set k v m) \<le> length m + 1"
  by (induction k v m rule: kv_set.induct) auto

lemma accounts_new:
  assumes inv: "accounts_inv E st" and u: "kv_get (Leases st) u = None" and l: "lease_wf E u l" "tenantAddr E l = Some a"
    and len: "length (Leases st) + 1 < 2 ^ 64"
    and st1: "Leases st1 = kv_set u l (Leases st)" "CreditAccounts st1 = CreditAccounts st"
    and m: "account_matches E (kv_set u l (Leases st)) a ca'"
    and enc: "AccAddressFromBech32 E (AccAddressString E a) = Some a"
    and run: "SetCreditAccount E st1 ca' = Ok st'"
  shows "accounts_inv E st'"
proof -
  from SetCreditAccount_sel [OF run] m st1 have st': "Leases st' = kv_set u l (Leases st)"
    "CreditAccounts st' = kv_set a ca' (CreditAccounts st)" by (auto simp: account_matches_def)
  note wf = inv_wf [OF inv]
  have "leases_wf E (Leases st')"
    using wf l(1) len length_kv_set_le [of u l "Leases st"] unfolding st' leases_wf_def by (auto intro: kv_all_set)
  moreover have "kv_all (\<lambda>_. live_has_account E st') (Leases st')"
  proof -
    have "kv_all (\<lambda>_. live_has_account E st') (Leases st)"
      using inv by (auto simp: accounts_inv_def live_has_account_def st' kv_all_def)
    then show ?thesis unfolding st'(1) by (rule kv_all_set) (simp add: live_has_account_def l(2) st')
  qed
  moreover have "kv_all (account_matches E (Leases st')) (CreditAccounts st')"
  proof -
    have "kv_all (\<lambda>b c. b \<noteq> a \<longrightarrow> account_matches E (Leases st') b c) (CreditAccounts st)"
      using inv l(2) unfolding st'(1) kv_all_def accounts_inv_def
      by (auto intro!: matches_new_other [OF wf_ok [OF wf] u])
    with m inv show ?thesis by (simp add: st' kv_all_set_iff accounts_inv_def)
  qed
  moreover have "kv_all (encodable E) (CreditAccounts st')"
    using inv enc unfolding st'(2) accounts_inv_def by (auto intro: kv_all_set simp: encodable_def)
  ultimately show ?thesis using inv by (simp add: accounts_inv_def st'(2))
qed

context sdk_laws
begin

lemma createLeaseInternal_accounts:
  assumes run: "createLeaseInternal E ctx st t ins mh = Ok (st', res)" and inv: "accounts_inv E st"
    and par: "params_ok E st" and can: "canonical E t" and fresh: "kv_get (Leases st) (next_uuid ctx st) = None"
    and len: "length (Leases st) + 1 < 2 ^ 64"
  shows "accounts_inv E st'"
proof (rule createLeaseInternal_run [OF run])
  fix p ca prov items rates ca' st2 l
  assume p: "GetParams st = Ok p" and ca: "GetCreditAccount E st t = Ok ca"
    and lim: "PendingLeaseCount ca < MaxPendingLeasesPerTenant p"
    and lk: "lockItems E (sku_keeper st) None [] [] ins = Ok (prov, items, rates)"
    and rc: "reserveCredit E st p t ca rates = Ok ca'"
    and l: "l = \<lparr>lease_Uuid = next_uuid ctx st, Tenant = t, lease_ProviderUuid = (case prov of None \<Rightarrow> [] | Some p \<Rightarrow> p),
            Items = items, State = LEASE_STATE_PENDING, CreatedAt = BlockTime ctx, ClosedAt = None,
            LastSettledAt = BlockTime ctx, AcknowledgedAt = None, RejectedAt = None, RejectionReason = [],
            ExpiredAt = None, ClosureReason = [], lease_MetaHash = mh,
            MinLeaseDurationAtCreation = MinLeaseDuration p\<rparr>"
    and st2: "SetLease E (st\<lparr>LeaseSequence := LeaseSequence st + 1\<rparr>) l = Ok st2"
    and st3: "SetCreditAccount E st2 (ca'\<lparr>PendingLeaseCount := PendingLeaseCount ca' + 1\<rparr>) = Ok st'"
  from ca obtain a where a: "AccAddressFromBech32 E t = Some a" "kv_get (CreditAccounts st) a = Some ca"
    by (auto simp: GetCreditAccount_sel)
  note m = inv_account [OF inv a(2)]
  have lk': "coins_ok rates \<and> (\<forall>d. amt rates d = items_rate items d) \<and> prices_nn items \<and>
      list_all (\<lambda>i. CustomDomain i = []) items"
    by (rule lockItems_law [OF lk]) (simp add: prices_nn_def)
  have "DeriveCreditAddressFromBech32 E t = Some (DeriveCreditAddress E a)"
    by (simp add: DeriveCreditAddressFromBech32_def a)
  from reserveCredit_law [OF rc lk' [THEN conjunct1] _ this] m
  obtain r where r: "ca' = ca\<lparr>ReservedAmounts := r\<rparr>" "coins_ok r"
    "\<And>d. amt r d = amt (ReservedAmounts ca) d + amt rates d * uint (MinLeaseDuration p)"
    by (auto simp: account_matches_def)
  have dur: "MinLeaseDuration p \<noteq> 0" by (rule params_min_duration [OF par p])
  have tl: "tenantAddr E l = Some a" "State l = LEASE_STATE_PENDING" by (simp_all add: l tenantAddr_def a)
  have "lease_wf E (next_uuid ctx st) l"
    using a can dur lk' by (auto simp: lease_wf_def l tenantAddr_def canonical_def prices_nn_def list_all_iff)
  moreover have "account_matches E (kv_set (next_uuid ctx st) l (Leases st)) a
      (ca'\<lparr>PendingLeaseCount := PendingLeaseCount ca' + 1\<rparr>)"
    using r lk' dur by (intro matches_create [OF wf_ok [OF inv_wf [OF inv]] fresh tl(2,1) m lim r(2)])
      (simp_all add: reservation_def reserved_duration_def l)
  ultimately show "accounts_inv E st'"
    using SetLease_sel [OF st2] bech32_reencode [OF a(1)] st3
    by (intro accounts_new [OF inv fresh _ tl(1) len, of st2]) (simp_all add: l)
qed

lemma emitLeaseCreated_accounts [simp]:
  "accounts_inv E (emitLeaseCreatedEvent r t c st) = accounts_inv E st"
  by (simp add: emitLeaseCreatedEvent_def)

end

end
