(* ===== verification/Batches_Inv.thy ===== *)
theory Batches_Inv
  imports Handlers_Inv
begin

text \<open>
  The batch handlers keep the bookkeeping invariant: the leases of a batch are
  read once, distinct and in the right state; each is written in turn while the
  accounts of their tenants are updated in memory; the accounts are stored at the end.
\<close>

section \<open>The batch that is read\<close>

definition batch_of :: "'x sdk \<Rightarrow> LeaseState \<Rightarrow> 'x ledger \<Rightarrow> (string, CreditAccount) kv \<Rightarrow> string list \<Rightarrow> Lease list \<Rightarrow> bool" where
  \<comment> \<open>leases \<open>ls\<close> are stored in state \<open>s\<close>, their tenants' accounts are in memory, and
      \<open>order\<close> lists the tenants to be written back\<close>
  "batch_of E s st cas order ls \<longleftrightarrow> batch_inv E (set order) cas st \<and>
     (\<forall>t \<in> set order. kv_get cas t \<noteq> None) \<and> (\<forall>t. kv_get cas t \<noteq> None \<longrightarrow> t \<in> set order) \<and>
     (\<forall>l \<in> set ls. kv_get (Leases st) (lease_Uuid l) = Some l \<and> State l = s \<and> Tenant l \<in> set order)"

lemma batch_ofI:
  assumes "batch_of E s st cas order ls" and "kv_get (Leases st) u = Some l" and "State l = s"
    and "kv_get cas (Tenant l) \<noteq> None"
  shows "batch_of E s st cas order (ls @ [l])"
proof -
  have "leases_wf E (Leases st)" using assms(1) by (simp add: batch_of_def batch_inv_def)
  from wf_get [OF this assms(2)] have "lease_Uuid l = u" by (simp add: lease_wf_def)
  with assms show ?thesis by (auto simp: batch_of_def)
qed

lemma batch_of_load:
  assumes b: "batch_of E s st cas order ls" and l: "kv_get (Leases st) u = Some l" "State l = s"
    and new: "kv_get cas (Tenant l) = None" and ca: "GetCreditAccount E st (Tenant l) = Ok ca"
  shows "batch_of E s st (kv_set (Tenant l) ca cas) (order @ [Tenant l]) (ls @ [l])"
proof -
  have inv: "batch_inv E (set order) cas st" and n: "Tenant l \<notin> set order"
    using b new by (auto simp: batch_of_def)
  have "lease_wf E u l" using inv l(1) by (auto simp: batch_inv_def intro: wf_get)
  then obtain a where a: "AccAddressFromBech32 E (Tenant l) = Some a" "Tenant l = AccAddressString E a"
    and u: "lease_Uuid l = u"
    by (auto simp: lease_wf_def tenantAddr_def)
  from batch_load [OF inv a n ca] b l u show ?thesis by (auto simp: batch_of_def)
qed

lemma batch_of_Nil: "accounts_inv E st \<Longrightarrow> batch_of E s st [] [] []"
  by (simp add: batch_of_def accounts_batch)

definition pin_provider :: "Lease \<Rightarrow> pendingLeaseBatchResult \<Rightarrow> pendingLeaseBatchResult" where
  "pin_provider l acc = (if plb_providerUUID acc = [] then acc\<lparr>plb_providerUUID := lease_ProviderUuid l\<rparr> else acc)"

lemma pin_provider_sel [simp]:
  "plb_creditAccounts (pin_provider l acc) = plb_creditAccounts acc"
  "plb_tenantOrder (pin_provider l acc) = plb_tenantOrder acc"
  "plb_leases (pin_provider l acc) = plb_leases acc"
  by (simp_all add: pin_provider_def)

lemma validatePending_batch:
  assumes "validatePendingLoop E st acc us = Ok res"
    and "batch_of E LEASE_STATE_PENDING st (plb_creditAccounts acc) (plb_tenantOrder acc) (plb_leases acc)"
  shows "batch_of E LEASE_STATE_PENDING st (plb_creditAccounts res) (plb_tenantOrder res) (plb_leases res)"
  using assms
proof (induction us arbitrary: acc)
  case (Cons u us)
  from Cons.prems(1) obtain l where l: "kv_get (Leases st) u = Some l" "State l = LEASE_STATE_PENDING"
    by (auto simp: GetLease_def split: if_split_asm)
  show ?case
  proof (cases "kv_get (plb_creditAccounts acc) (Tenant l)")
    case None
    with Cons.prems(1) l obtain ca where ca: "GetCreditAccount E st (Tenant l) = Ok ca"
      and rest: "validatePendingLoop E st ((pin_provider l acc)\<lparr>
        plb_creditAccounts := kv_set (Tenant l) ca (plb_creditAccounts acc),
        plb_tenantOrder := plb_tenantOrder acc @ [Tenant l], plb_leases := plb_leases acc @ [l]\<rparr>) us = Ok res"
      by (auto simp: GetLease_def Let_def pin_provider_def split: if_split_asm)
    show ?thesis
      using batch_of_load [OF Cons.prems(2) l None ca] by (intro Cons.IH [OF rest]) simp
  next
    case (Some ca)
    with Cons.prems(1) l have
      rest: "validatePendingLoop E st ((pin_provider l acc)\<lparr>plb_leases := plb_leases acc @ [l]\<rparr>) us = Ok res"
      by (auto simp: GetLease_def Let_def pin_provider_def split: if_split_asm)
    show ?thesis
      using batch_ofI [OF Cons.prems(2) l] Some by (intro Cons.IH [OF rest]) simp
  qed
qed simp


section \<open>The loops over a batch\<close>

lemma batch_of_account:
  assumes "batch_of E s st cas order (l # ls)"
  obtains a where "tenantAddr E l = Some a" and "account_matches E (Leases st) a (account_of cas (Tenant l))"
    and "leases_wf E (Leases st)" and "kv_get (Leases st) (lease_Uuid l) = Some l" and "State l = s"
proof -
  have l: "kv_get (Leases st) (lease_Uuid l) = Some l" "State l = s" and inv: "batch_inv E (set order) cas st"
    and "kv_get cas (Tenant l) \<noteq> None"
    using assms by (auto simp: batch_of_def)
  then obtain ca where ca: "kv_get cas (Tenant l) = Some ca" by auto
  with inv have "cached_ok E (Leases st) (Tenant l) ca" by (auto simp: batch_inv_def intro: kv_all_get)
  with that l inv ca show ?thesis
    by (auto simp: cached_ok_def tenantAddr_def account_of_def batch_inv_def)
qed

lemma batch_of_step:
  assumes b: "batch_of E s st cas order (l # ls)" and d: "distinct (map lease_Uuid (l # ls))"
    and a: "tenantAddr E l = Some a" and l': "same_book l l'" "lease_Uuid l' = lease_Uuid l" "live (State l') \<longrightarrow> live s"
    and st': "Leases st' = kv_set (lease_Uuid l) l' (Leases st)" "CreditAccounts st' = CreditAccounts st"
    and m: "account_matches E (kv_set (lease_Uuid l) l' (Leases st)) a ca'"
  shows "batch_of E s st' (kv_set (Tenant l) ca' cas) order ls"
proof -
  have inv: "batch_inv E (set order) cas st" and l: "kv_get (Leases st) (lease_Uuid l) = Some l" "State l = s"
    and t: "Tenant l \<in> set order"
    using b by (auto simp: batch_of_def)
  have "batch_inv E (set order) (kv_set (Tenant l) ca' cas) st'"
    using l' l(2) by (intro batch_step [OF inv l(1) a _ _ _ st' m t]) simp_all
  moreover have "kv_get (Leases st') (lease_Uuid k) = Some k \<and> State k = s \<and> Tenant k \<in> set order"
    if k: "k \<in> set ls" for k
  proof -
    have "kv_get (Leases st) (lease_Uuid k) = Some k \<and> State k = s \<and> Tenant k \<in> set order"
      using b k by (simp add: batch_of_def)
    moreover have "lease_Uuid k \<noteq> lease_Uuid l" using d imageI [OF k, of lease_Uuid] by auto
    ultimately show ?thesis by (simp add: st'(1))
  qed
  moreover have "kv_get (kv_set (Tenant l) ca' cas) t \<noteq> None \<longleftrightarrow> kv_get cas t \<noteq> None" for t
    using b by (simp add: batch_of_def)
  ultimately show ?thesis using b unfolding batch_of_def by blast
qed

lemma batch_of_done:
  assumes "batch_of E s st cas order []" and "persistAccounts E st cas order = Ok st'"
  shows "accounts_inv E st'"
proof -
  have "batch_inv E (set order) cas st" "\<forall>t \<in> set order. kv_get cas t \<noteq> None"
    using assms(1) by (simp_all add: batch_of_def)
  from persist_all [OF this assms(2)] show ?thesis using batch_done by simp
qed

lemma acknowledgeLoop_batch:
  assumes "acknowledgeLoop E t st cas ls = Ok (st', cas')"
    and "batch_of E LEASE_STATE_PENDING st cas order ls" and "distinct (map lease_Uuid ls)"
  shows "batch_of E LEASE_STATE_PENDING st' cas' order []"
  using assms
proof (induction ls arbitrary: st cas)
  case (Cons l ls)
  let ?l = "l\<lparr>State := LEASE_STATE_ACTIVE, AcknowledgedAt := Some t, LastSettledAt := t\<rparr>"
  let ?ca = "DecrementPendingLeaseCount (account_of cas (Tenant l))"
  let ?ca' = "?ca\<lparr>ActiveLeaseCount := ActiveLeaseCount ?ca + 1\<rparr>"
  from Cons.prems(1) obtain st1 where st1: "SetLease E st ?l = Ok st1"
    and rest: "acknowledgeLoop E t st1 (kv_set (Tenant l) ?ca' cas) ls = Ok (st', cas')"
    by (auto simp: Let_def)
  obtain a where a: "tenantAddr E l = Some a" "account_matches E (Leases st) a (account_of cas (Tenant l))"
    "leases_wf E (Leases st)" "kv_get (Leases st) (lease_Uuid l) = Some l" "State l = LEASE_STATE_PENDING"
    using batch_of_account [OF Cons.prems(2)] .
  have "account_matches E (kv_set (lease_Uuid l) ?l (Leases st)) a ?ca'"
    by (rule matches_ack [OF a(3,4,5,1) _ _ a(2) refl refl]) (simp_all add: same_book_def)
  then have "batch_of E LEASE_STATE_PENDING st1 (kv_set (Tenant l) ?ca' cas) order ls"
    using SetLease_sel [OF st1] by (intro batch_of_step [OF Cons.prems(2,3) a(1)]) (simp_all add: same_book_def)
  with Cons.IH [OF rest] Cons.prems(3) show ?case by simp
qed simp

context sdk_laws
begin

lemma rejectLoop_batch:
  assumes "rejectLoop E t reason md st cas ls = Ok (st', cas')"
    and "batch_of E LEASE_STATE_PENDING st cas order ls" and "distinct (map lease_Uuid ls)"
  shows "batch_of E LEASE_STATE_PENDING st' cas' order []"
  using assms
proof (induction ls arbitrary: st cas)
  case (Cons l ls)
  let ?l = "l\<lparr>State := LEASE_STATE_REJECTED, RejectedAt := Some t, RejectionReason := reason\<rparr>"
  from Cons.prems(1) obtain st1 ca where st1: "SetLease E st ?l = Ok st1"
    and ca: "ReleaseLeaseReservation E (DecrementPendingLeaseCount (account_of cas (Tenant l))) ?l md = Ok ca"
    and rest: "rejectLoop E t reason md st1 (kv_set (Tenant l) ca cas) ls = Ok (st', cas')"
    by (auto simp: Let_def)
  obtain a where a: "tenantAddr E l = Some a" "account_matches E (Leases st) a (account_of cas (Tenant l))"
    "leases_wf E (Leases st)" "kv_get (Leases st) (lease_Uuid l) = Some l" "State l = LEASE_STATE_PENDING"
    using batch_of_account [OF Cons.prems(2)] .
  have "account_matches E (kv_set (lease_Uuid l) ?l (Leases st)) a ca"
    by (rule matches_release_pending [OF a(3,4,5,1) _ _ a(2) ca]) (simp_all add: same_book_def)
  then have "batch_of E LEASE_STATE_PENDING st1 (kv_set (Tenant l) ca cas) order ls"
    using SetLease_sel [OF st1] by (intro batch_of_step [OF Cons.prems(2,3) a(1)]) (simp_all add: same_book_def)
  with Cons.IH [OF rest] Cons.prems(3) show ?case by simp
qed simp

lemma cancelLoop_reject:
  \<comment> \<open>cancelling is rejecting with the accounts of one tenant in memory\<close>
  assumes "cancelLoop E t md st ca ls = Ok (st', ca')" and "\<forall>l \<in> set ls. Tenant l = tn"
  shows "rejectLoop E t RejectionReasonCancelledByTenant md st [(tn, ca)] ls = Ok (st', [(tn, ca')])"
  using assms by (induction ls arbitrary: st ca) (auto simp: Let_def account_of_def kv_get_Cons)

end

section \<open>The handlers\<close>

lemma validatePending_uuids:
  assumes "validatePendingLoop E st acc us = Ok res" and "leases_wf E (Leases st)"
  shows "map lease_Uuid (plb_leases res) = map lease_Uuid (plb_leases acc) @ us"
  using assms(1)
proof (induction us arbitrary: acc)
  case (Cons u us)
  from Cons.prems obtain l acc' where l: "kv_get (Leases st) u = Some l"
    and rest: "validatePendingLoop E st (acc'\<lparr>plb_leases := plb_leases acc @ [l]\<rparr>) us = Ok res"
    by (auto simp: GetLease_def Let_def split: if_split_asm)
  from Cons.IH [OF rest] wf_get [OF assms(2) l] show ?case by (simp add: lease_wf_def)
qed simp

lemma validateCancel_leases:
  assumes "validateCancelLoop st t ls us = Ok res" and "leases_wf E (Leases st)"
  shows "\<exists>new. res = ls @ new \<and> map lease_Uuid new = us \<and>
    (\<forall>l \<in> set new. kv_get (Leases st) (lease_Uuid l) = Some l \<and> State l = LEASE_STATE_PENDING \<and> Tenant l = t)"
  using assms(1)
proof (induction us arbitrary: ls)
  case (Cons u us)
  from Cons.prems obtain l where l: "kv_get (Leases st) u = Some l" "State l = LEASE_STATE_PENDING" "Tenant l = t"
    and rest: "validateCancelLoop st t (ls @ [l]) us = Ok res"
    by (auto simp: GetLease_def split: if_split_asm)
  from Cons.IH [OF rest] obtain new where n: "res = ls @ l # new" "map lease_Uuid new = us"
    "\<forall>l \<in> set new. kv_get (Leases st) (lease_Uuid l) = Some l \<and> State l = LEASE_STATE_PENDING \<and> Tenant l = t" by auto
  moreover have "lease_Uuid l = u" using wf_get [OF assms(2) l(1)] by (simp add: lease_wf_def)
  ultimately show ?case using l by (intro exI [of _ "l # new"]) simp
qed simp

lemma pending_batch:
  assumes "validatePendingLeaseBatch E st us = Ok v" and "accounts_inv E st" and "distinct us"
  shows "batch_of E LEASE_STATE_PENDING st (plb_creditAccounts v) (plb_tenantOrder v) (plb_leases v)"
    and "distinct (map lease_Uuid (plb_leases v))"
  using assms validatePending_batch [of E st _ us v] validatePending_uuids [of E st _ us v] inv_wf
  by (fastforce simp: validatePendingLeaseBatch_def batch_of_Nil)+

lemma AcknowledgeLease_accounts:
  assumes run: "AcknowledgeLease E ctx st msg = Ok (st', r)" and inv: "accounts_inv E st"
  shows "accounts_inv E st'"
proof -
  from run obtain v cas st1 st2 evs where d: "distinct (ack_LeaseUuids msg)"
    and v: "validatePendingLeaseBatch E st (ack_LeaseUuids msg) = Ok v"
    and l: "acknowledgeLoop E (BlockTime ctx) st (plb_creditAccounts v) (plb_leases v) = Ok (st1, cas)"
    and p: "persistAccounts E st1 cas (plb_tenantOrder v) = Ok st2" and st': "st' = emit evs st2"
    by (auto simp: AcknowledgeLease_def Let_def MsgAcknowledgeLease_ValidateBasic_def ValidateBatchLeaseUUIDs_ok
        split: if_split_asm)
  note b = pending_batch [OF v inv d]
  from batch_of_done [OF acknowledgeLoop_batch [OF l b] p] show ?thesis by (simp add: st')
qed

context sdk_laws
begin

lemma RejectLease_accounts:
  assumes run: "RejectLease E ctx st msg = Ok (st', r)" and inv: "accounts_inv E st"
  shows "accounts_inv E st'"
proof -
  from run obtain md v cas st1 st2 evs where d: "distinct (rej_LeaseUuids msg)"
    and v: "validatePendingLeaseBatch E st (rej_LeaseUuids msg) = Ok v"
    and l: "rejectLoop E (BlockTime ctx) (rej_Reason msg) md st (plb_creditAccounts v) (plb_leases v) = Ok (st1, cas)"
    and p: "persistAccounts E st1 cas (plb_tenantOrder v) = Ok st2" and st': "st' = emit evs st2"
    by (auto simp: RejectLease_def Let_def MsgRejectLease_ValidateBasic_def ValidateBatchLeaseUUIDs_ok
        split: if_split_asm)
  note b = pending_batch [OF v inv d]
  from batch_of_done [OF rejectLoop_batch [OF l b] p] show ?thesis by (simp add: st')
qed

lemma CancelLease_accounts:
  assumes run: "CancelLease E ctx st msg = Ok (st', r)" and inv: "accounts_inv E st"
  shows "accounts_inv E st'"
proof -
  let ?t = "can_Tenant msg"
  from run obtain md ls ca ca' st1 st2 evs where us: "distinct (can_LeaseUuids msg)" "can_LeaseUuids msg \<noteq> []"
    and v: "validateCancelLoop st ?t [] (can_LeaseUuids msg) = Ok ls"
    and ca: "GetCreditAccount E st ?t = Ok ca"
    and l: "cancelLoop E (BlockTime ctx) md st ca ls = Ok (st1, ca')"
    and p: "SetCreditAccount E st1 ca' = Ok st2" and st': "st' = emit evs st2"
    by (auto simp: CancelLease_def Let_def MsgCancelLease_ValidateBasic_def ValidateBatchLeaseUUIDs_ok
        split: if_split_asm)
  from validateCancel_leases [OF v inv_wf [OF inv]] have ls: "map lease_Uuid ls = can_LeaseUuids msg"
    "\<forall>l \<in> set ls. kv_get (Leases st) (lease_Uuid l) = Some l \<and> State l = LEASE_STATE_PENDING \<and> Tenant l = ?t"
    by auto
  then obtain l0 where l0: "l0 \<in> set ls" using us(2) by (cases ls) auto
  with ls inv_get(3) [OF inv, of "lease_Uuid l0" l0]
  obtain a where a: "AccAddressFromBech32 E ?t = Some a" "?t = AccAddressString E a"
    by (auto simp: tenantAddr_def)
  from batch_load [OF _ a _ ca, of "{}" "[]"] inv have "batch_inv E {?t} [(?t, ca)] st"
    by (simp add: accounts_batch)
  with ls(2) have b: "batch_of E LEASE_STATE_PENDING st [(?t, ca)] [?t] ls"
    by (auto simp: batch_of_def kv_get_Cons)
  have d: "distinct (map lease_Uuid ls)" using ls(1) us(1) by simp
  have "rejectLoop E (BlockTime ctx) RejectionReasonCancelledByTenant md st [(?t, ca)] ls = Ok (st1, [(?t, ca')])"
    using cancelLoop_reject [OF l] ls(2) by simp
  from batch_of_done [OF rejectLoop_batch [OF this b d]] p show ?thesis
    by (simp add: st' account_of_def kv_get_Cons)
qed

end

end
