(* ===== verification/Payouts_Inv.thy ===== *)
theory Payouts_Inv
  imports Batches_Inv
begin

text \<open>
  Closing and withdrawing keep the bookkeeping invariant, and so does every message
  of the billing module and the end of every block.
\<close>

section \<open>CloseLease\<close>

definition pin_role ::
  "'x ledger \<Rightarrow> string \<Rightarrow> string \<Rightarrow> (string, string) kv \<Rightarrow> closeBatch \<Rightarrow> closeBatch" where
  "pin_role st sender role cache acc = acc\<lparr>cb_providerCache := cache,
     cb_closedBy := (if sender = authority st then ''authority''
                     else if cb_closedBy acc = [] then role else cb_closedBy acc)\<rparr>"

lemma pin_role_sel [simp]:
  "cb_creditAccounts (pin_role st sender role cache acc) = cb_creditAccounts acc"
  "cb_tenantOrder (pin_role st sender role cache acc) = cb_tenantOrder acc"
  "cb_leases (pin_role st sender role cache acc) = cb_leases acc"
  by (simp_all add: pin_role_def)

lemma validateClose_batch:
  assumes "validateCloseLoop E st sender acc us = Ok res"
    and "batch_of E LEASE_STATE_ACTIVE st (cb_creditAccounts acc) (cb_tenantOrder acc) (cb_leases acc)"
  shows "batch_of E LEASE_STATE_ACTIVE st (cb_creditAccounts res) (cb_tenantOrder res) (cb_leases res)"
  using assms
proof (induction us arbitrary: acc)
  case (Cons u us)
  from Cons.prems(1) obtain l role cache where l: "kv_get (Leases st) u = Some l" "State l = LEASE_STATE_ACTIVE"
    and r: "closeRole st sender (cb_providerCache acc) l = Ok (role, cache)"
    by (auto simp: GetLease_def split: if_split_asm)
  show ?case
  proof (cases "kv_get (cb_creditAccounts acc) (Tenant l)")
    case None
    with Cons.prems(1) l r obtain ca where ca: "GetCreditAccount E st (Tenant l) = Ok ca"
      and rest: "validateCloseLoop E st sender ((pin_role st sender role cache acc)\<lparr>
        cb_creditAccounts := kv_set (Tenant l) ca (cb_creditAccounts acc),
        cb_tenantOrder := cb_tenantOrder acc @ [Tenant l], cb_leases := cb_leases acc @ [l]\<rparr>) us = Ok res"
      by (auto simp: GetLease_def Let_def pin_role_def split: if_split_asm)
    show ?thesis
      using batch_of_load [OF Cons.prems(2) l None ca] by (intro Cons.IH [OF rest]) simp
  next
    case (Some ca)
    with Cons.prems(1) l r have
      rest: "validateCloseLoop E st sender ((pin_role st sender role cache acc)\<lparr>cb_leases := cb_leases acc @ [l]\<rparr>) us = Ok res"
      by (auto simp: GetLease_def Let_def pin_role_def split: if_split_asm)
    show ?thesis
      using batch_ofI [OF Cons.prems(2) l] Some by (intro Cons.IH [OF rest]) simp
  qed
qed simp

lemma validateClose_uuids:
  assumes "validateCloseLoop E st sender acc us = Ok res" and "leases_wf E (Leases st)"
  shows "map lease_Uuid (cb_leases res) = map lease_Uuid (cb_leases acc) @ us"
  using assms(1)
proof (induction us arbitrary: acc)
  case (Cons u us)
  from Cons.prems obtain l acc' where l: "kv_get (Leases st) u = Some l"
    and rest: "validateCloseLoop E st sender (acc'\<lparr>cb_leases := cb_leases acc @ [l]\<rparr>) us = Ok res"
    by (auto simp: GetLease_def Let_def split: if_split_asm)
  from Cons.IH [OF rest] wf_get [OF assms(2) l] show ?case by (simp add: lease_wf_def)
qed simp

lemma settleForClose_frame:
  assumes "settleForClose E ctx reason by' st l = Ok (st', l', cs, role, dur)"
  shows "\<exists>b. st' = st\<lparr>bank := b\<rparr>" and "same_book l l'" and "lease_Uuid l' = lease_Uuid l"
    and "State l' = LEASE_STATE_CLOSED" and "Tenant l' = Tenant l"
  using assms settle_frame
  by (fastforce simp: settleForClose_def settleLease_def PerformSettlement_def PerformSettlementSilent_def
      same_book_def Let_def split: if_split_asm prod.splits)+

lemma batch_of_bank [simp]: "batch_of E s (st\<lparr>bank := b\<rparr>) cas order ls = batch_of E s st cas order ls"
  using batch_inv_cong [of "st\<lparr>bank := b\<rparr>" st E "set order" cas] by (simp add: batch_of_def)

context sdk_laws
begin

lemma closeLoop_batch:
  assumes "closeLoop E ctx reason by' md st cas tot evs ls = Ok (st', cas', tot', evs')"
    and "batch_of E LEASE_STATE_ACTIVE st cas order ls" and "distinct (map lease_Uuid ls)"
  shows "batch_of E LEASE_STATE_ACTIVE st' cas' order []"
  using assms
proof (induction ls arbitrary: st cas tot evs)
  case (Cons l ls)
  from Cons.prems(1) obtain st1 l' cs role dur st2 ca tot1 evs1
    where s: "settleForClose E ctx reason by' st l = Ok (st1, l', cs, role, dur)"
      and st2: "SetLease E st1 l' = Ok st2"
      and ca: "ReleaseLeaseReservation E (DecrementActiveLeaseCount (account_of cas (Tenant l'))) l' md = Ok ca"
      and rest: "closeLoop E ctx reason by' md st2 (kv_set (Tenant l') ca cas) tot1 evs1 ls = Ok (st', cas', tot', evs')"
    by (auto simp: Let_def)
  note f = settleForClose_frame [OF s]
  from f(1) obtain b where b: "st1 = st\<lparr>bank := b\<rparr>" ..
  obtain a where a: "tenantAddr E l = Some a" "account_matches E (Leases st) a (account_of cas (Tenant l))"
    "leases_wf E (Leases st)" "kv_get (Leases st) (lease_Uuid l) = Some l" "State l = LEASE_STATE_ACTIVE"
    using batch_of_account [OF Cons.prems(2)] .
  have "account_matches E (kv_set (lease_Uuid l) l' (Leases st)) a ca"
    using f ca by (intro matches_release_active [OF a(3,4,5,1) f(2) _ a(2)]) simp_all
  then have "batch_of E LEASE_STATE_ACTIVE st2 (kv_set (Tenant l) ca cas) order ls"
    using SetLease_sel [OF st2] f b by (intro batch_of_step [OF Cons.prems(2,3) a(1)]) simp_all
  with Cons.IH [OF rest] Cons.prems(3) f show ?case by simp
qed simp

lemma CloseLease_accounts:
  assumes run: "CloseLease E ctx st msg = Ok (st', r)" and inv: "accounts_inv E st"
  shows "accounts_inv E st'"
proof -
  from run obtain v md st1 cas tot evs st2 evs2 where d: "distinct (close_LeaseUuids msg)"
    and v: "validateCloseLoop E st (close_Sender msg) \<lparr>cb_leases = [], cb_creditAccounts = [],
                cb_tenantOrder = [], cb_providerCache = [], cb_closedBy = []\<rparr> (close_LeaseUuids msg) = Ok v"
    and l: "closeLoop E ctx (close_Reason msg) (cb_closedBy v) md st (cb_creditAccounts v) [] [] (cb_leases v) =
       Ok (st1, cas, tot, evs)"
    and p: "persistAccounts E st1 cas (cb_tenantOrder v) = Ok st2" and st': "st' = emit evs2 st2"
    by (auto simp: CloseLease_def Let_def MsgCloseLease_ValidateBasic_def ValidateBatchLeaseUUIDs_ok
        split: if_split_asm)
  have "batch_of E LEASE_STATE_ACTIVE st (cb_creditAccounts v) (cb_tenantOrder v) (cb_leases v)"
    by (rule validateClose_batch [OF v]) (simp add: batch_of_Nil inv)
  moreover have "distinct (map lease_Uuid (cb_leases v))"
    using validateClose_uuids [OF v inv_wf [OF inv]] d by simp
  ultimately show ?thesis using batch_of_done [OF closeLoop_batch [OF l] p] by (simp add: st')
qed

end

section \<open>Withdraw\<close>

definition stored :: "'x ledger \<Rightarrow> Lease list \<Rightarrow> bool" where
  "stored st ls \<longleftrightarrow> (\<forall>l \<in> set ls. kv_get (Leases st) (lease_Uuid l) = Some l)"

lemma stored_step:
  assumes "stored st (l # ls)" and "distinct (map lease_Uuid (l # ls))"
    and "Leases st' = Leases st \<or> Leases st' = kv_set (lease_Uuid l) l' (Leases st)"
  shows "stored st' ls"
proof -
  have "kv_get (Leases st') (lease_Uuid k) = Some k" if k: "k \<in> set ls" for k
  proof -
    have "lease_Uuid k \<noteq> lease_Uuid l" using assms(2) imageI [OF k, of lease_Uuid] by auto
    moreover have "kv_get (Leases st) (lease_Uuid k) = Some k" using assms(1) k by (simp add: stored_def)
    ultimately show ?thesis using assms(3) by auto
  qed
  then show ?thesis by (simp add: stored_def)
qed

lemma AutoCloseLease_leases:
  assumes "AutoCloseLease E st l t md = Ok (st', l', cs)"
  shows "Leases st' = kv_set (lease_Uuid l) l' (Leases st)"
    and "l' = l\<lparr>State := LEASE_STATE_CLOSED, ClosedAt := Some t, LastSettledAt := t,
                ClosureReason := ClosureReasonCreditExhausted\<rparr>"
proof -
  let ?l = "l\<lparr>State := LEASE_STATE_CLOSED, ClosedAt := Some t, LastSettledAt := t,
                ClosureReason := ClosureReasonCreditExhausted\<rparr>"
  from assms obtain st1 r st2 ca where "performSettlementCore E st l t True = Ok (st1, r)"
    and "SetLease E st1 ?l = Ok st2" and "SetCreditAccount E st2 ca = Ok st'" and "l' = ?l"
    by (auto simp: AutoCloseLease_def PerformSettlementSilent_def Let_def)
  then show "Leases st' = kv_set (lease_Uuid l) l' (Leases st)" and "l' = ?l"
    using SetLease_sel(1) [of E st1 ?l st2] SetCreditAccount_sel [of E st2 ca st'] settled_inv(2) [of E st l t True st1 r]
    by auto
qed

lemma autoClose_check_active:
  "autoClose_check E ctx st l = Ok (True, t) \<Longrightarrow> State l = LEASE_STATE_ACTIVE"
  by (simp add: autoClose_check_def split: if_split_asm)

lemma settled_accounts:
  \<comment> \<open>a settlement followed by the write of the settled lease\<close>
  assumes inv: "accounts_inv E st" and l: "kv_get (Leases st) u = Some l"
    and s: "performSettlementCore E st l t silent = Ok (st1, r)"
    and w: "SetLease E st1 (l\<lparr>LastSettledAt := t'\<rparr>) = Ok st'"
  shows "accounts_inv E st'" and "Leases st' = kv_set u (l\<lparr>LastSettledAt := t'\<rparr>) (Leases st)"
proof -
  note g = inv_get(2) [OF inv l] and f = SetLease_sel [OF w] and si = settled_inv [OF s]
  show L: "Leases st' = kv_set u (l\<lparr>LastSettledAt := t'\<rparr>) (Leases st)" by (simp add: f g si)
  show "accounts_inv E st'"
    using g by (intro accounts_keep [OF inv l _ _ _ L]) (simp_all add: same_book_def f si)
qed

lemma Withdraw_run:
  assumes run: "Withdraw E ctx st msg = Ok (st', r)"
  obtains (Leases) md prov ls acc st1 evs where "distinct (w_LeaseUuids msg)"
      and "validateWithdrawLoop st (w_Sender msg) None [] (w_LeaseUuids msg) = Ok (prov, ls)"
      and "withdrawLoop E ctx md st \<lparr>wa_total = [], wa_count = 0, wa_autoClosed = [], wa_amounts = []\<rparr> ls = Ok (st1, acc)"
      and "st' = emit evs st1" and "w_ProviderUuid msg = []"
    | (Provider) md us st1 x evs limit where "providerLoop E ctx md st [] 0 0 us = Ok (st1, x)" and "st' = emit evs st1"
      and "w_ProviderUuid msg \<noteq> []" and "us = fst (collectProviderLeases st (w_ProviderUuid msg) limit)"
proof (cases "w_ProviderUuid msg = []")
  case True
  with run obtain prov ls where d: "distinct (w_LeaseUuids msg)"
    and w: "withdrawFromLeases E ctx st msg = Ok (st', r)"
    and v: "validateWithdrawLoop st (w_Sender msg) None [] (w_LeaseUuids msg) = Ok (prov, ls)"
    by (auto simp: Withdraw_def withdrawFromLeases_def MsgWithdraw_ValidateBasic_def
        ValidateBatchLeaseUUIDs_ok split: if_split_asm)
  obtain pu p where "(case prov of None \<Rightarrow> ([], zeroProvider) | Some p \<Rightarrow> p) = (pu, p)" by fastforce
  with w v obtain md acc st1 evs where
    l: "withdrawLoop E ctx md st \<lparr>wa_total = [], wa_count = 0, wa_autoClosed = [], wa_amounts = []\<rparr> ls = Ok (st1, acc)"
    and st': "st' = emit evs st1"
    by (auto simp: withdrawFromLeases_def Let_def split: if_split_asm)
  from d v l st' True show ?thesis by (rule Leases)
next
  case False
  obtain us hm where c: "collectProviderLeases st (w_ProviderUuid msg)
      (if w_Limit msg = 0 then DefaultProviderWithdrawLimit else w_Limit msg) = (us, hm)" by fastforce
  with False run obtain md st1 x evs where "providerLoop E ctx md st [] 0 0 us = Ok (st1, x)" and "st' = emit evs st1"
    by (auto simp: Withdraw_def withdrawFromProvider_def Let_def)
  moreover note False
  moreover have "us = fst (collectProviderLeases st (w_ProviderUuid msg)
      (if w_Limit msg = 0 then DefaultProviderWithdrawLimit else w_Limit msg))" by (simp add: c)
  ultimately show ?thesis by (rule Provider)
qed

context sdk_laws
begin

lemma withdrawLoop_accounts:
  assumes "withdrawLoop E ctx md st acc ls = Ok (st', acc')" and "accounts_inv E st"
    and "stored st ls" and "distinct (map lease_Uuid ls)"
  shows "accounts_inv E st'"
  using assms
proof (induction ls arbitrary: st acc)
  case (Cons l ls)
  have l: "kv_get (Leases st) (lease_Uuid l) = Some l" using Cons.prems(3) by (simp add: stored_def)
  have next_: "accounts_inv E st'" if "withdrawLoop E ctx md st1 acc1 ls = Ok (st', acc')" "accounts_inv E st1"
    "Leases st1 = Leases st \<or> Leases st1 = kv_set (lease_Uuid l) l' (Leases st)" for st1 acc1 l'
    using Cons.IH [OF that(1,2)] stored_step [OF Cons.prems(3,4) that(3)] Cons.prems(4) by simp
  from Cons.prems(1) obtain close t where c: "autoClose_check E ctx st l = Ok (close, t)" by auto
  show ?case
  proof (cases close)
    case True
    with Cons.prems(1) c obtain st1 l' cs acc1 where ac: "AutoCloseLease E st l t md = Ok (st1, l', cs)"
      and rest: "withdrawLoop E ctx md st1 acc1 ls = Ok (st', acc')"
      by auto
    have "State l = LEASE_STATE_ACTIVE" using c True by (auto intro: autoClose_check_active)
    from next_ [OF rest AutoCloseLease_accounts [OF ac Cons.prems(2) l this]] AutoCloseLease_leases(1) [OF ac]
    show ?thesis by blast
  next
    case False
    define ts where "ts = (case withdrawSettleTime ctx l of None \<Rightarrow> LastSettledAt l | Some t \<Rightarrow> t)"
    from False Cons.prems(1) c obtain st1 r where s: "performSettlementCore E st l ts False = Ok (st1, r)"
      and or: "withdrawLoop E ctx md st1 acc ls = Ok (st', acc') \<or>
        (\<exists>st2 acc2. SetLease E st1 (l\<lparr>LastSettledAt := ts\<rparr>) = Ok st2 \<and> withdrawLoop E ctx md st2 acc2 ls = Ok (st', acc'))"
      by (auto simp: PerformSettlement_def Let_def ts_def [symmetric] split: if_split_asm)
    from or show ?thesis
      using next_ [of st1 acc] next_ settled_inv(1) [OF s, of E] settled_inv(2) [OF s] Cons.prems(2) settled_accounts [OF Cons.prems(2) l s]
      by blast
  qed
qed simp

lemma validateWithdraw_leases:
  assumes "validateWithdrawLoop st sender prov ls us = Ok (prov', res)" and "leases_wf E (Leases st)"
  shows "\<exists>new. res = ls @ new \<and> map lease_Uuid new = us \<and> stored st new"
  using assms(1)
proof (induction us arbitrary: ls prov)
  case (Cons u us)
  from Cons.prems obtain l prov1 where l: "kv_get (Leases st) u = Some l"
    and rest: "validateWithdrawLoop st sender prov1 (ls @ [l]) us = Ok (prov', res)"
    by (auto simp: GetLease_def split: if_split_asm option.splits)
  from Cons.IH [OF rest] obtain new where n: "res = ls @ l # new" "map lease_Uuid new = us" "stored st new" by auto
  moreover have "lease_Uuid l = u" using wf_get [OF assms(2) l] by (simp add: lease_wf_def)
  ultimately show ?case using l by (intro exI [of _ "l # new"]) (simp add: stored_def)
qed (simp add: stored_def)

lemma withdrawOne_accounts:
  assumes "withdrawOne E ctx md st l = Ok s" and "accounts_inv E st" and "kv_get (Leases st) u = Some l"
  shows "s = Settled st' cs \<Longrightarrow> accounts_inv E st'" and "s = AutoClosed st' cs \<Longrightarrow> accounts_inv E st'"
  using assms AutoCloseLease_accounts [OF _ assms(2,3)] settled_accounts(1) [OF assms(2,3)]
  by (auto simp: withdrawOne_def PerformSettlementSilent_def autoClose_check_def
      split: if_split_asm option.splits)

lemma providerLoop_accounts:
  assumes "providerLoop E ctx md st tot n m us = Ok (st', r)" and "accounts_inv E st"
  shows "accounts_inv E st'"
  using assms
  by (induction us arbitrary: st tot n m)
    (auto simp: GetLease_def okOr_def split: option.splits result.splits withdrawStep.splits
      dest: withdrawOne_accounts)

lemma Withdraw_accounts:
  assumes run: "Withdraw E ctx st msg = Ok (st', r)" and inv: "accounts_inv E st"
  shows "accounts_inv E st'"
  using run
proof (cases rule: Withdraw_run)
  case (Leases md prov ls acc st1 evs)
  from validateWithdraw_leases [OF Leases(2) inv_wf [OF inv]] withdrawLoop_accounts [OF Leases(3) inv] Leases(1)
  show ?thesis unfolding Leases(4) by auto
next
  case (Provider md us st1 x evs limit)
  from providerLoop_accounts [OF Provider(1) inv] show ?thesis by (simp add: Provider(2))
qed

end

end
