(* ===== verification/Lease_Steps.thy ===== *)
theory Lease_Steps
  imports Payouts_Inv
begin

text \<open>
  The billing module as a transition system: every handler is a sequence of small
  steps on the ledger (one lease moves along its state machine, one credit account is
  stored, one transfer is made, ...), so properties of all runs follow by rule induction.
\<close>

section \<open>The state machine of a lease\<close>

inductive lease_trans :: "time \<Rightarrow> Lease \<Rightarrow> Lease \<Rightarrow> bool" for now where
  Activate: "State l = LEASE_STATE_PENDING \<Longrightarrow>
    lease_trans now l (l\<lparr>State := LEASE_STATE_ACTIVE, AcknowledgedAt := Some now, LastSettledAt := now\<rparr>)"
| Reject: "State l = LEASE_STATE_PENDING \<Longrightarrow>
    lease_trans now l (l\<lparr>State := LEASE_STATE_REJECTED, RejectedAt := Some now, RejectionReason := reason\<rparr>)"
| Expire: "State l = LEASE_STATE_PENDING \<Longrightarrow>
    lease_trans now l (l\<lparr>State := LEASE_STATE_EXPIRED, ExpiredAt := Some now\<rparr>)"
| Close: "State l = LEASE_STATE_ACTIVE \<Longrightarrow> LastSettledAt l \<le> now \<Longrightarrow>
    lease_trans now l (l\<lparr>State := LEASE_STATE_CLOSED, ClosedAt := Some now, LastSettledAt := now,
      ClosureReason := reason\<rparr>)"
| Settle: "LastSettledAt l < t \<Longrightarrow> withdrawSettleTime ctx l = Some t \<Longrightarrow> BlockTime ctx = now \<Longrightarrow>
    lease_trans now l (l\<lparr>LastSettledAt := t\<rparr>)"
| Domain: "editable l \<Longrightarrow> findLeaseItemByServiceName l s = Ok i \<Longrightarrow> d = [] \<or> IsValidFQDN d = Ok () \<Longrightarrow>
    lease_trans now l (setItemDomain l i d)"

definition fresh_lease :: "time \<Rightarrow> Lease \<Rightarrow> bool" where
  "fresh_lease now l \<longleftrightarrow> State l = LEASE_STATE_PENDING \<and> CreatedAt l = now \<and> LastSettledAt l = now \<and>
     ClosedAt l = None \<and> AcknowledgedAt l = None \<and> RejectedAt l = None \<and> ExpiredAt l = None \<and>
     lease_Uuid l \<noteq> [] \<and> list_all (\<lambda>i. CustomDomain i = []) (Items l)"

definition catalogued :: "sku_state \<Rightarrow> Lease \<Rightarrow> bool" where
  \<comment> \<open>the provider of the lease is in the catalogue, and so are its SKUs, under that provider\<close>
  "catalogued sk l \<longleftrightarrow> isOk (GetProvider sk (lease_ProviderUuid l)) \<and>
     list_all (\<lambda>i. \<exists>s \<in> set_option (kv_get (SKUs sk) (SkuUuid i)). sku_ProviderUuid s = lease_ProviderUuid l) (Items l)"

definition billable :: "Lease \<Rightarrow> bool" where
  \<comment> \<open>time that has passed is charged to active leases and to those with a closing time\<close>
  "billable l \<longleftrightarrow> State l = LEASE_STATE_ACTIVE \<or> ClosedAt l \<noteq> None"

section \<open>Small steps of the ledger\<close>

text \<open>A step names the addresses \<open>F\<close> that may fund a credit account in it.\<close>

inductive micro :: "'x sdk \<Rightarrow> addr set \<Rightarrow> block_ctx \<Rightarrow> 'x ledger \<Rightarrow> 'x ledger \<Rightarrow> bool" for E F ctx where
  LeaseChanged: "kv_get (Leases st) (lease_Uuid l) = Some l \<Longrightarrow> lease_trans (BlockTime ctx) l l' \<Longrightarrow>
    SetLease E st l' = Ok st' \<Longrightarrow> micro E F ctx st st'"
| LeaseCreated: "kv_get (Leases st) (lease_Uuid l) = None \<Longrightarrow> fresh_lease (BlockTime ctx) l \<Longrightarrow>
    catalogued (sku_keeper st) l \<Longrightarrow> SetLease E st l = Ok st' \<Longrightarrow> micro E F ctx st st'"
| AccountStored: "SetCreditAccount E st ca = Ok st' \<Longrightarrow> micro E F ctx st st'"
| Paid: "kv_get (Leases st) (lease_Uuid l) = Some l \<Longrightarrow> billable l \<Longrightarrow> tenantAddr E l = Some t \<Longrightarrow>
    GetProvider (sku_keeper st) (lease_ProviderUuid l) = Ok p \<Longrightarrow>
    AccAddressFromBech32 E (PayoutAddress p) = Some pa \<Longrightarrow>
    SendCoins E (bank st) (DeriveCreditAddress E t) pa cs = Some b \<Longrightarrow> micro E F ctx st (st\<lparr>bank := b\<rparr>)"
| Funded: "AccAddressFromBech32 E tenant = Some t \<Longrightarrow> a \<in> F \<Longrightarrow>
    SendCoins E (bank st) a (DeriveCreditAddress E t) cs = Some b \<Longrightarrow> micro E F ctx st (st\<lparr>bank := b\<rparr>)"
| Registered: "micro E F ctx st (st\<lparr>bank := RegisterAccount E (bank st) a\<rparr>)"
| SequenceTaken: "micro E F ctx st (st\<lparr>LeaseSequence := LeaseSequence st + 1\<rparr>)"
| Emitted: "micro E F ctx st (emit evs st)"
| ParamsSet: "Params_Validate E p = Ok () \<Longrightarrow> micro E F ctx st (SetParams st p)"

abbreviation micros :: "'x sdk \<Rightarrow> addr set \<Rightarrow> block_ctx \<Rightarrow> 'x ledger \<Rightarrow> 'x ledger \<Rightarrow> bool" where
  "micros E F ctx \<equiv> (micro E F ctx)\<^sup>*\<^sup>*"

lemma micro1: "micro E F ctx st st' \<Longrightarrow> micros E F ctx st st'"
  by (rule r_into_rtranclp)

lemma micro_emit: "micros E F ctx st st' \<Longrightarrow> micros E F ctx st (emit evs st')"
  by (blast intro: rtranclp.rtrancl_into_rtrancl Emitted)

lemma micro_account: "micros E F ctx st st' \<Longrightarrow> SetCreditAccount E st' ca = Ok st'' \<Longrightarrow> micros E F ctx st st''"
  by (blast intro: rtranclp.rtrancl_into_rtrancl AccountStored)

lemma micro_lease:
  "micros E F ctx st st' \<Longrightarrow> kv_get (Leases st') (lease_Uuid l) = Some l \<Longrightarrow> lease_trans (BlockTime ctx) l l' \<Longrightarrow>
   SetLease E st' l' = Ok st'' \<Longrightarrow> micros E F ctx st st''"
  by (blast intro: rtranclp.rtrancl_into_rtrancl LeaseChanged)

lemma lease_trans_uuid: "lease_trans now l l' \<Longrightarrow> lease_Uuid l' = lease_Uuid l"
  by (induction rule: lease_trans.induct) (simp_all add: setItemDomain_def)

lemma settle_micros:
  assumes run: "performSettlementCore E st l t silent = Ok (st', r)" and l: "kv_get (Leases st) (lease_Uuid l) = Some l"
    and b: "LastSettledAt l < t \<Longrightarrow> billable l"
  shows "micros E F ctx st st'"
proof -
  from run have "st' = st \<or> LastSettledAt l < t \<and> settlementTransfer E st l (TransferAmounts r) = Ok st'"
    by (cases "t \<le> LastSettledAt l")
      (auto simp: performSettlementCore_def Let_def not_le split: if_split_asm)
  then show ?thesis
  proof
    assume "LastSettledAt l < t \<and> settlementTransfer E st l (TransferAmounts r) = Ok st'"
    with b show ?thesis
      by (auto simp: settlementTransfer_def DeriveCreditAddressFromBech32_def tenantAddr_def
          intro!: micro1 Paid [OF l])
  qed simp
qed

lemma settle_time_billable: "withdrawSettleTime ctx l = Some t \<Longrightarrow> billable l"
  by (auto simp: withdrawSettleTime_def billable_def split: if_split_asm)

lemma settle_positive:
  assumes "performSettlementCore E st l t silent = Ok (st', r)" and "AccruedAmounts r \<noteq> [] \<or> TransferAmounts r \<noteq> []"
  shows "LastSettledAt l < t"
  using assms by (cases "t \<le> LastSettledAt l") (auto simp: performSettlementCore_def Let_def)

lemma ShouldAutoClose_time:
  assumes "ShouldAutoCloseLease E ctx st l = Ok (c, t)" and "State l = LEASE_STATE_ACTIVE"
  shows "LastSettledAt l \<le> BlockTime ctx" and "c \<Longrightarrow> t = BlockTime ctx"
proof -
  have "\<not> timeSub (BlockTime ctx) (LastSettledAt l) < 0"
    using assms by (auto simp: ShouldAutoCloseLease_def Let_def split: if_split_asm)
  then show "LastSettledAt l \<le> BlockTime ctx" by (simp add: timeSub_def min_def split: if_split_asm)
  show "c \<Longrightarrow> t = BlockTime ctx"
    using assms by (auto simp: ShouldAutoCloseLease_def Let_def split: if_split_asm)
qed

section \<open>Every handler is a sequence of small steps\<close>

lemma acknowledgeLoop_micros:
  assumes "acknowledgeLoop E (BlockTime ctx) st cas ls = Ok (st', cas')"
    and "stored st ls" and "distinct (map lease_Uuid ls)" and "\<forall>l \<in> set ls. State l = LEASE_STATE_PENDING"
  shows "micros E F ctx st st'"
  using assms
proof (induction ls arbitrary: st cas)
  case (Cons l ls)
  let ?l = "l\<lparr>State := LEASE_STATE_ACTIVE, AcknowledgedAt := Some (BlockTime ctx), LastSettledAt := BlockTime ctx\<rparr>"
  from Cons.prems(1) obtain st1 cas1 where st1: "SetLease E st ?l = Ok st1"
    and rest: "acknowledgeLoop E (BlockTime ctx) st1 cas1 ls = Ok (st', cas')" by (auto simp: Let_def)
  have "stored st1 ls"
    using SetLease_sel(1) [OF st1] by (intro stored_step [OF Cons.prems(2,3), where l' = ?l]) simp
  moreover have "micros E F ctx st st1"
    using Cons.prems(2,4) st1 by (intro micro_lease [OF rtranclp.rtrancl_refl _ Activate]) (simp_all add: stored_def)
  ultimately show ?case using Cons.IH [OF rest] Cons.prems(3,4) by simp
qed simp

lemma rejectLoop_micros:
  assumes "rejectLoop E (BlockTime ctx) reason md st cas ls = Ok (st', cas')"
    and "stored st ls" and "distinct (map lease_Uuid ls)" and "\<forall>l \<in> set ls. State l = LEASE_STATE_PENDING"
  shows "micros E F ctx st st'"
  using assms
proof (induction ls arbitrary: st cas)
  case (Cons l ls)
  let ?l = "l\<lparr>State := LEASE_STATE_REJECTED, RejectedAt := Some (BlockTime ctx), RejectionReason := reason\<rparr>"
  from Cons.prems(1) obtain st1 cas1 where st1: "SetLease E st ?l = Ok st1"
    and rest: "rejectLoop E (BlockTime ctx) reason md st1 cas1 ls = Ok (st', cas')" by (auto simp: Let_def)
  have "stored st1 ls"
    using SetLease_sel(1) [OF st1] by (intro stored_step [OF Cons.prems(2,3), where l' = ?l]) simp
  moreover have "micros E F ctx st st1"
    using Cons.prems(2,4) st1 by (intro micro_lease [OF rtranclp.rtrancl_refl _ Reject]) (simp_all add: stored_def)
  ultimately show ?case using Cons.IH [OF rest] Cons.prems(3,4) by simp
qed simp

lemma settleForClose_trans:
  assumes "settleForClose E ctx reason by' st l = Ok (st', l', cs, role, dur)" and "State l = LEASE_STATE_ACTIVE"
    and "kv_get (Leases st) (lease_Uuid l) = Some l"
  shows "micros E F ctx st st'" and "lease_trans (BlockTime ctx) l l'" and "Leases st' = Leases st"
proof -
  from assms(1) obtain c t where c: "ShouldAutoCloseLease E ctx st l = Ok (c, t)"
    by (auto simp: settleForClose_def)
  note at = ShouldAutoClose_time [OF c assms(2)]
  let ?reason = "if c then ClosureReasonCreditExhausted else reason"
  from assms(1) c at(2) obtain r where s: "performSettlementCore E st l (BlockTime ctx) c = Ok (st', r)"
    and l': "l' = l\<lparr>State := LEASE_STATE_CLOSED, ClosedAt := Some (BlockTime ctx), LastSettledAt := BlockTime ctx,
                    ClosureReason := ?reason\<rparr>"
    by (cases c) (auto simp: settleForClose_def settleLease_def PerformSettlement_def PerformSettlementSilent_def Let_def)
  show "micros E F ctx st st'" using assms(2) by (intro settle_micros [OF s assms(3)]) (simp add: billable_def)
  show "lease_trans (BlockTime ctx) l l'" unfolding l' using assms(2) at(1) by (rule Close)
  show "Leases st' = Leases st" by (rule settled_inv(2) [OF s])
qed

lemma closeLoop_micros:
  assumes "closeLoop E ctx reason by' md st cas tot evs ls = Ok (st', cas', x)"
    and "stored st ls" and "distinct (map lease_Uuid ls)" and "\<forall>l \<in> set ls. State l = LEASE_STATE_ACTIVE"
  shows "micros E F ctx st st'"
  using assms
proof (induction ls arbitrary: st cas tot evs)
  case (Cons l ls)
  from Cons.prems(1) obtain st1 l' cs role dur st2 cas1 tot1 evs1
    where s: "settleForClose E ctx reason by' st l = Ok (st1, l', cs, role, dur)"
      and st2: "SetLease E st1 l' = Ok st2"
      and rest: "closeLoop E ctx reason by' md st2 cas1 tot1 evs1 ls = Ok (st', cas', x)"
    by (auto simp: Let_def)
  have l: "State l = LEASE_STATE_ACTIVE" "kv_get (Leases st) (lease_Uuid l) = Some l"
    using Cons.prems(2,4) by (simp_all add: stored_def)
  note c = settleForClose_trans [OF s l]
  have "stored st2 ls"
    using SetLease_sel(1) [OF st2] lease_trans_uuid [OF c(2)] c(3)
    by (intro stored_step [OF Cons.prems(2,3), where l' = l']) simp
  moreover have "micros E F ctx st st2"
    using l c(2) st2 by (intro micro_lease [OF c(1) _ c(2)]) (simp_all add: c(3))
  ultimately show ?case using Cons.IH [OF rest] Cons.prems(3,4) by simp
qed simp

lemma persistAccounts_micros: "persistAccounts E st cas order = Ok st' \<Longrightarrow> micros E F ctx st st'"
proof (induction order arbitrary: st)
  case (Cons t order)
  then obtain st1 where "SetCreditAccount E st (account_of cas t) = Ok st1" "persistAccounts E st1 cas order = Ok st'"
    by auto
  with Cons.IH [of st1] show ?case by (blast intro: converse_rtranclp_into_rtranclp AccountStored)
qed simp

lemma AutoCloseLease_micros:
  assumes run: "AutoCloseLease E st l (BlockTime ctx) md = Ok (st', l', cs)"
    and l: "State l = LEASE_STATE_ACTIVE" "kv_get (Leases st) (lease_Uuid l) = Some l" "LastSettledAt l \<le> BlockTime ctx"
  shows "micros E F ctx st st'"
proof -
  let ?l = "l\<lparr>State := LEASE_STATE_CLOSED, ClosedAt := Some (BlockTime ctx), LastSettledAt := BlockTime ctx,
     ClosureReason := ClosureReasonCreditExhausted\<rparr>"
  from run obtain st1 r st2 ca where s: "performSettlementCore E st l (BlockTime ctx) True = Ok (st1, r)"
    and st2: "SetLease E st1 ?l = Ok st2" and st3: "SetCreditAccount E st2 ca = Ok st'"
    by (auto simp: AutoCloseLease_def PerformSettlementSilent_def Let_def)
  have "micros E F ctx st st2"
    using l st2 settled_inv(2) [OF s] by (intro micro_lease [OF settle_micros [OF s l(2)] _ Close]) (simp_all add: billable_def)
  then show ?thesis using st3 by (rule micro_account)
qed

lemma ExpirePendingLease_micros:
  assumes run: "ExpirePendingLease E ctx st l = Ok st'" and l: "kv_get (Leases st) (lease_Uuid l) = Some l"
  shows "micros E F ctx st st'"
proof -
  let ?l = "l\<lparr>State := LEASE_STATE_EXPIRED, ExpiredAt := Some (BlockTime ctx)\<rparr>"
  from run obtain st2 ca st3 evs where p: "State l = LEASE_STATE_PENDING"
    and st2: "SetLease E st ?l = Ok st2" and st3: "SetCreditAccount E st2 ca = Ok st3" and st': "st' = emit evs st3"
    by (auto simp: ExpirePendingLease_def Let_def split: if_split_asm)
  have "micros E F ctx st st2" using l st2 by (intro micro_lease [OF rtranclp.rtrancl_refl _ Expire [OF p]])
  from micro_emit [OF micro_account [OF this st3]] show ?thesis by (simp add: st')
qed

definition keyed :: "'x ledger \<Rightarrow> bool" where
  \<comment> \<open>every lease is stored under its own identifier\<close>
  "keyed st \<longleftrightarrow> kv_ok (Leases st) \<and> kv_all (\<lambda>u l. lease_Uuid l = u) (Leases st)"

lemma keyed_get: "keyed st \<Longrightarrow> kv_get (Leases st) u = Some l \<Longrightarrow> kv_get (Leases st) (lease_Uuid l) = Some l"
  using kv_all_get [of "\<lambda>u l. lease_Uuid l = u" "Leases st" u l] by (simp add: keyed_def)

lemma keyed_uuid: "keyed st \<Longrightarrow> kv_get (Leases st) u = Some l \<Longrightarrow> lease_Uuid l = u"
  using kv_all_get [of "\<lambda>u l. lease_Uuid l = u" "Leases st" u l] by (simp add: keyed_def)

lemma wf_keyed: "leases_wf E (Leases st) \<Longrightarrow> keyed st"
  by (auto simp: keyed_def leases_wf_def lease_wf_def kv_all_def)

lemma keyed_set: "keyed st \<Longrightarrow> Leases st' = kv_set (lease_Uuid l) l (Leases st) \<Longrightarrow> keyed st'"
  by (simp add: keyed_def kv_all_set)

lemma micro_keyed: "micro E F ctx st st' \<Longrightarrow> keyed st \<Longrightarrow> keyed st'"
proof (induction rule: micro.induct)
  case (LeaseChanged st l l' st')
  then show ?case using SetLease_sel(1) keyed_set by blast
next
  case (LeaseCreated st l st')
  then show ?case using SetLease_sel(1) keyed_set by blast
qed (auto simp: keyed_def SetParams_def dest!: SetCreditAccount_sel)

lemma micros_keyed: "micros E F ctx st st' \<Longrightarrow> keyed st \<Longrightarrow> keyed st'"
  by (induction rule: rtranclp_induct) (auto intro: micro_keyed)

lemma expireLoop_micros:
  "expireLoop E ctx st us = Ok st' \<Longrightarrow> keyed st \<Longrightarrow> micros E F ctx st st'"
proof (induction us arbitrary: st)
  case (Cons u us)
  have "micros E F ctx st1 st'" if "micros E F ctx st st1" "expireLoop E ctx st1 us = Ok st'" for st1
    using that Cons.IH [of st1] micros_keyed Cons.prems(2) by blast
  note * = this
  show ?case
  proof (cases "\<exists>l st1. kv_get (Leases st) u = Some l \<and> ExpirePendingLease E ctx st l = Ok st1")
    case True
    then obtain l st1 where l: "kv_get (Leases st) u = Some l" "ExpirePendingLease E ctx st l = Ok st1" by blast
    then have st1: "micros E F ctx st st1"
      using ExpirePendingLease_micros [OF l(2)] keyed_get [OF Cons.prems(2) l(1)] by blast
    with * [OF st1] l Cons.prems(1) show ?thesis by (simp add: rtranclp_trans [OF st1])
  next
    case False
    with Cons.prems(1) have "expireLoop E ctx st us = Ok st'" by (auto split: option.splits result.splits)
    with * show ?thesis by blast
  qed
qed simp

lemma EndBlocker_micros: "EndBlocker E ctx st = Ok st' \<Longrightarrow> keyed st \<Longrightarrow> micros E F ctx st st'"
  by (auto simp: EndBlocker_def Let_def dest: expireLoop_micros)

lemma validatePending_leases:
  assumes "validatePendingLoop E st acc us = Ok res" and "keyed st"
  shows "\<exists>new. plb_leases res = plb_leases acc @ new \<and> map lease_Uuid new = us \<and> stored st new \<and>
    (\<forall>l \<in> set new. State l = LEASE_STATE_PENDING)"
  using assms(1)
proof (induction us arbitrary: acc)
  case (Cons u us)
  from Cons.prems obtain l acc' where l: "kv_get (Leases st) u = Some l" "State l = LEASE_STATE_PENDING"
    and rest: "validatePendingLoop E st (acc'\<lparr>plb_leases := plb_leases acc @ [l]\<rparr>) us = Ok res"
    by (auto simp: GetLease_def Let_def split: if_split_asm)
  from Cons.IH [OF rest] obtain new where "plb_leases res = plb_leases acc @ l # new" "map lease_Uuid new = us"
    "stored st new" "\<forall>l \<in> set new. State l = LEASE_STATE_PENDING" by auto
  with l keyed_uuid [OF assms(2) l(1)] show ?case by (intro exI [of _ "l # new"]) (simp add: stored_def)
qed (simp add: stored_def)

lemma pending_batch_leases:
  assumes "validatePendingLeaseBatch E st us = Ok v" and "keyed st"
  shows "map lease_Uuid (plb_leases v) = us" and "stored st (plb_leases v)"
    and "\<forall>l \<in> set (plb_leases v). State l = LEASE_STATE_PENDING"
  using validatePending_leases [OF assms(1) [unfolded validatePendingLeaseBatch_def] assms(2)] by auto

lemma AcknowledgeLease_micros:
  assumes run: "AcknowledgeLease E ctx st msg = Ok (st', r)" and k: "keyed st"
  shows "micros E F ctx st st'"
proof -
  from run obtain v cas st1 st2 evs where d: "distinct (ack_LeaseUuids msg)"
    and v: "validatePendingLeaseBatch E st (ack_LeaseUuids msg) = Ok v"
    and l: "acknowledgeLoop E (BlockTime ctx) st (plb_creditAccounts v) (plb_leases v) = Ok (st1, cas)"
    and p: "persistAccounts E st1 cas (plb_tenantOrder v) = Ok st2" and st': "st' = emit evs st2"
    by (auto simp: AcknowledgeLease_def Let_def MsgAcknowledgeLease_ValidateBasic_def ValidateBatchLeaseUUIDs_ok
        split: if_split_asm)
  note b = pending_batch_leases [OF v k]
  have "micros E F ctx st st1" using b d by (intro acknowledgeLoop_micros [OF l]) simp_all
  with persistAccounts_micros [OF p] show ?thesis unfolding st' by (meson micro_emit rtranclp_trans)
qed

lemma RejectLease_micros:
  assumes run: "RejectLease E ctx st msg = Ok (st', r)" and k: "keyed st"
  shows "micros E F ctx st st'"
proof -
  from run obtain md v cas st1 st2 evs where d: "distinct (rej_LeaseUuids msg)"
    and v: "validatePendingLeaseBatch E st (rej_LeaseUuids msg) = Ok v"
    and l: "rejectLoop E (BlockTime ctx) (rej_Reason msg) md st (plb_creditAccounts v) (plb_leases v) = Ok (st1, cas)"
    and p: "persistAccounts E st1 cas (plb_tenantOrder v) = Ok st2" and st': "st' = emit evs st2"
    by (auto simp: RejectLease_def Let_def MsgRejectLease_ValidateBasic_def ValidateBatchLeaseUUIDs_ok
        split: if_split_asm)
  note b = pending_batch_leases [OF v k]
  have "micros E F ctx st st1" using b d by (intro rejectLoop_micros [OF l]) simp_all
  with persistAccounts_micros [OF p] show ?thesis unfolding st' by (meson micro_emit rtranclp_trans)
qed

lemma validateCancel_keyed:
  assumes "validateCancelLoop st t ls us = Ok res" and "keyed st"
  shows "\<exists>new. res = ls @ new \<and> map lease_Uuid new = us \<and> stored st new \<and>
    (\<forall>l \<in> set new. State l = LEASE_STATE_PENDING \<and> Tenant l = t)"
  using assms(1)
proof (induction us arbitrary: ls)
  case (Cons u us)
  from Cons.prems obtain l where l: "kv_get (Leases st) u = Some l" "State l = LEASE_STATE_PENDING" "Tenant l = t"
    and rest: "validateCancelLoop st t (ls @ [l]) us = Ok res"
    by (auto simp: GetLease_def split: if_split_asm)
  from Cons.IH [OF rest] obtain new where "res = ls @ l # new" "map lease_Uuid new = us" "stored st new"
    "\<forall>l \<in> set new. State l = LEASE_STATE_PENDING \<and> Tenant l = t" by auto
  with l keyed_uuid [OF assms(2) l(1)] show ?case by (intro exI [of _ "l # new"]) (simp add: stored_def)
qed (simp add: stored_def)

context sdk_laws
begin

lemma CancelLease_micros:
  assumes run: "CancelLease E ctx st msg = Ok (st', r)" and k: "keyed st"
  shows "micros E F ctx st st'"
proof -
  from run obtain md ls ca ca' st1 st2 evs where us: "distinct (can_LeaseUuids msg)"
    and v: "validateCancelLoop st (can_Tenant msg) [] (can_LeaseUuids msg) = Ok ls"
    and l: "cancelLoop E (BlockTime ctx) md st ca ls = Ok (st1, ca')"
    and p: "SetCreditAccount E st1 ca' = Ok st2" and st': "st' = emit evs st2"
    by (auto simp: CancelLease_def Let_def MsgCancelLease_ValidateBasic_def ValidateBatchLeaseUUIDs_ok
        split: if_split_asm)
  from validateCancel_keyed [OF v k] have ls: "map lease_Uuid ls = can_LeaseUuids msg" "stored st ls"
    "\<forall>l \<in> set ls. State l = LEASE_STATE_PENDING \<and> Tenant l = can_Tenant msg" by auto
  have "rejectLoop E (BlockTime ctx) RejectionReasonCancelledByTenant md st [(can_Tenant msg, ca)] ls =
      Ok (st1, [(can_Tenant msg, ca')])"
    using cancelLoop_reject [OF l] ls(3) by simp
  from rejectLoop_micros [OF this] ls us have "micros E F ctx st st1" by simp
  from micro_emit [OF micro_account [OF this p]] show ?thesis by (simp add: st')
qed

end

lemma validateClose_leases:
  assumes "validateCloseLoop E st sender acc us = Ok res" and "keyed st"
  shows "\<exists>new. cb_leases res = cb_leases acc @ new \<and> map lease_Uuid new = us \<and> stored st new \<and>
    (\<forall>l \<in> set new. State l = LEASE_STATE_ACTIVE)"
  using assms(1)
proof (induction us arbitrary: acc)
  case (Cons u us)
  from Cons.prems obtain l acc' where l: "kv_get (Leases st) u = Some l" "State l = LEASE_STATE_ACTIVE"
    and rest: "validateCloseLoop E st sender (acc'\<lparr>cb_leases := cb_leases acc @ [l]\<rparr>) us = Ok res"
    by (auto simp: GetLease_def Let_def split: if_split_asm)
  from Cons.IH [OF rest] obtain new where "cb_leases res = cb_leases acc @ l # new" "map lease_Uuid new = us"
    "stored st new" "\<forall>l \<in> set new. State l = LEASE_STATE_ACTIVE" by auto
  with l keyed_uuid [OF assms(2) l(1)] show ?case by (intro exI [of _ "l # new"]) (simp add: stored_def)
qed (simp add: stored_def)

lemma CloseLease_micros:
  assumes run: "CloseLease E ctx st msg = Ok (st', r)" and k: "keyed st"
  shows "micros E F ctx st st'"
proof -
  from run obtain v md st1 cas tot evs st2 evs2 where d: "distinct (close_LeaseUuids msg)"
    and v: "validateCloseLoop E st (close_Sender msg) \<lparr>cb_leases = [], cb_creditAccounts = [],
                cb_tenantOrder = [], cb_providerCache = [], cb_closedBy = []\<rparr> (close_LeaseUuids msg) = Ok v"
    and l: "closeLoop E ctx (close_Reason msg) (cb_closedBy v) md st (cb_creditAccounts v) [] [] (cb_leases v) =
       Ok (st1, cas, tot, evs)"
    and p: "persistAccounts E st1 cas (cb_tenantOrder v) = Ok st2" and st': "st' = emit evs2 st2"
    by (auto simp: CloseLease_def Let_def MsgCloseLease_ValidateBasic_def ValidateBatchLeaseUUIDs_ok
        split: if_split_asm)
  from validateClose_leases [OF v k] d have "micros E F ctx st st1" by (intro closeLoop_micros [OF l]) auto
  with persistAccounts_micros [OF p] show ?thesis unfolding st' by (meson micro_emit rtranclp_trans)
qed

section \<open>Withdrawals\<close>

lemma autoClose_check_time:
  assumes "autoClose_check E ctx st l = Ok (True, t)"
  shows "t = BlockTime ctx" and "LastSettledAt l \<le> BlockTime ctx"
  using assms ShouldAutoClose_time [of E ctx st l True t] by (auto simp: autoClose_check_def split: if_split_asm)

lemma settle_write_micros:
  assumes "performSettlementCore E st l t silent = Ok (st1, r)" and "kv_get (Leases st) (lease_Uuid l) = Some l"
    and "withdrawSettleTime ctx l = Some t" and "LastSettledAt l < t"
    and "SetLease E st1 (l\<lparr>LastSettledAt := t\<rparr>) = Ok st'"
  shows "micros E F ctx st st'"
  using assms settled_inv(2) [OF assms(1)]
  by (intro micro_lease [OF settle_micros [OF assms(1,2) settle_time_billable [OF assms(3)]] _ Settle [OF assms(4,3) refl]]) simp_all

context sdk_laws
begin

lemma CoinsIsZero_Nil: "CoinsIsZero E []"
  by (simp add: CoinsIsZero_law)

lemma withdrawLoop_micros:
  assumes "withdrawLoop E ctx md st acc ls = Ok (st', acc')" and "stored st ls" and "distinct (map lease_Uuid ls)"
  shows "micros E F ctx st st'"
  using assms
proof (induction ls arbitrary: st acc)
  case (Cons l ls)
  have l: "kv_get (Leases st) (lease_Uuid l) = Some l" using Cons.prems(2) by (simp add: stored_def)
  have next_: "micros E F ctx st st'" if "withdrawLoop E ctx md st1 acc1 ls = Ok (st', acc')" "micros E F ctx st st1"
    "Leases st1 = Leases st \<or> Leases st1 = kv_set (lease_Uuid l) l' (Leases st)" for st1 acc1 l'
    using Cons.IH [OF that(1)] stored_step [OF Cons.prems(2,3) that(3)] Cons.prems(3) that(2)
    by (auto intro: rtranclp_trans)
  from Cons.prems(1) obtain close t where c: "autoClose_check E ctx st l = Ok (close, t)" by auto
  show ?case
  proof (cases close)
    case True
    with Cons.prems(1) c obtain st1 l' cs acc1 where ac: "AutoCloseLease E st l t md = Ok (st1, l', cs)"
      and rest: "withdrawLoop E ctx md st1 acc1 ls = Ok (st', acc')"
      by auto
    have c': "autoClose_check E ctx st l = Ok (True, t)" using c True by simp
    note tt = autoClose_check_time [OF c'] and act = autoClose_check_active [OF c']
    have "micros E F ctx st st1" using AutoCloseLease_micros [OF ac [unfolded tt(1)] act l tt(2)] .
    with next_ [OF rest] AutoCloseLease_leases(1) [OF ac] show ?thesis by blast
  next
    case False
    define ts where "ts = (case withdrawSettleTime ctx l of None \<Rightarrow> LastSettledAt l | Some t \<Rightarrow> t)"
    from False Cons.prems(1) c obtain st1 r where s: "performSettlementCore E st l ts False = Ok (st1, r)"
      and or: "withdrawLoop E ctx md st1 acc ls = Ok (st', acc') \<or> (\<not> CoinsIsZero E (AccruedAmounts r) \<and>
        (\<exists>st2 acc2. SetLease E st1 (l\<lparr>LastSettledAt := ts\<rparr>) = Ok st2 \<and> withdrawLoop E ctx md st2 acc2 ls = Ok (st', acc')))"
      by (auto simp: PerformSettlement_def Let_def ts_def [symmetric] split: if_split_asm)
    from or show ?thesis
    proof
      assume "withdrawLoop E ctx md st1 acc ls = Ok (st', acc')"
      moreover have "micros E F ctx st st1"
        using settle_time_billable by (intro settle_micros [OF s l]) (auto simp: ts_def split: option.splits)
      ultimately show ?thesis using next_ settled_inv(2) [OF s] by blast
    next
      assume "\<not> CoinsIsZero E (AccruedAmounts r) \<and>
        (\<exists>st2 acc2. SetLease E st1 (l\<lparr>LastSettledAt := ts\<rparr>) = Ok st2 \<and> withdrawLoop E ctx md st2 acc2 ls = Ok (st', acc'))"
      then obtain st2 acc2 where nz: "AccruedAmounts r \<noteq> []" and w: "SetLease E st1 (l\<lparr>LastSettledAt := ts\<rparr>) = Ok st2"
        and rest: "withdrawLoop E ctx md st2 acc2 ls = Ok (st', acc')" using CoinsIsZero_Nil by metis
      have lt: "LastSettledAt l < ts" using settle_positive [OF s] nz by blast
      then have "withdrawSettleTime ctx l = Some ts" by (auto simp: ts_def split: option.splits)
      from settle_write_micros [OF s l this lt w] have "micros E F ctx st st2" .
      moreover have "Leases st2 = kv_set (lease_Uuid l) (l\<lparr>LastSettledAt := ts\<rparr>) (Leases st)"
        using SetLease_sel(1) [OF w] settled_inv(2) [OF s] by simp
      ultimately show ?thesis using next_ [OF rest] by blast
    qed
  qed
qed simp

lemma withdrawOne_micros:
  assumes "withdrawOne E ctx md st l = Ok s" and l: "kv_get (Leases st) (lease_Uuid l) = Some l"
  shows "s = Settled st' cs \<Longrightarrow> micros E F ctx st st'" and "s = AutoClosed st' cs \<Longrightarrow> micros E F ctx st st'"
proof -
  from assms(1) obtain close t where c: "autoClose_check E ctx st l = Ok (close, t)"
    by (auto simp: withdrawOne_def)
  show "micros E F ctx st st'" if "s = Settled st' cs"
  proof -
    from that assms(1) c obtain ts st1 r where "withdrawSettleTime ctx l = Some ts" "LastSettledAt l < ts"
      "performSettlementCore E st l ts True = Ok (st1, r)" "SetLease E st1 (l\<lparr>LastSettledAt := ts\<rparr>) = Ok st'"
      by (auto simp: withdrawOne_def PerformSettlementSilent_def split: if_split_asm option.splits)
    with settle_write_micros [OF _ l] show ?thesis by blast
  qed
  show "micros E F ctx st st'" if "s = AutoClosed st' cs"
  proof -
    from that assms(1) c obtain st1 l' evs where c': "autoClose_check E ctx st l = Ok (True, t)"
      and ac: "AutoCloseLease E st l t md = Ok (st1, l', cs)" and st': "st' = emit evs st1"
      by (auto simp: withdrawOne_def split: if_split_asm option.splits)
    note tt = autoClose_check_time [OF c']
    from AutoCloseLease_micros [OF ac [unfolded tt(1)] autoClose_check_active [OF c'] l tt(2)]
    show ?thesis unfolding st' by (rule micro_emit)
  qed
qed

lemma providerLoop_micros:
  "providerLoop E ctx md st tot n m us = Ok (st', r) \<Longrightarrow> keyed st \<Longrightarrow> micros E F ctx st st'"
proof (induction us arbitrary: st tot n m)
  case (Cons u us)
  have go: "micros E F ctx st st'" if "micros E F ctx st st1" "providerLoop E ctx md st1 tot1 n1 m1 us = Ok (st', r)"
    for st1 tot1 n1 m1
    using that Cons.IH [OF that(2)] micros_keyed Cons.prems(2) by (meson rtranclp_trans)
  show ?case
  proof (cases "kv_get (Leases st) u")
    case None
    with Cons.prems(1) have "providerLoop E ctx md st tot n m us = Ok (st', r)" by (simp add: GetLease_def)
    then show ?thesis by (rule go [OF rtranclp.rtrancl_refl])
  next
    case (Some l)
    note l = keyed_get [OF Cons.prems(2) Some]
    from Cons.prems(1) Some consider "providerLoop E ctx md st tot n m us = Ok (st', r)"
      | s st1 cs tot1 n1 m1 where "withdrawOne E ctx md st l = Ok s" "s = Settled st1 cs \<or> s = AutoClosed st1 cs"
        "providerLoop E ctx md st1 tot1 n1 m1 us = Ok (st', r)"
      by (auto simp: GetLease_def split: result.splits withdrawStep.splits)
    then show ?thesis
    proof cases
      case 1
      then show ?thesis by (rule go [OF rtranclp.rtrancl_refl])
    next
      case 2
      from 2(2) withdrawOne_micros [OF 2(1) l] have "micros E F ctx st st1" by blast
      then show ?thesis using 2(3) by (rule go)
    qed
  qed
qed simp

lemma validateWithdraw_keyed:
  assumes "validateWithdrawLoop st sender prov ls us = Ok (prov', res)" and "keyed st"
  shows "\<exists>new. res = ls @ new \<and> map lease_Uuid new = us \<and> stored st new"
  using assms(1)
proof (induction us arbitrary: ls prov)
  case (Cons u us)
  from Cons.prems obtain l prov1 where l: "kv_get (Leases st) u = Some l"
    and rest: "validateWithdrawLoop st sender prov1 (ls @ [l]) us = Ok (prov', res)"
    by (auto simp: GetLease_def split: if_split_asm option.splits)
  from Cons.IH [OF rest] obtain new where n: "res = ls @ l # new" "map lease_Uuid new = us" "stored st new" by auto
  with l keyed_uuid [OF assms(2) l] show ?case by (intro exI [of _ "l # new"]) (simp add: stored_def)
qed (simp add: stored_def)

end

context sdk_laws
begin

lemma Withdraw_micros:
  assumes run: "Withdraw E ctx st msg = Ok (st', r)" and k: "keyed st"
  shows "micros E F ctx st st'"
  using run
proof (cases rule: Withdraw_run)
  case (Leases md prov ls acc st1 evs)
  from validateWithdraw_keyed [OF Leases(2) k] withdrawLoop_micros [OF Leases(3)] Leases(1)
  have "micros E F ctx st st1" by auto
  then show ?thesis unfolding Leases(4) by (rule micro_emit)
next
  case (Provider md us st1 x evs limit)
  from providerLoop_micros [OF Provider(1) k] show ?thesis unfolding Provider(2) by (rule micro_emit)
qed

end

section \<open>Funding, creation, domains and parameters\<close>

lemma FundCredit_micros:
  assumes run: "FundCredit E st msg = Ok (st', x)" and F: "set_option (AccAddressFromBech32 E (fc_Sender msg)) \<subseteq> F"
  shows "micros E F ctx st st'"
proof -
  from run obtain a t cs b st2 ca st3 evs where t: "AccAddressFromBech32 E (fc_Tenant msg) = Some t"
    and a: "AccAddressFromBech32 E (fc_Sender msg) = Some a"
    and b: "SendCoins E (bank st) a (DeriveCreditAddress E t) cs = Some b"
    and c: "(case GetCreditAccount E (st\<lparr>bank := b\<rparr>) (fc_Tenant msg) of
            Ok ca \<Rightarrow> Ok (st\<lparr>bank := b\<rparr>, ca)
          | Err e \<Rightarrow>
              if e \<noteq> ErrCreditAccountNotFound then Err ErrInvalidCreditOperation
              else
                Ok (if \<not> HasAccount E b (DeriveCreditAddress E t)
                    then st\<lparr>bank := b\<rparr>\<lparr>bank := RegisterAccount E b (DeriveCreditAddress E t)\<rparr> else st\<lparr>bank := b\<rparr>,
                    newCreditAccount E (fc_Tenant msg) (DeriveCreditAddress E t))
          | Panic \<Rightarrow> Panic) = Ok (st2, ca)"
    and st3: "SetCreditAccount E st2 ca = Ok st3" and st': "st' = emit evs st3"
    by (auto simp: FundCredit_def Let_def DeriveCreditAddressFromBech32_def)
  from c have st2: "st2 = st\<lparr>bank := b\<rparr> \<or> st2 = st\<lparr>bank := RegisterAccount E b (DeriveCreditAddress E t)\<rparr>"
    by (auto split: result.splits if_split_asm)
  have 1: "micros E F ctx st (st\<lparr>bank := b\<rparr>)" using F a by (intro micro1 [OF Funded [OF t _ b]]) simp
  have "micro E F ctx (st\<lparr>bank := b\<rparr>) (st\<lparr>bank := RegisterAccount E b (DeriveCreditAddress E t)\<rparr>)"
    using Registered [of E F ctx "st\<lparr>bank := b\<rparr>"] by simp
  with 1 st2 have "micros E F ctx st st2" by (auto intro: rtranclp.rtrancl_into_rtrancl)
  from micro_emit [OF micro_account [OF this st3]] show ?thesis by (simp add: st')
qed

lemma UpdateParams_micros:
  "UpdateParams E st msg = Ok st' \<Longrightarrow> micros E F ctx st st'"
  by (auto simp: UpdateParams_def MsgUpdateParams_ValidateBasic_def split: if_split_asm
      intro!: micro_emit [OF micro1 [OF ParamsSet]])

lemma SetItemCustomDomain_micros:
  assumes run: "SetItemCustomDomain E st msg = Ok st'" and k: "keyed st"
  shows "micros E F ctx st st'"
proof -
  from run obtain r0 where kp: "keeper_SetItemCustomDomain E st (scd_Sender msg) (scd_LeaseUuid msg)
      (scd_ServiceName msg) (scd_CustomDomain msg) = Ok (st', r0)"
    by (auto simp: SetItemCustomDomain_def)
  then obtain l role i d where l: "kv_get (Leases st) (scd_LeaseUuid msg) = Some l"
    and ed: "editable l" and i: "findLeaseItemByServiceName l (scd_ServiceName msg) = Ok i"
    and r: "clearItemDomain E st l i role = Ok (st', r0) \<or>
      claimItemDomain E st l i (scd_LeaseUuid msg) d role = Ok (st', r0)"
    by (auto simp: keeper_SetItemCustomDomain_def GetLease_def Let_def editable_def split: if_split_asm)
  have go: "micros E F ctx st (emit evs st1)"
    if "SetLease E st (setItemDomain l i d) = Ok st1" "d = [] \<or> IsValidFQDN d = Ok ()" for st1 d evs
    using that keyed_get [OF k l]
    by (intro micro_emit micro_lease [OF rtranclp.rtrancl_refl _ Domain [OF ed i]]) simp_all
  from r show ?thesis
  proof
    assume "clearItemDomain E st l i role = Ok (st', r0)"
    with go show ?thesis by (auto simp: clearItemDomain_def Let_def split: if_split_asm)
  next
    assume "claimItemDomain E st l i (scd_LeaseUuid msg) d role = Ok (st', r0)"
    with go show ?thesis by (auto simp: claimItemDomain_def Let_def split: if_split_asm option.splits)
  qed
qed

lemma lockItems_domains:
  "lockItems E sk p items rates ins = Ok (p', items', rates') \<Longrightarrow> list_all (\<lambda>i. CustomDomain i = []) items \<Longrightarrow>
   list_all (\<lambda>i. CustomDomain i = []) items'"
  by (induction ins arbitrary: p items rates) (auto split: if_split_asm)

definition lock_item :: "LeaseItemInput \<Rightarrow> coin \<Rightarrow> LeaseItem" where
  \<comment> \<open>what \<open>lockItems\<close> stores for an input item\<close>
  "lock_item i price = \<lparr>SkuUuid = in_SkuUuid i, Quantity = in_Quantity i, LockedPrice = price,
     ServiceName = in_ServiceName i, CustomDomain = []\<rparr>"

lemma lockItems_Cons:
  assumes "lockItems E sk p items rates (i # ins) = Ok (p', items', rates')"
  obtains s price rates2 where "kv_get (SKUs sk) (in_SkuUuid i) = Some s" and "sku_Active s"
    and "p = None \<or> p = Some (sku_ProviderUuid s)"
    and "ConvertBasePriceToPerSecond E (BasePrice s) (sku_Unit s) = Ok price"
    and "lockItems E sk (Some (sku_ProviderUuid s)) (items @ [lock_item i price]) rates2 ins = Ok (p', items', rates')"
  using assms by (auto simp: GetSKU_def lock_item_def split: if_split_asm)

lemma lockItems_catalogued:
  "lockItems E sk p items rates ins = Ok (p', items', rates') \<Longrightarrow>
   list_all (\<lambda>i. \<exists>s \<in> set_option (kv_get (SKUs sk) (SkuUuid i)). p = Some (sku_ProviderUuid s)) items \<Longrightarrow>
   list_all (\<lambda>i. \<exists>s \<in> set_option (kv_get (SKUs sk) (SkuUuid i)). p' = Some (sku_ProviderUuid s)) items'"
proof (induction ins arbitrary: p items rates)
  case (Cons i ins)
  from Cons.prems(1) show ?case
  proof (cases rule: lockItems_Cons)
    case (1 s price rates2)
    from Cons.IH [OF 1(5)] Cons.prems(2) 1(1,3) show ?thesis by (auto simp: list_all_iff lock_item_def)
  qed
qed simp

context sdk_laws
begin

lemma createLeaseInternal_micros:
  assumes run: "createLeaseInternal E ctx st t ins mh = Ok (st', res)"
    and fresh: "kv_get (Leases st) (next_uuid ctx st) = None"
  shows "micros E F ctx st st'"
proof (rule createLeaseInternal_run [OF run])
  fix p ca prov items rates ca' st2 l
  assume lk: "lockItems E (sku_keeper st) None [] [] ins = Ok (prov, items, rates)"
    and l: "l = \<lparr>lease_Uuid = next_uuid ctx st, Tenant = t, lease_ProviderUuid = (case prov of None \<Rightarrow> [] | Some p \<Rightarrow> p),
            Items = items, State = LEASE_STATE_PENDING, CreatedAt = BlockTime ctx, ClosedAt = None,
            LastSettledAt = BlockTime ctx, AcknowledgedAt = None, RejectedAt = None, RejectionReason = [],
            ExpiredAt = None, ClosureReason = [], lease_MetaHash = mh,
            MinLeaseDurationAtCreation = MinLeaseDuration p\<rparr>"
    and st2: "SetLease E (st\<lparr>LeaseSequence := LeaseSequence st + 1\<rparr>) l = Ok st2"
    and st3: "SetCreditAccount E st2 (ca'\<lparr>PendingLeaseCount := PendingLeaseCount ca' + 1\<rparr>) = Ok st'"
  have prov: "isOk (GetProvider (sku_keeper st) (case prov of None \<Rightarrow> [] | Some p \<Rightarrow> p))"
    using run lk by (auto simp: createLeaseInternal_def Let_def)
  have "list_all (\<lambda>i. \<exists>s \<in> set_option (kv_get (SKUs (sku_keeper st)) (SkuUuid i)).
      sku_ProviderUuid s = (case prov of None \<Rightarrow> [] | Some p \<Rightarrow> p)) items"
    using lockItems_catalogued [OF lk] by (auto simp: list_all_iff)
  with prov have cat: "catalogued (sku_keeper st) l" by (simp add: catalogued_def l)
  have "next_uuid ctx st \<noteq> []"
    using generated_valid [of ctx ModuleName "LeaseSequence st"] by (auto simp: next_uuid_def IsValidUUIDv7_def uuidPattern_eq)
  then have "fresh_lease (BlockTime ctx) l" using lockItems_domains [OF lk] by (simp add: fresh_lease_def l)
  then have "micro E F ctx (st\<lparr>LeaseSequence := LeaseSequence st + 1\<rparr>) st2"
    using fresh st2 cat by (intro LeaseCreated [of _ l]) (simp_all add: l)
  then have "micros E F ctx st st2"
    using micro1 [OF SequenceTaken] rtranclp.rtrancl_into_rtrancl by metis
  then show "micros E F ctx st st'" using st3 by (rule micro_account)
qed

end

section \<open>All messages\<close>

fun creates_lease :: "billing_msg \<Rightarrow> string option" where
  \<comment> \<open>the tenant of a message that creates a lease\<close>
  "creates_lease (CreateLeaseMsg m) = Some (cl_Tenant m)"
| "creates_lease (CreateLeaseForTenantMsg m) = Some (clt_Tenant m)"
| "creates_lease _ = None"

definition funders :: "'x sdk \<Rightarrow> billing_msg \<Rightarrow> addr set" where
  \<comment> \<open>the address a message takes coins from: the sender of a deposit\<close>
  "funders E m = (case m of FundCreditMsg x \<Rightarrow> set_option (AccAddressFromBech32 E (fc_Sender x)) | _ \<Rightarrow> {})"

context sdk_laws
begin

lemma billing_handle_micros:
  assumes run: "billing_handle E ctx st m = Ok (st', r)" and k: "keyed st"
    and fresh: "creates_lease m \<noteq> None \<Longrightarrow> kv_get (Leases st) (next_uuid ctx st) = None"
    and F: "funders E m \<subseteq> F"
  shows "micros E F ctx st st'"
proof -
  have em: "micros E F ctx st (emitLeaseCreatedEvent res t c st1)" if "micros E F ctx st st1" for res t c st1
    using that by (simp add: emitLeaseCreatedEvent_def micro_emit)
  show ?thesis
  proof (cases m)
    case (CreateLeaseMsg x)
    with run fresh show ?thesis by (auto simp: CreateLease_def intro!: em createLeaseInternal_micros)
  next
    case (CreateLeaseForTenantMsg x)
    with run fresh show ?thesis
      by (auto simp: CreateLeaseForTenant_def split: if_split_asm intro!: em createLeaseInternal_micros)
  qed (use run k F in \<open>auto simp: funders_def intro: FundCredit_micros CloseLease_micros Withdraw_micros UpdateParams_micros
      AcknowledgeLease_micros RejectLease_micros CancelLease_micros SetItemCustomDomain_micros\<close>)
qed

end

end
