(* ===== verification/Domains_Inv.thy ===== *)
theory Domains_Inv
  imports Lease_Steps
begin

text \<open>
  The reverse index of custom domains: it always holds exactly the claims of the live
  leases, whatever the order in which the code walks its Go maps.
\<close>

section \<open>What the two loops of the reconciliation do\<close>

definition own :: "Lease \<Rightarrow> string \<Rightarrow> CustomDomainTarget" where
  "own l s = \<lparr>tgt_LeaseUuid = lease_Uuid l, tgt_ServiceName = s\<rparr>"

lemma own_iff: "e = own l s \<longleftrightarrow> tgt_LeaseUuid e = lease_Uuid l \<and> tgt_ServiceName e = s"
  by (cases e) (simp add: own_def)

lemma own_sel [simp]: "tgt_LeaseUuid (own l s) = lease_Uuid l" "tgt_ServiceName (own l s) = s"
  by (simp_all add: own_def)

definition released :: "Lease \<Rightarrow> (string, string) kv \<Rightarrow> (string \<times> string) list \<Rightarrow>
    (string, CustomDomainTarget) kv \<Rightarrow> string \<Rightarrow> bool" where
  "released l new ps idx d \<longleftrightarrow>
     (\<exists>s. (s, d) \<in> set ps \<and> \<not> (editable l \<and> kv_get new s = Some d) \<and> kv_get idx d = Some (own l s))"

lemma releaseLoop_get:
  "kv_get (releaseLoop l new idx ps) d = (if released l new ps idx d then None else kv_get idx d)"
proof (induction ps arbitrary: idx)
  case (Cons p ps)
  obtain s e where p: "p = (s, e)" by fastforce
  let ?rel = "\<not> (editable l \<and> kv_get new s = Some e) \<and> kv_get idx e = Some (own l s)"
  have step: "releaseLoop l new idx (p # ps) = releaseLoop l new (if ?rel then kv_del e idx else idx) ps"
    by (auto simp: p own_iff split: option.split)
  show ?case
  proof (cases ?rel)
    case True
    then have "released l new (p # ps) idx d \<longleftrightarrow> d = e \<or> released l new ps (kv_del e idx) d"
      by (auto simp: released_def p)
    with True step Cons.IH show ?thesis by simp
  next
    case False
    then have "released l new (p # ps) idx d \<longleftrightarrow> released l new ps idx d" by (auto simp: released_def p)
    with step [unfolded if_not_P [OF False]] Cons.IH show ?thesis by simp
  qed
qed (simp add: released_def)

lemma releaseLoop_ok: "kv_ok idx \<Longrightarrow> kv_ok (releaseLoop l new idx ps)"
  by (induction l new idx ps rule: releaseLoop.induct) (auto split: option.split)

lemma installLoop_cons:
  "installLoop l idx ((s, d) # ns) =
     (case kv_get idx d of
        Some e \<Rightarrow> if e = own l s then installLoop l idx ns else Err ErrCustomDomainAlreadyClaimed
      | None \<Rightarrow> installLoop l (kv_set d (own l s) idx) ns)"
  by (auto simp: own_iff own_def split: option.split)

declare installLoop.simps(2) [simp del]

lemma installLoop_get:
  assumes "installLoop l idx ns = Ok idx'"
  shows "(s, d) \<in> set ns \<Longrightarrow> kv_get idx' d = Some (own l s)"
    and "d \<notin> snd ` set ns \<Longrightarrow> kv_get idx' d = kv_get idx d"
    and "kv_get idx d = Some e \<Longrightarrow> kv_get idx' d = Some e"
    and "kv_ok idx \<Longrightarrow> kv_ok idx'"
proof -
  have "(\<forall>s d. (s, d) \<in> set ns \<longrightarrow> kv_get idx' d = Some (own l s)) \<and>
    (\<forall>d. d \<notin> snd ` set ns \<longrightarrow> kv_get idx' d = kv_get idx d) \<and>
    (\<forall>d e. kv_get idx d = Some e \<longrightarrow> kv_get idx' d = Some e) \<and> (kv_ok idx \<longrightarrow> kv_ok idx')"
    using assms
  proof (induction ns arbitrary: idx)
    case (Cons n ns)
    obtain s d where n: "n = (s, d)" by fastforce
    show ?case
    proof (cases "kv_get idx d")
      case None
      with Cons.prems n have "installLoop l (kv_set d (own l s) idx) ns = Ok idx'" by (simp add: installLoop_cons)
      from Cons.IH [OF this] None show ?thesis by (auto simp: n) (metis option.distinct(1))+
    next
      case (Some e)
      with Cons.prems n have "installLoop l idx ns = Ok idx'" "e = own l s"
        by (auto simp: installLoop_cons split: if_split_asm)
      with Cons.IH [OF this(1)] Some show ?thesis by (auto simp: n)
    qed
  qed simp
  then show "(s, d) \<in> set ns \<Longrightarrow> kv_get idx' d = Some (own l s)"
    and "d \<notin> snd ` set ns \<Longrightarrow> kv_get idx' d = kv_get idx d"
    and "kv_get idx d = Some e \<Longrightarrow> kv_get idx' d = Some e"
    and "kv_ok idx \<Longrightarrow> kv_ok idx'" by auto
qed

text \<open>Installing succeeds exactly when no entry meets a foreign claim.\<close>

definition installable :: "Lease \<Rightarrow> (string, CustomDomainTarget) kv \<Rightarrow> (string \<times> string) list \<Rightarrow> bool" where
  "installable l idx ns \<longleftrightarrow>
     (\<forall>(s, d) \<in> set ns. (kv_get idx d = None \<or> kv_get idx d = Some (own l s)) \<and>
        (\<forall>(s', d') \<in> set ns. d' = d \<longrightarrow> s' = s))"

lemma installLoop_cases:
  "if installable l idx ns then \<exists>idx'. installLoop l idx ns = Ok idx'
   else installLoop l idx ns = Err ErrCustomDomainAlreadyClaimed"
proof (induction ns arbitrary: idx)
  case (Cons n ns)
  obtain s d where n: "n = (s, d)" by fastforce
  have inj: "own l s = own l s' \<longleftrightarrow> s = s'" for s' by (auto simp: own_def)
  show ?case
  proof (cases "kv_get idx d")
    case None
    have upd: "(kv_get (kv_set d (own l s) idx) d' = None \<or> kv_get (kv_set d (own l s) idx) d' = Some (own l s')) \<longleftrightarrow>
        (if d' = d then s' = s else kv_get idx d' = None \<or> kv_get idx d' = Some (own l s'))" for s' d'
      using inj by auto
    have "installable l idx (n # ns) \<longleftrightarrow> installable l (kv_set d (own l s) idx) ns"
      unfolding installable_def n list.set ball_simps upd split_beta fst_conv snd_conv using None
      by (intro iffI ballI conjI impI) (fastforce split: if_split_asm)+
    moreover have "installLoop l idx (n # ns) = installLoop l (kv_set d (own l s) idx) ns"
      using None by (simp add: n installLoop_cons)
    ultimately show ?thesis using Cons.IH [of "kv_set d (own l s) idx"] by presburger
  next
    case (Some e)
    have cl: "(kv_get idx d = None \<or> kv_get idx d = Some (own l s')) \<longleftrightarrow> e = own l s'" for s' using Some by simp
    have "installable l idx (n # ns) \<longleftrightarrow> e = own l s \<and> installable l idx ns"
    proof (cases "e = own l s")
      case True
      have "fst p = s" if "kv_get idx (snd p) = None \<or> kv_get idx (snd p) = Some (own l (fst p))" "snd p = d" for p
        using that cl [of "fst p"] True inj [of "fst p"] by simp
      with True show ?thesis
        unfolding installable_def n list.set ball_simps split_beta fst_conv snd_conv cl by blast
    qed (simp add: installable_def n Some)
    moreover have "installLoop l idx (n # ns) =
        (if e = own l s then installLoop l idx ns else Err ErrCustomDomainAlreadyClaimed)"
      using Some by (simp add: n installLoop_cons)
    ultimately show ?thesis using Cons.IH [of idx] by presburger
  qed
qed (simp add: installable_def)

section \<open>Independence of the iteration order\<close>

text \<open>
  Go walks \<open>prevByService\<close> and \<open>newByService\<close> in an arbitrary order.  Any order gives the
  same index and the same error, so all nodes agree.
\<close>

lemma releaseLoop_perm:
  assumes "kv_ok idx" and "set ps' = set ps"
  shows "releaseLoop l new idx ps' = releaseLoop l new idx ps"
  using assms by (intro kvs.entries_ext) (auto simp: releaseLoop_ok releaseLoop_get released_def)

lemma installLoop_perm:
  assumes ok: "kv_ok idx" and eq: "set ns' = set ns"
  shows "installLoop l idx ns' = installLoop l idx ns"
proof (cases "installable l idx ns")
  case True
  then obtain i where i: "installLoop l idx ns = Ok i" using installLoop_cases [of l idx ns] by auto
  have "installable l idx ns'" using True by (simp add: installable_def eq)
  then obtain i' where i': "installLoop l idx ns' = Ok i'" using installLoop_cases [of l idx ns'] by auto
  have "kv_get i' d = kv_get i d" for d
  proof (cases "d \<in> snd ` set ns")
    case True
    then obtain s where "(s, d) \<in> set ns" by auto
    then show ?thesis using installLoop_get(1) [OF i] installLoop_get(1) [OF i'] eq by simp
  next
    case False
    then show ?thesis using installLoop_get(2) [OF i] installLoop_get(2) [OF i'] eq by simp
  qed
  then have "i' = i" using installLoop_get(4) [OF i ok] installLoop_get(4) [OF i' ok] by (intro kvs.entries_ext)
  then show ?thesis by (simp add: i i')
next
  case False
  then have "\<not> installable l idx ns'" by (simp add: installable_def eq)
  with False show ?thesis using installLoop_cases [of l idx ns] installLoop_cases [of l idx ns'] by simp
qed

section \<open>The claims of a lease\<close>

definition svc_count :: "LeaseItem list \<Rightarrow> string \<Rightarrow> nat" where
  "svc_count items s = count_list (map ServiceName items) s"

definition domains_named :: "LeaseItem list \<Rightarrow> bool" where
  \<comment> \<open>an item with a domain is the only one of its service name\<close>
  "domains_named items \<longleftrightarrow> list_all (\<lambda>i. CustomDomain i \<noteq> [] \<longrightarrow> svc_count items (ServiceName i) = 1) items"

definition claims :: "LeaseItem list \<Rightarrow> string \<Rightarrow> string \<Rightarrow> bool" where
  "claims items s d \<longleftrightarrow> d \<noteq> [] \<and> list_ex (\<lambda>i. ServiceName i = s \<and> CustomDomain i = d) items"

lemma svc_unique:
  assumes "svc_count items s = 1" and "x \<in> set items" "y \<in> set items" "ServiceName x = s" "ServiceName y = s"
  shows "x = y"
  using assms
proof (induction items)
  case (Cons i items)
  have z: "z \<notin> set items" if "svc_count items s = 0" "ServiceName z = s" for z
    using that by (auto simp: svc_count_def count_list_0_iff)
  show ?case
  proof (cases "ServiceName i = s")
    case True
    then have "svc_count items s = 0" using Cons.prems(1) by (simp add: svc_count_def)
    with z Cons.prems show ?thesis by auto
  next
    case False
    with Cons show ?thesis by (auto simp: svc_count_def)
  qed
qed simp

lemma claims_fun:
  assumes "domains_named items" and "claims items s d" and "claims items s d'"
  shows "d = d'"
  using assms svc_unique [of items s] by (fastforce simp: domains_named_def claims_def list_all_iff list_ex_iff)

lemma domainsByService_ok: "kv_ok (domainsByService items)"
proof -
  have "kv_ok m \<Longrightarrow> kv_ok (foldl (\<lambda>m i. if CustomDomain i \<noteq> [] then kv_set (ServiceName i) (CustomDomain i) m else m) m items)"
    for m by (induction items arbitrary: m) auto
  then show ?thesis by (simp add: domainsByService_def)
qed

lemma domainsByService_get:
  assumes "domains_named items"
  shows "kv_get (domainsByService items) s = Some d \<longleftrightarrow> claims items s d"
proof -
  let ?f = "\<lambda>m i. if CustomDomain i \<noteq> [] then kv_set (ServiceName i) (CustomDomain i) m else m"
  have sound: "kv_get (foldl ?f m is) s = Some d \<Longrightarrow> claims is s d \<or> kv_get m s = Some d" for m d "is"
    by (induction "is" arbitrary: m) (fastforce simp: claims_def split: if_split_asm)+
  have dom: "(\<exists>d. claims is s d) \<or> kv_get m s \<noteq> None \<Longrightarrow> kv_get (foldl ?f m is) s \<noteq> None" for m "is"
  proof (induction "is" arbitrary: m)
    case (Cons i "is")
    have "(\<exists>d. claims is s d) \<or> kv_get (?f m i) s \<noteq> None"
      using Cons.prems by (auto simp: claims_def)
    from Cons.IH [OF this] show ?case by simp
  qed (auto simp: claims_def)
  show ?thesis
  proof
    assume "kv_get (domainsByService items) s = Some d"
    then show "claims items s d" using sound [of "[]" items d] by (simp add: domainsByService_def)
  next
    assume c: "claims items s d"
    then obtain d' where d': "kv_get (domainsByService items) s = Some d'"
      using dom [of items "[]"] by (auto simp: domainsByService_def)
    then have "claims items s d'" using sound [of "[]" items d'] by (simp add: domainsByService_def)
    with claims_fun [OF assms c this] d' show "kv_get (domainsByService items) s = Some d" by simp
  qed
qed

lemma domainsByService_set:
  "domains_named items \<Longrightarrow> (s, d) \<in> set (domainsByService items) \<longleftrightarrow> claims items s d"
  using kv_get_eq_Some [OF domainsByService_ok] domainsByService_get by blast

section \<open>The index is the set of live claims\<close>

definition index_sound :: "'x ledger \<Rightarrow> string \<Rightarrow> CustomDomainTarget \<Rightarrow> bool" where
  "index_sound st d e \<longleftrightarrow> (\<exists>l \<in> set_option (kv_get (Leases st) (tgt_LeaseUuid e)).
     editable l \<and> claims (Items l) (tgt_ServiceName e) d)"

definition index_complete :: "'x ledger \<Rightarrow> string \<Rightarrow> Lease \<Rightarrow> bool" where
  "index_complete st u l \<longleftrightarrow> domains_named (Items l) \<and>
     (editable l \<longrightarrow> list_all (\<lambda>i. CustomDomain i \<noteq> [] \<longrightarrow>
        kv_get (CustomDomainIndex st) (CustomDomain i) = Some (own l (ServiceName i))) (Items l))"

definition domain_inv :: "'x ledger \<Rightarrow> bool" where
  "domain_inv st \<longleftrightarrow> keyed st \<and> kv_ok (CustomDomainIndex st) \<and>
     kv_all (index_sound st) (CustomDomainIndex st) \<and> kv_all (index_complete st) (Leases st)"

lemma index_complete_iff:
  "index_complete st u l \<longleftrightarrow> domains_named (Items l) \<and>
     (editable l \<longrightarrow> (\<forall>s d. claims (Items l) s d \<longrightarrow> kv_get (CustomDomainIndex st) d = Some (own l s)))"
  by (auto simp: index_complete_def claims_def list_all_iff list_ex_iff)

lemma reconcile_run:
  assumes "reconcileCustomDomainIndex idx prev l = Ok idx'"
  defines "new \<equiv> domainsByService (Items l)"
  defines "rel \<equiv> releaseLoop l new idx (case prev of None \<Rightarrow> [] | Some p \<Rightarrow> domainsByService (Items p))"
  shows "editable l \<Longrightarrow> installLoop l rel new = Ok idx'" and "\<not> editable l \<Longrightarrow> idx' = rel"
  using assms by (simp_all add: reconcileCustomDomainIndex_def Let_def split: if_split_asm)

lemma SetLease_domain_inv:
  assumes run: "SetLease E st l = Ok st'" and inv: "domain_inv st" and nm: "domains_named (Items l)"
  shows "domain_inv st'"
proof -
  let ?u = "lease_Uuid l" and ?idx = "CustomDomainIndex st" and ?idx' = "CustomDomainIndex st'"
  let ?new = "domainsByService (Items l)"
  let ?ps = "case kv_get (Leases st) ?u of None \<Rightarrow> [] | Some p \<Rightarrow> domainsByService (Items p)"
  let ?rel = "releaseLoop l ?new ?idx ?ps"
  from run have rec: "reconcileCustomDomainIndex ?idx (kv_get (Leases st) ?u) l = Ok ?idx'"
    by (auto simp: SetLease_def split: if_split_asm)
  note L = SetLease_sel(1) [OF run] and rr = reconcile_run [OF rec]
  have key: "keyed st" and ok: "kv_ok ?idx" and okL: "kv_ok (Leases st)"
    using inv by (auto simp: domain_inv_def keyed_def)
  have sound: "index_sound st d e" if "kv_get ?idx d = Some e" for d e
    using inv that by (auto simp: domain_inv_def intro: kv_all_get)
  have compl: "index_complete st u k" if "kv_get (Leases st) u = Some k" for u k
    using inv that by (auto simp: domain_inv_def intro: kv_all_get)
  have rel: "kv_get ?rel d = (if released l ?new ?ps ?idx d then None else kv_get ?idx d)" for d
    by (rule releaseLoop_get)
  have keep: "kv_get ?idx' d = Some e" if "kv_get ?rel d = Some e" for d e
    using that rr installLoop_get(3) [of l ?rel ?new ?idx' d e] by (cases "editable l") auto
  have mine: "kv_get ?idx' d = Some (own l s)" if "editable l" "claims (Items l) s d" for s d
    using installLoop_get(1) [OF rr(1) [OF that(1)]] that(2) domainsByService_set [OF nm] by blast
  have from_rel: "kv_get ?rel d = Some e" if "kv_get ?idx' d = Some e" "\<not> (editable l \<and> (\<exists>s. claims (Items l) s d))" for d e
  proof (cases "editable l")
    case True
    have "d \<notin> snd ` set ?new" using that(2) True domainsByService_set [OF nm] by auto
    with installLoop_get(2) [OF rr(1) [OF True]] that(1) show ?thesis by simp
  next
    case False
    with rr(2) that(1) show ?thesis by simp
  qed
  have "keyed st'" using key L by (rule keyed_set)
  moreover have ok': "kv_ok ?idx'"
    using rr installLoop_get(4) [of l ?rel ?new ?idx'] releaseLoop_ok [OF ok] by (cases "editable l") auto
  moreover have "index_sound st' d e" if e: "kv_get ?idx' d = Some e" for d e
  proof (cases "editable l \<and> (\<exists>s. claims (Items l) s d)")
    case True
    then obtain s where s: "claims (Items l) s d" by blast
    with mine True e have "e = own l s" by auto
    with s True L show ?thesis by (simp add: index_sound_def)
  next
    case False
    from from_rel [OF e False] rel [of d] have i: "kv_get ?idx d = Some e" and nr: "\<not> released l ?new ?ps ?idx d"
      by (auto split: if_split_asm)
    from sound [OF i] obtain k where k: "kv_get (Leases st) (tgt_LeaseUuid e) = Some k" "editable k"
      "claims (Items k) (tgt_ServiceName e) d" by (auto simp: index_sound_def)
    show ?thesis
    proof (cases "tgt_LeaseUuid e = ?u")
      case eq: True
      have "domains_named (Items k)" using compl [OF k(1)] by (simp add: index_complete_def)
      then have "(tgt_ServiceName e, d) \<in> set ?ps" using k(1,3) eq domainsByService_set by simp
      moreover have "e = own l (tgt_ServiceName e)" using eq by (simp add: own_iff)
      ultimately have "editable l \<and> kv_get ?new (tgt_ServiceName e) = Some d"
        using nr i unfolding released_def by metis
      with domainsByService_get [OF nm] False show ?thesis by blast
    qed (use k L in \<open>auto simp: index_sound_def\<close>)
  qed
  moreover have "index_complete st' u k" if k: "kv_get (Leases st') u = Some k" for u k
  proof (cases "u = ?u")
    case True
    with k L have "k = l" by simp
    then show ?thesis using nm mine by (simp add: index_complete_iff)
  next
    case False
    with k L have k': "kv_get (Leases st) u = Some k" by simp
    have "lease_Uuid k = u" by (rule keyed_uuid [OF key k'])
    with False have ne: "own k s \<noteq> own l s'" for s s' by (simp add: own_def)
    have "kv_get ?idx' d = Some (own k s)" if "editable k" "claims (Items k) s d" for s d
    proof -
      have i: "kv_get ?idx d = Some (own k s)" using compl [OF k'] that by (simp add: index_complete_iff)
      then have "\<not> released l ?new ?ps ?idx d" using ne by (simp add: released_def)
      then show ?thesis using rel [of d] i keep by simp
    qed
    with compl [OF k'] show ?thesis by (simp add: index_complete_iff)
  qed
  moreover have okL': "kv_ok (Leases st')" using okL L by simp
  ultimately show ?thesis unfolding domain_inv_def kv_all_iff [OF ok'] kv_all_iff [OF okL'] by blast
qed

lemma domains_named_cong:
  assumes "map ServiceName items' = map ServiceName items" and "domains_named items"
    and "\<And>i. i \<in> set items' \<Longrightarrow> CustomDomain i \<noteq> [] \<Longrightarrow> i \<in> set items \<or> svc_count items (ServiceName i) = 1"
  shows "domains_named items'"
  using assms by (fastforce simp: domains_named_def list_all_iff svc_count_def)

lemma findItemLoop_count: "fst (findItemLoop s i (n, j) items) = n + svc_count items s"
  by (induction items arbitrary: i n j) (simp_all add: svc_count_def)

lemma findItemLoop_index:
  "snd (findItemLoop s i (n, j) items) = j \<and> svc_count items s = 0 \<or>
   (\<exists>k < length items. snd (findItemLoop s i (n, j) items) = i + k \<and> ServiceName (items ! k) = s)"
proof (induction items arbitrary: i n j)
  case (Cons x items)
  show ?case
  proof (cases "ServiceName x = s")
    case True
    with Cons.IH [of "i + 1" "n + 1" i] show ?thesis by (fastforce intro: exI [of _ 0] exI [of _ "Suc _"])
  next
    case False
    with Cons.IH [of "i + 1" n j] show ?thesis by (fastforce simp: svc_count_def intro: exI [of _ "Suc _"])
  qed
qed (simp add: svc_count_def)

lemma findLeaseItem_unique:
  assumes "findLeaseItemByServiceName l s = Ok i"
  shows "svc_count (Items l) s = 1" and "i < length (Items l)" and "ServiceName (Items l ! i) = s"
proof -
  let ?r = "findItemLoop s 0 (0, 0) (Items l)"
  have "fst ?r = 1" and i: "snd ?r = i"
    using assms by (auto simp: findLeaseItemByServiceName_def Let_def split: if_split_asm prod.splits)
  then show "svc_count (Items l) s = 1" using findItemLoop_count [of s 0 0 0 "Items l"] by simp
  then show "i < length (Items l)" and "ServiceName (Items l ! i) = s"
    using findItemLoop_index [of s 0 0 0 "Items l"] i by auto
qed

lemma lease_trans_named:
  assumes "lease_trans now l l'" and "domains_named (Items l)"
  shows "domains_named (Items l')"
  using assms
proof (induction rule: lease_trans.induct)
  case (Domain l s i d)
  note u = findLeaseItem_unique [OF Domain(2)]
  show ?case
  proof (rule domains_named_cong [OF _ Domain(4)])
    show "map ServiceName (Items (setItemDomain l i d)) = map ServiceName (Items l)"
      using u by (simp add: setItemDomain_def map_update list_update_same_conv)
  next
    fix x assume "x \<in> set (Items (setItemDomain l i d))"
    then have "x \<in> insert ((Items l ! i)\<lparr>CustomDomain := d\<rparr>) (set (Items l))"
      using set_update_subset_insert by (fastforce simp: setItemDomain_def)
    then show "x \<in> set (Items l) \<or> svc_count (Items l) (ServiceName x) = 1" using u by auto
  qed
qed simp_all

lemma domain_inv_cong:
  "Leases st' = Leases st \<Longrightarrow> CustomDomainIndex st' = CustomDomainIndex st \<Longrightarrow> domain_inv st' = domain_inv st"
  by (simp add: domain_inv_def keyed_def index_sound_def [abs_def] index_complete_def [abs_def])

lemma micro_domain_inv: "micro E F ctx st st' \<Longrightarrow> domain_inv st \<Longrightarrow> domain_inv st'"
proof (induction rule: micro.induct)
  case (LeaseChanged st l l' st')
  have "index_complete st (lease_Uuid l) l"
    using LeaseChanged by (auto simp: domain_inv_def intro: kv_all_get)
  then have "domains_named (Items l')" using lease_trans_named [OF LeaseChanged(2)] by (simp add: index_complete_def)
  then show ?case using SetLease_domain_inv [OF LeaseChanged(3,4)] by simp
next
  case (LeaseCreated st l st')
  then have "domains_named (Items l)" by (auto simp: fresh_lease_def domains_named_def list_all_iff)
  then show ?case using SetLease_domain_inv [OF LeaseCreated(4,5)] by simp
next
  case (AccountStored st ca st')
  then show ?case using domain_inv_cong [of st' st] SetCreditAccount_sel [of E st ca st'] by auto
next
  case (Emitted st evs)
  then show ?case using domain_inv_cong [of "emit evs st" st] by simp
next
  case (ParamsSet p st)
  then show ?case using domain_inv_cong [of "SetParams st p" st] by (simp add: SetParams_def)
qed (simp_all add: domain_inv_cong [of "_\<lparr>bank := _\<rparr>"] domain_inv_cong [of "_\<lparr>LeaseSequence := _\<rparr>"])

lemma micros_domain_inv: "micros E F ctx st st' \<Longrightarrow> domain_inv st \<Longrightarrow> domain_inv st'"
  by (induction rule: rtranclp_induct) (auto intro: micro_domain_inv)

lemma domain_lookup:
  assumes inv: "domain_inv st"
  shows "GetLeaseByCustomDomain st d = Ok (Some (l, s)) \<longleftrightarrow>
     kv_get (Leases st) (lease_Uuid l) = Some l \<and> editable l \<and> claims (Items l) s (ToLower (TrimSpace d))"
proof
  assume "GetLeaseByCustomDomain st d = Ok (Some (l, s))"
  then obtain e where e: "kv_get (CustomDomainIndex st) (ToLower (TrimSpace d)) = Some e" "tgt_ServiceName e = s"
    and l: "kv_get (Leases st) (tgt_LeaseUuid e) = Some l"
    by (auto simp: GetLeaseByCustomDomain_def GetLease_def split: option.splits)
  have "index_sound st (ToLower (TrimSpace d)) e"
    using inv e(1) by (auto simp: domain_inv_def intro: kv_all_get)
  with e l keyed_get [OF _ l] inv show "kv_get (Leases st) (lease_Uuid l) = Some l \<and> editable l \<and>
      claims (Items l) s (ToLower (TrimSpace d))"
    by (auto simp: index_sound_def domain_inv_def)
next
  assume a: "kv_get (Leases st) (lease_Uuid l) = Some l \<and> editable l \<and> claims (Items l) s (ToLower (TrimSpace d))"
  then have "index_complete st (lease_Uuid l) l" using inv by (auto simp: domain_inv_def intro: kv_all_get)
  with a have "kv_get (CustomDomainIndex st) (ToLower (TrimSpace d)) = Some (own l s)"
    by (simp add: index_complete_iff)
  with a show "GetLeaseByCustomDomain st d = Ok (Some (l, s))"
    by (simp add: GetLeaseByCustomDomain_def GetLease_def)
qed

end
