(* ===== verification/Billing_Inv.thy ===== *)
theory Billing_Inv
  imports Domains_Inv
begin

text \<open>
  The invariants of the billing module over whole runs: the bookkeeping of credit
  accounts, the life cycle of leases and the domain index, for every sequence of messages.
\<close>

section \<open>Life cycle\<close>

inductive documented :: "LeaseState \<Rightarrow> LeaseState \<Rightarrow> bool" where
  \<comment> \<open>the arrows of the state diagram in \<open>x/billing/docs/ARCHITECTURE.md\<close>\<close>
  "documented LEASE_STATE_PENDING LEASE_STATE_ACTIVE"
| "documented LEASE_STATE_PENDING LEASE_STATE_REJECTED"
| "documented LEASE_STATE_PENDING LEASE_STATE_EXPIRED"
| "documented LEASE_STATE_ACTIVE LEASE_STATE_CLOSED"

abbreviation state_le :: "LeaseState \<Rightarrow> LeaseState \<Rightarrow> bool" where
  "state_le \<equiv> documented\<^sup>*\<^sup>*"

lemma state_le_iff:
  "state_le s s' \<longleftrightarrow> s' = s \<or> s = LEASE_STATE_ACTIVE \<and> s' = LEASE_STATE_CLOSED \<or>
     s = LEASE_STATE_PENDING \<and> s' \<in> {LEASE_STATE_ACTIVE, LEASE_STATE_CLOSED, LEASE_STATE_REJECTED, LEASE_STATE_EXPIRED}"
proof
  assume "state_le s s'"
  then show "s' = s \<or> s = LEASE_STATE_ACTIVE \<and> s' = LEASE_STATE_CLOSED \<or>
     s = LEASE_STATE_PENDING \<and> s' \<in> {LEASE_STATE_ACTIVE, LEASE_STATE_CLOSED, LEASE_STATE_REJECTED, LEASE_STATE_EXPIRED}"
    by (induction rule: rtranclp_induct) (auto elim: documented.cases)
next
  have "state_le LEASE_STATE_PENDING LEASE_STATE_CLOSED"
    by (rule rtranclp_trans [of _ _ LEASE_STATE_ACTIVE]) (auto intro: documented.intros)
  then show "s' = s \<or> s = LEASE_STATE_ACTIVE \<and> s' = LEASE_STATE_CLOSED \<or>
     s = LEASE_STATE_PENDING \<and> s' \<in> {LEASE_STATE_ACTIVE, LEASE_STATE_CLOSED, LEASE_STATE_REJECTED, LEASE_STATE_EXPIRED} \<Longrightarrow>
     state_le s s'"
    by (auto intro: documented.intros)
qed

definition terms :: "Lease \<Rightarrow> string \<times> string \<times> string \<times> time \<times> byte list \<times> u64 \<times> LeaseItem list" where
  \<comment> \<open>what the parties agreed on: everything but the state, its time stamps and reasons, and the domains\<close>
  "terms l = (lease_Uuid l, Tenant l, lease_ProviderUuid l, CreatedAt l, lease_MetaHash l,
     MinLeaseDurationAtCreation l, map (\<lambda>i. i\<lparr>CustomDomain := []\<rparr>) (Items l))"

definition lease_le :: "Lease \<Rightarrow> Lease \<Rightarrow> bool" where
  "lease_le l l' \<longleftrightarrow> terms l' = terms l \<and> state_le (State l) (State l') \<and>
     (State l = LEASE_STATE_ACTIVE \<or> \<not> live (State l) \<longrightarrow> LastSettledAt l \<le> LastSettledAt l') \<and>
     (\<not> live (State l) \<longrightarrow> l' = l\<lparr>LastSettledAt := LastSettledAt l'\<rparr>) \<and>
     (if State l = LEASE_STATE_PENDING then State l' \<in> {LEASE_STATE_ACTIVE, LEASE_STATE_CLOSED} \<longrightarrow> AcknowledgedAt l' \<noteq> None
      else AcknowledgedAt l' = AcknowledgedAt l)"

lemma state_le_live: "state_le s s' \<Longrightarrow> \<not> live s \<Longrightarrow> s' = s"
  by (auto simp: state_le_iff)

lemma lease_le_state: "lease_le l l' \<Longrightarrow> state_le (State l) (State l')"
  by (simp add: lease_le_def)

lemma lease_le_refl [simp]: "lease_le l l"
  by (simp add: lease_le_def)

lemma lease_le_trans:
  assumes "lease_le a b" and "lease_le b c"
  shows "lease_le a c"
proof -
  have s: "state_le (State a) (State c)" using assms by (blast dest: lease_le_state intro: rtranclp_trans)
  have "LastSettledAt a \<le> LastSettledAt c" if "State a = LEASE_STATE_ACTIVE \<or> \<not> live (State a)"
  proof -
    have "state_le (State a) (State b)" using assms(1) by (simp add: lease_le_def)
    then have "State b = LEASE_STATE_ACTIVE \<or> \<not> live (State b)"
      using that by (auto simp: state_le_iff)
    with that assms show ?thesis by (auto simp: lease_le_def)
  qed
  moreover have "c = a\<lparr>LastSettledAt := LastSettledAt c\<rparr>" if "\<not> live (State a)"
  proof -
    have b: "b = a\<lparr>LastSettledAt := LastSettledAt b\<rparr>" using assms(1) that by (simp add: lease_le_def)
    then have "State b = State a" by (metis Lease.select_convs(5) Lease.surjective Lease.update_convs(8))
    then have "c = b\<lparr>LastSettledAt := LastSettledAt c\<rparr>" using assms(2) that by (simp add: lease_le_def)
    then show ?thesis by (subst (asm) b) simp
  qed
  moreover have "if State a = LEASE_STATE_PENDING then State c \<in> {LEASE_STATE_ACTIVE, LEASE_STATE_CLOSED} \<longrightarrow> AcknowledgedAt c \<noteq> None
      else AcknowledgedAt c = AcknowledgedAt a"
  proof -
    have a: "if State a = LEASE_STATE_PENDING then State b \<in> {LEASE_STATE_ACTIVE, LEASE_STATE_CLOSED} \<longrightarrow> AcknowledgedAt b \<noteq> None
        else AcknowledgedAt b = AcknowledgedAt a"
      and b: "if State b = LEASE_STATE_PENDING then State c \<in> {LEASE_STATE_ACTIVE, LEASE_STATE_CLOSED} \<longrightarrow> AcknowledgedAt c \<noteq> None
        else AcknowledgedAt c = AcknowledgedAt b" using assms by (simp_all add: lease_le_def)
    have "state_le (State a) (State b)" "state_le (State b) (State c)" using assms by (auto dest: lease_le_state)
    with a b show ?thesis unfolding state_le_iff by (auto split: if_split_asm)
  qed
  ultimately show ?thesis using s assms by (simp add: lease_le_def)
qed

lemma terms_domain: "i < length (Items l) \<Longrightarrow> terms (setItemDomain l i d) = terms l"
  by (simp add: terms_def setItemDomain_def map_update list_update_same_conv)

lemma lease_trans_le: "lease_trans now l l' \<Longrightarrow> lease_le l l'"
proof (induction rule: lease_trans.induct)
  case (Domain l s i d)
  have "State (setItemDomain l i d) = State l" "LastSettledAt (setItemDomain l i d) = LastSettledAt l"
    "AcknowledgedAt (setItemDomain l i d) = AcknowledgedAt l" by (simp_all add: setItemDomain_def)
  with Domain terms_domain [OF findLeaseItem_unique(2) [OF Domain(2)]] show ?case
    by (auto simp: lease_le_def editable_def)
qed (auto simp: lease_le_def terms_def state_le_iff withdrawSettleTime_def split: if_split_asm)

definition leases_le :: "(string, Lease) kv \<Rightarrow> (string, Lease) kv \<Rightarrow> bool" where
  "leases_le L L' \<longleftrightarrow> (\<forall>u l. kv_get L u = Some l \<longrightarrow> (\<exists>l'. kv_get L' u = Some l' \<and> lease_le l l'))"

lemma leases_le_refl [simp]: "leases_le L L"
  by (auto simp: leases_le_def)

lemma leases_le_trans: "leases_le A B \<Longrightarrow> leases_le B C \<Longrightarrow> leases_le A C"
  by (meson leases_le_def lease_le_trans)

lemma leases_le_set: "kv_get L u = Some l \<Longrightarrow> lease_le l l' \<Longrightarrow> leases_le L (kv_set u l' L)"
  by (auto simp: leases_le_def)

lemma micro_leases_le: "micro E F ctx st st' \<Longrightarrow> leases_le (Leases st) (Leases st')"
proof (induction rule: micro.induct)
  case (LeaseChanged st l l' st')
  then show ?case
    using SetLease_sel(1) [OF LeaseChanged(3)] lease_trans_uuid lease_trans_le by (simp add: leases_le_set)
next
  case (LeaseCreated st l st')
  then show ?case using SetLease_sel(1) [OF LeaseCreated(4)] by (auto simp: leases_le_def)
qed (auto simp: SetParams_def dest!: SetCreditAccount_sel)

lemma micros_leases_le: "micros E F ctx st st' \<Longrightarrow> leases_le (Leases st) (Leases st')"
  by (induction rule: rtranclp_induct) (auto intro: leases_le_trans micro_leases_le)

section \<open>Configuration\<close>

lemma micro_config:
  "micro E F ctx st st' \<Longrightarrow> params_ok E st \<Longrightarrow>
   params_ok E st' \<and> sku_keeper st' = sku_keeper st \<and> authority st' = authority st"
  by (induction rule: micro.induct)
    (auto simp: params_ok_def SetParams_def dest: SetLease_sel(3,4,6) dest!: SetCreditAccount_sel)

lemma micros_config:
  "micros E F ctx st st' \<Longrightarrow> params_ok E st \<Longrightarrow>
   params_ok E st' \<and> sku_keeper st' = sku_keeper st \<and> authority st' = authority st"
  by (induction rule: rtranclp_induct) (auto dest: micro_config)

section \<open>References to the catalogue\<close>

definition catalogue_inv :: "'x ledger \<Rightarrow> bool" where
  \<comment> \<open>every lease has an identifier and refers to the catalogue\<close>
  "catalogue_inv st \<longleftrightarrow> kv_all (\<lambda>u l. u \<noteq> [] \<and> catalogued (sku_keeper st) l) (Leases st)"

lemma lease_trans_refs:
  assumes "lease_trans now l l'"
  shows "lease_ProviderUuid l' = lease_ProviderUuid l" and "map SkuUuid (Items l') = map SkuUuid (Items l)"
  using assms
proof (induction rule: lease_trans.induct)
  case (Domain l s i d)
  { case 2 show ?case
      by (cases "i < length (Items l)")
        (simp_all add: setItemDomain_def map_update list_update_same_conv list_update_beyond) }
qed (simp_all add: setItemDomain_def)

lemma catalogued_cong:
  "lease_ProviderUuid l' = lease_ProviderUuid l \<Longrightarrow> map SkuUuid (Items l') = map SkuUuid (Items l) \<Longrightarrow>
   catalogued sk l \<Longrightarrow> catalogued sk l'"
  using list.pred_map [of "\<lambda>u. \<exists>s \<in> set_option (kv_get (SKUs sk) u). sku_ProviderUuid s = lease_ProviderUuid l" SkuUuid "Items l"]
    list.pred_map [of "\<lambda>u. \<exists>s \<in> set_option (kv_get (SKUs sk) u). sku_ProviderUuid s = lease_ProviderUuid l" SkuUuid "Items l'"]
  by (simp add: catalogued_def comp_def)

lemma micro_catalogue: "micro E F ctx st st' \<Longrightarrow> catalogue_inv st \<Longrightarrow> catalogue_inv st'"
proof (induction rule: micro.induct)
  case (LeaseChanged st l l' st')
  have "lease_Uuid l \<noteq> [] \<and> catalogued (sku_keeper st) l"
    using LeaseChanged by (auto simp: catalogue_inv_def dest: kv_all_get)
  with LeaseChanged SetLease_sel(1,4) [OF LeaseChanged(3)] lease_trans_refs [OF LeaseChanged(2)]
    lease_trans_uuid [OF LeaseChanged(2)] show ?case
    by (simp add: catalogue_inv_def kv_all_set catalogued_cong [of l' l])
next
  case (LeaseCreated st l st')
  with SetLease_sel(1,4) [OF LeaseCreated(4)] show ?case by (simp add: catalogue_inv_def kv_all_set fresh_lease_def)
qed (auto simp: catalogue_inv_def SetParams_def dest!: SetCreditAccount_sel)

lemma micros_catalogue: "micros E F ctx st st' \<Longrightarrow> catalogue_inv st \<Longrightarrow> catalogue_inv st'"
  by (induction rule: rtranclp_induct) (auto intro: micro_catalogue)

section \<open>The index of leases by SKU\<close>

definition sku_index_inv :: "'x ledger \<Rightarrow> bool" where
  \<comment> \<open>the index holds exactly the pairs of a stored lease and a SKU it uses\<close>
  "sku_index_inv st \<longleftrightarrow> kv_ok (LeaseBySKUIndex st) \<and>
     (\<forall>s u. kv_get (LeaseBySKUIndex st) (s, u) =
        (if \<exists>l \<in> set_option (kv_get (Leases st) u). s \<in> SkuUuid ` set (Items l) then Some True else None))"

lemma setSKUIndex_get:
  "kv_get (setSKUIndex l idx) (s, u) =
     (if u = lease_Uuid l \<and> s \<in> SkuUuid ` set (Items l) then Some True else kv_get idx (s, u))"
proof -
  have "kv_get (foldl (\<lambda>m i. kv_set (SkuUuid i, lease_Uuid l) True m) idx is) (s, u) =
     (if u = lease_Uuid l \<and> s \<in> SkuUuid ` set is then Some True else kv_get idx (s, u))" for "is"
    by (induction "is" arbitrary: idx) auto
  then show ?thesis unfolding setSKUIndex_def .
qed

lemma setSKUIndex_ok: "kv_ok idx \<Longrightarrow> kv_ok (setSKUIndex l idx)"
proof -
  have "kv_ok idx \<Longrightarrow> kv_ok (foldl (\<lambda>m i. kv_set (SkuUuid i, lease_Uuid l) True m) idx is)" for "is"
    by (induction "is" arbitrary: idx) auto
  then show "kv_ok idx \<Longrightarrow> kv_ok (setSKUIndex l idx)" by (simp add: setSKUIndex_def)
qed

lemma SetLease_sku_index:
  assumes run: "SetLease E st l = Ok st'" and inv: "sku_index_inv st"
    and same: "\<And>k. kv_get (Leases st) (lease_Uuid l) = Some k \<Longrightarrow> SkuUuid ` set (Items k) \<subseteq> SkuUuid ` set (Items l)"
  shows "sku_index_inv st'"
proof -
  have idx: "LeaseBySKUIndex st' = setSKUIndex l (LeaseBySKUIndex st)"
    using run by (auto simp: SetLease_def split: if_split_asm)
  have "kv_get (LeaseBySKUIndex st') (s, u) =
      (if \<exists>k \<in> set_option (kv_get (Leases st') u). s \<in> SkuUuid ` set (Items k) then Some True else None)" for s u
  proof (cases "u = lease_Uuid l")
    case True
    have "s \<notin> SkuUuid ` set (Items l) \<Longrightarrow> kv_get (LeaseBySKUIndex st) (s, u) = None"
      using inv same True unfolding sku_index_inv_def by (metis elem_set subsetD)
    with True show ?thesis by (auto simp: idx setSKUIndex_get SetLease_sel(1) [OF run])
  next
    case False
    with inv show ?thesis by (auto simp: idx setSKUIndex_get SetLease_sel(1) [OF run] sku_index_inv_def)
  qed
  then show ?thesis using inv by (simp add: sku_index_inv_def idx setSKUIndex_ok)
qed

lemma sku_index_cong:
  "LeaseBySKUIndex st' = LeaseBySKUIndex st \<Longrightarrow> Leases st' = Leases st \<Longrightarrow> sku_index_inv st' \<longleftrightarrow> sku_index_inv st"
  by (simp add: sku_index_inv_def)

lemma micro_sku_index: "micro E F ctx st st' \<Longrightarrow> sku_index_inv st \<Longrightarrow> sku_index_inv st'"
proof (induction rule: micro.induct)
  case (LeaseChanged st l l' st')
  have "SkuUuid ` set (Items l') = SkuUuid ` set (Items l)"
    using lease_trans_refs(2) [OF LeaseChanged(2)] by (metis set_map)
  with LeaseChanged lease_trans_uuid show ?case by (intro SetLease_sku_index [OF LeaseChanged(3,4)]) auto
next
  case (LeaseCreated st l st')
  then show ?case by (intro SetLease_sku_index [OF LeaseCreated(4,5)]) auto
next
  case (AccountStored st ca st')
  then show ?case using sku_index_cong [of st' st] SetCreditAccount_sel [of E st ca st'] by auto
qed (simp_all add: sku_index_inv_def SetParams_def emit_def)

lemma micros_sku_index: "micros E F ctx st st' \<Longrightarrow> sku_index_inv st \<Longrightarrow> sku_index_inv st'"
  by (induction rule: rtranclp_induct) (auto intro: micro_sku_index)

section \<open>The invariant and the messages that may be delivered\<close>

definition billing_inv :: "'x sdk \<Rightarrow> 'x ledger \<Rightarrow> bool" where
  "billing_inv E st \<longleftrightarrow> accounts_inv E st \<and> params_ok E st \<and> domain_inv st \<and>
     catalogue_inv st \<and> sku_index_inv st"

definition billing_adm :: "'x sdk \<Rightarrow> block_ctx \<Rightarrow> 'x ledger \<Rightarrow> billing_msg \<Rightarrow> bool" where
  \<comment> \<open>a lease is created for an address string the SDK prints, under an identifier that is
      not taken, and the store has room to count it\<close>
  "billing_adm E ctx st m \<longleftrightarrow> (\<forall>t \<in> set_option (creates_lease m).
     canonical E t \<and> kv_get (Leases st) (next_uuid ctx st) = None \<and> length (Leases st) + 1 < 2 ^ 64)"

context sdk_laws
begin

lemma billing_handle_accounts:
  assumes run: "billing_handle E ctx st m = Ok (st', r)" and inv: "accounts_inv E st" and par: "params_ok E st"
    and adm: "billing_adm E ctx st m"
  shows "accounts_inv E st'"
proof -
  have new: "accounts_inv E st1" if "createLeaseInternal E ctx st t ins mh = Ok (st1, res)" "creates_lease m = Some t"
    for t ins mh st1 res
    using adm that(2) createLeaseInternal_accounts [OF that(1) inv par] by (simp add: billing_adm_def)
  show ?thesis
  proof (cases m)
    case (CreateLeaseMsg x)
    with run new show ?thesis by (auto simp: CreateLease_def)
  next
    case (CreateLeaseForTenantMsg x)
    with run new show ?thesis by (auto simp: CreateLeaseForTenant_def split: if_split_asm)
  qed (use run inv in \<open>auto intro: FundCredit_accounts CloseLease_accounts Withdraw_accounts UpdateParams_accounts
      AcknowledgeLease_accounts RejectLease_accounts CancelLease_accounts SetItemCustomDomain_accounts\<close>)
qed

lemma adm_micros:
  assumes "billing_handle E ctx st m = Ok (st', r)" and "keyed st" and "billing_adm E ctx st m"
  shows "micros E (funders E m) ctx st st'"
  using assms by (intro billing_handle_micros) (auto simp: billing_adm_def)

lemma billing_preserves:
  assumes "billing_inv E st" and "billing_adm E ctx st m" and "billing_handle E ctx st m = Ok (st', r)"
  shows "billing_inv E st'"
proof -
  have m: "micros E (funders E m) ctx st st'" using assms by (intro adm_micros) (auto simp: billing_inv_def domain_inv_def)
  from assms(1) have i: "accounts_inv E st" "params_ok E st" "domain_inv st" "catalogue_inv st" "sku_index_inv st"
    by (simp_all add: billing_inv_def)
  from billing_handle_accounts [OF assms(3) i(1,2) assms(2)] micros_config [OF m i(2)] micros_domain_inv [OF m i(3)]
    micros_catalogue [OF m i(4)] micros_sku_index [OF m i(5)]
  show ?thesis by (simp add: billing_inv_def)
qed

lemma EndBlocker_preserves:
  assumes "billing_inv E st" and "EndBlocker E ctx st = Ok st'"
  shows "billing_inv E st'"
proof -
  from assms(1) have i: "accounts_inv E st" "params_ok E st" "domain_inv st" "catalogue_inv st" "sku_index_inv st"
    by (simp_all add: billing_inv_def)
  then have m: "micros E {} ctx st st'" using EndBlocker_micros [OF assms(2)] by (simp add: domain_inv_def)
  from EndBlocker_accounts [OF assms(2) i(1)] micros_config [OF m i(2)] micros_domain_inv [OF m i(3)]
    micros_catalogue [OF m i(4)] micros_sku_index [OF m i(5)]
  show ?thesis by (simp add: billing_inv_def)
qed

end

sublocale sdk_laws \<subseteq> billing_server: msg_server "billing_handle E" "billing_adm E" "billing_inv E"
  by unfold_locales (rule billing_preserves)

end
