(* ===== verification/Samples.thy ===== *)
theory Samples
  imports Billing_Inv
begin

text \<open>
  A small ledger on the reference implementation of the SDK, on which the properties
  are exercised: one tenant with an active and a pending lease, funded credit, and a
  claimed domain.
\<close>

definition sample_credit :: addr where
  "sample_credit = DeriveCreditAddress ref_sdk (bytes_of ''ten'')"

definition sample_l1 :: string where
  "sample_l1 = ''01890000-0000-7000-8000-0000000000c1''"

definition sample_l2 :: string where
  "sample_l2 = ''01890000-0000-7000-8000-0000000000c2''"

definition sample_price :: coin where
  "sample_price = \<lparr>Denom = ''umfx'', Amount = 2\<rparr>"

definition sample_active :: Lease where
  "sample_active = \<lparr>lease_Uuid = sample_l1, Tenant = ''manifest1ten'', lease_ProviderUuid = sample_puuid,
     Items = [\<lparr>SkuUuid = sample_suuid, Quantity = 2, LockedPrice = sample_price, ServiceName = ''web'',
       CustomDomain = ''app.example.com''\<rparr>],
     State = LEASE_STATE_ACTIVE, CreatedAt = 1699999000000000000, ClosedAt = None,
     LastSettledAt = 1699999900000000000, AcknowledgedAt = Some 1699999900000000000, RejectedAt = None,
     RejectionReason = [], ExpiredAt = None, ClosureReason = [], lease_MetaHash = [],
     MinLeaseDurationAtCreation = 3600\<rparr>"

definition sample_pending :: Lease where
  "sample_pending = \<lparr>lease_Uuid = sample_l2, Tenant = ''manifest1ten'', lease_ProviderUuid = sample_puuid,
     Items = [\<lparr>SkuUuid = sample_suuid, Quantity = 1, LockedPrice = sample_price, ServiceName = [],
       CustomDomain = []\<rparr>],
     State = LEASE_STATE_PENDING, CreatedAt = 1699990000000000000, ClosedAt = None,
     LastSettledAt = 1699990000000000000, AcknowledgedAt = None, RejectedAt = None,
     RejectionReason = [], ExpiredAt = None, ClosureReason = [], lease_MetaHash = [],
     MinLeaseDurationAtCreation = 3600\<rparr>"

definition sample_account :: CreditAccount where
  "sample_account = \<lparr>ca_Tenant = ''manifest1ten'',
     CreditAddress = ref_encode sample_credit,
     ActiveLeaseCount = 1, PendingLeaseCount = 1, ReservedAmounts = [\<lparr>Denom = ''umfx'', Amount = 21600\<rparr>]\<rparr>"

definition sample_bank :: ref_bank where
  "sample_bank = \<lparr>ref_tab = [(sample_credit, [\<lparr>Denom = ''umfx'', Amount = 100000\<rparr>])],
     ref_accs = [], ref_supply = []\<rparr>"

definition sample_ledger :: "ref_bank ledger" where
  "sample_ledger = \<lparr>bank = sample_bank, sku_keeper = sample_sku_state, authority = ''manifest1gov'',
     lg_Params = Some DefaultParams, Leases = [(sample_l1, sample_active), (sample_l2, sample_pending)],
     LeaseSequence = 2, CreditAccounts = [(bytes_of ''ten'', sample_account)],
     CreditAddressIndex = [(sample_credit, bytes_of ''ten'')],
     LeaseBySKUIndex = [((sample_suuid, sample_l1), True), ((sample_suuid, sample_l2), True)],
     CustomDomainIndex = [(''app.example.com'', \<lparr>tgt_LeaseUuid = sample_l1, tgt_ServiceName = ''web''\<rparr>)],
     events = []\<rparr>"

lemmas sample_data = sample_ledger_def sample_account_def sample_active_def sample_pending_def sample_price_def
  sample_bank_def

lemma sample_keys [simp]: "sample_l1 \<noteq> sample_l2" "sample_l2 \<noteq> sample_l1" "sample_l1 < sample_l2" "\<not> sample_l2 < sample_l1"
  by (simp_all add: sample_l1_def sample_l2_def)

lemma sample_luuids [simp]: "IsValidUUIDv7 sample_l1" "IsValidUUIDv7 sample_l2" "IsValidUUID sample_l1" "IsValidUUID sample_l2"
  by (simp_all add: IsValidUUIDv7_def IsValidUUID_def uuidPattern_eq sample_l1_def sample_l2_def isHex_def)

lemma sample_decode [simp]:
  "AccAddressFromBech32 ref_sdk ''manifest1ten'' = Some (bytes_of ''ten'')"
  "AccAddressString ref_sdk (bytes_of ''ten'') = ''manifest1ten''"
  by (simp_all add: ref_sdk_def ref_decode_def ref_encode_def ref_hrp_def bytes_of_def char_of_def bit_0)

lemma sample_addrs [simp]:
  "DeriveCreditAddress ref_sdk (bytes_of ''ten'') = sample_credit"
  "AccAddressFromBech32 ref_sdk ''manifest1pay'' = Some (bytes_of ''pay'')"
  "sample_credit \<noteq> bytes_of ''pay''" "bytes_of ''pay'' \<noteq> sample_credit" "\<not> bytes_of ''pay'' < sample_credit"
  by (simp_all add: sample_credit_def DeriveCreditAddress_def CreditAccountAddressPrefix_def ModuleName_def
      ref_sdk_def ref_decode_def ref_hrp_def bytes_of_def)

text \<open>The operations of the reference implementation, for evaluation.\<close>

lemma ref_ops:
  "CoinsAdd ref_sdk = ref_add" "CoinsSub ref_sdk = ref_sub" "CoinsAmountOf ref_sdk = amt"
  "NewCoin ref_sdk d n = (if d \<noteq> [] \<and> 0 \<le> n then Some \<lparr>Denom = d, Amount = n\<rparr> else None)"
  "NewCoins ref_sdk cs = ref_add [] cs" "CoinsIsZero ref_sdk cs \<longleftrightarrow> (\<forall>c \<in> set cs. Amount c = 0)"
  "CoinIsValid ref_sdk c \<longleftrightarrow> Denom c \<noteq> [] \<and> 0 \<le> Amount c" "CoinsIsValid ref_sdk = coins_ok"
  "CoinsEqual ref_sdk as bs \<longleftrightarrow> as = bs"
  "IntMul ref_sdk i j = (if \<bar>i * j\<bar> < 2 ^ 256 then Some (i * j) else None)"
  "GetBalance ref_sdk x a d = \<lparr>Denom = d, Amount = amt (ref_row x a) d\<rparr>" "SendCoins ref_sdk = ref_send"
  "HasAccount ref_sdk x a \<longleftrightarrow> a \<in> set (ref_accs x)"
  "RegisterAccount ref_sdk x a = x\<lparr>ref_accs := a # ref_accs x\<rparr>"
  by (simp_all add: ref_sdk_def)

lemmas ref_eval = ref_ops ref_add_def ref_sub_def ref_row_def ref_put_def ref_send_def kv_get_Cons Let_def

lemmas settle_eval = performSettlementCore_def timeSub_def settlementAccrual_def
  CalculateTotalAccruedForLease_def LeaseItemsToWithPrice_def CalculateAccruedAmount_def Second_def
  signed_divide_int_def MaxDurationSeconds_def getCreditBalancesForDenoms_def leaseItemDenoms_def
  DeriveCreditAddressFromBech32_def CalculateTransferAmounts_def settlementTransfer_def GetProvider_def
  sample_sku_state_def sample_stored_def

lemma sample_params_valid: "Params_Validate ref_sdk DefaultParams = Ok ()"
  by (simp add: Params_Validate_def DefaultParams_def MaxPendingTimeout_def MinPendingTimeout_def
      MaxPendingLeasesPerTenantUpperBound_def MaxMinLeaseDuration_def MaxItemsPerLeaseHardLimit_def
      MaxLeasesPerTenantUpperBound_def)

lemma sample_accounts_inv: "accounts_inv ref_sdk sample_ledger"
proof -
  have w: "lease_wf ref_sdk sample_l1 sample_active" "lease_wf ref_sdk sample_l2 sample_pending"
    by (simp_all add: lease_wf_def sample_data tenantAddr_def)
  have h: "held ref_sdk (Leases sample_ledger) (bytes_of ''ten'') d = (if ''umfx'' = d then 21600 else 0)"
    and a: "actives ref_sdk (Leases sample_ledger) (bytes_of ''ten'') = 1"
    and p: "pendings ref_sdk (Leases sample_ledger) (bytes_of ''ten'') = 1" for d
    by (simp_all add: held_def actives_def pendings_def hw_def aw_def pw_def sample_data tenantAddr_def
        reservation_def reserved_duration_def items_rate_def)
  have "account_matches ref_sdk (Leases sample_ledger) (bytes_of ''ten'') sample_account"
    by (simp add: account_matches_def h a p) (simp add: sample_account_def)
  moreover have "leases_wf ref_sdk (Leases sample_ledger)"
    using w by (simp add: leases_wf_def sample_ledger_def kv_ok_def kv_all_def)
  ultimately show ?thesis
    by (simp add: accounts_inv_def kv_all_def kv_ok_def encodable_def live_has_account_def)
      (simp add: sample_data tenantAddr_def kv_get_Cons)
qed

lemma sample_billing_inv: "billing_inv ref_sdk sample_ledger"
proof -
  have "domain_inv sample_ledger"
    by (simp add: domain_inv_def keyed_def sample_data kv_ok_def kv_all_def index_sound_def index_complete_def
        domains_named_def svc_count_def editable_def claims_def kv_get_Cons own_def)
  moreover have "catalogue_inv sample_ledger"
    by (simp add: catalogue_inv_def catalogued_def kv_all_def sample_data GetProvider_def sample_sku_state_def
        kv_get_Cons sample_sku_def) (simp add: sample_l1_def sample_l2_def)
  moreover have "sku_index_inv sample_ledger"
    by (auto simp: sku_index_inv_def sample_data kv_get_Cons kv_ok_def)
  ultimately show ?thesis using sample_accounts_inv sample_params_valid
    by (simp add: billing_inv_def params_ok_def) (simp add: sample_ledger_def)
qed

end
