(* ===== verification/Billing_Props.thy ===== *)
theory Billing_Props
  imports Samples
begin

text \<open>
  The properties of the billing module: what its messages can and cannot do to leases,
  credit accounts and domains, and how much money settlement moves.
\<close>

section \<open>Runs\<close>

context sdk_laws
begin

lemma run_leases_le:
  "billing_inv E st \<Longrightarrow> admissible_run (billing_handle E) (billing_adm E) cms st \<Longrightarrow>
   leases_le (Leases st) (Leases (deliverAll (billing_handle E) cms st))"
proof (induction cms arbitrary: st)
  case (Cons cm cms)
  let ?st = "deliver (billing_handle E) cm st"
  have adm: "billing_adm E (fst cm) st (snd cm)" using Cons.prems(2) by simp
  have le: "leases_le (Leases st) (Leases ?st)"
  proof (cases "\<exists>st' r. billing_handle E (fst cm) st (snd cm) = Ok (st', r)")
    case True
    then obtain st' r where r: "billing_handle E (fst cm) st (snd cm) = Ok (st', r)" by blast
    have "keyed st" using Cons.prems(1) by (simp add: billing_inv_def domain_inv_def)
    from micros_leases_le [OF adm_micros [OF r this adm]] r show ?thesis by (simp add: deliver_def)
  next
    case False
    then show ?thesis by (auto simp: deliver_def split: result.splits)
  qed
  have "billing_inv E ?st" using billing_server.deliver_inv [OF Cons.prems(1) adm] .
  from leases_le_trans [OF le Cons.IH [OF this]] Cons.prems(2) show ?case by (simp add: deliverAll_def)
qed (simp add: deliverAll_def)

lemma run_domain_inv:
  "billing_inv E st \<Longrightarrow> admissible_run (billing_handle E) (billing_adm E) cms st \<Longrightarrow>
   domain_inv (deliverAll (billing_handle E) cms st)"
  using billing_server.deliverAll_inv by (simp add: billing_inv_def)

end

text \<open>
  Claim C2.  Whatever messages are delivered, a stored lease is never lost, its terms
  (parties, items, quantities, locked prices, reservation period) never change, its state
  only moves along the arrows of the documented diagram (PENDING to ACTIVE, REJECTED or
  EXPIRED, ACTIVE to CLOSED, and no other), a pending lease becomes active or closed only with
  an acknowledgement on record, which then never changes, billing time never moves backwards,
  and once the lease has ended only its settlement time changes.
\<close>

theorem lease_lifecycle:
  assumes "sdk_laws E" and "billing_inv E st" and "admissible_run (billing_handle E) (billing_adm E) cms st"
    and "kv_get (Leases st) u = Some l"
  shows "\<exists>l'. kv_get (Leases (deliverAll (billing_handle E) cms st)) u = Some l' \<and>
     terms l' = terms l \<and> documented\<^sup>*\<^sup>* (State l) (State l') \<and>
     (State l = LEASE_STATE_ACTIVE \<or> \<not> live (State l) \<longrightarrow> LastSettledAt l \<le> LastSettledAt l') \<and>
     (\<not> live (State l) \<longrightarrow> l' = l\<lparr>LastSettledAt := LastSettledAt l'\<rparr>) \<and>
     (if State l = LEASE_STATE_PENDING then State l' \<in> {LEASE_STATE_ACTIVE, LEASE_STATE_CLOSED} \<longrightarrow> AcknowledgedAt l' \<noteq> None
      else AcknowledgedAt l' = AcknowledgedAt l)"
  using sdk_laws.run_leases_le [OF assms(1-3)] assms(4) unfolding leases_le_def lease_le_def by blast

definition sample_ack :: MsgAcknowledgeLease where
  "sample_ack = \<lparr>ack_Sender = ''manifest1prov'', ack_LeaseUuids = [sample_l2]\<rparr>"

theorem lease_lifecycle_witness:
  "\<exists>l'. kv_get (Leases (deliverAll (billing_handle ref_sdk) [(sample_ctx, AcknowledgeLeaseMsg sample_ack)] sample_ledger))
      sample_l2 = Some l' \<and> terms l' = terms sample_pending \<and> documented\<^sup>*\<^sup>* LEASE_STATE_PENDING (State l')"
proof -
  have "kv_get (Leases sample_ledger) sample_l2 = Some sample_pending" by (simp add: sample_ledger_def kv_get_Cons)
  from lease_lifecycle [OF ref.sdk_laws_axioms sample_billing_inv _ this,
      of "[(sample_ctx, AcknowledgeLeaseMsg sample_ack)]"]
  show ?thesis by (auto simp: billing_adm_def) (auto simp: sample_pending_def)
qed

section \<open>Domains\<close>

text \<open>
  Claim C11.  After any run, looking up a custom domain returns exactly the live lease and
  service that claim it (after trimming and lower-casing the query): no live claim is
  missing from the index, no ended lease is ever returned, and no two leases share a domain.
\<close>

theorem domain_resolution:
  assumes "sdk_laws E" and "billing_inv E st" and "admissible_run (billing_handle E) (billing_adm E) cms st"
  shows "GetLeaseByCustomDomain (deliverAll (billing_handle E) cms st) d = Ok (Some (l, s)) \<longleftrightarrow>
     kv_get (Leases (deliverAll (billing_handle E) cms st)) (lease_Uuid l) = Some l \<and> editable l \<and>
     claims (Items l) s (ToLower (TrimSpace d))"
  by (rule domain_lookup) (rule sdk_laws.run_domain_inv [OF assms])

theorem domain_resolution_witness:
  "GetLeaseByCustomDomain (deliverAll (billing_handle ref_sdk) [] sample_ledger) '' APP.example.com'' =
     Ok (Some (sample_active, ''web''))"
proof -
  have "ToLower (TrimSpace '' APP.example.com'') = ''app.example.com''"
    by (simp add: ToLower_def TrimSpace_def isSpaceByte_def lowerByte_def isUpperByte_def char_of_def bit_0)
  then show ?thesis
    unfolding domain_resolution [OF ref.sdk_laws_axioms sample_billing_inv, of "[]", simplified]
    by (simp add: deliverAll_def sample_ledger_def sample_active_def kv_get_Cons editable_def claims_def)
qed

text \<open>
  Claim C12.  The reconciliation of the domain index does not depend on the order in which
  Go iterates over its two maps: visiting the same entries in any order gives the same
  index and the same error on every node.
\<close>

theorem reconcile_order_independent:
  assumes "kv_ok idx" and "set ps = set (case prev of None \<Rightarrow> [] | Some p \<Rightarrow> domainsByService (Items p))"
    and "set ns = set (domainsByService (Items lease))"
  shows "reconcileCustomDomainIndex idx prev lease =
     (let idx' = releaseLoop lease (domainsByService (Items lease)) idx ps
      in if \<not> editable lease then Ok idx' else installLoop lease idx' ns)"
  using releaseLoop_perm [OF assms(1,2), of lease "domainsByService (Items lease)"]
    installLoop_perm [OF releaseLoop_ok [OF assms(1)] assms(3)]
  by (simp add: reconcileCustomDomainIndex_def Let_def)

theorem reconcile_order_independent_witness:
  "reconcileCustomDomainIndex (CustomDomainIndex sample_ledger) (Some sample_active) sample_active =
     (let idx' = releaseLoop sample_active (domainsByService (Items sample_active)) (CustomDomainIndex sample_ledger)
        [(''web'', ''app.example.com''), (''web'', ''app.example.com'')]
      in if \<not> editable sample_active then Ok idx' else installLoop sample_active idx' [(''web'', ''app.example.com'')])"
  by (rule reconcile_order_independent)
    (simp_all add: sample_ledger_def sample_active_def domainsByService_def kv_ok_def)

section \<open>Settlement\<close>

text \<open>
  Claim C6.  A settlement moves exactly what is due and nothing else: for every denom the
  smaller of the accrued charge (locked rates times whole seconds since the last
  settlement) and the credit balance, or, when the span exceeds the representable maximum and the
  caller asked for no error (\<open>PerformSettlementSilent\<close>), the whole credit in the lease's denoms, where
  the comments of \<open>settlement.go\<close> announce empty amounts; it goes from the tenant's credit address to the
  payout address of the lease's provider, and no other balance and no other state changes.
\<close>

theorem settlement_exact:
  assumes "sdk_laws E" and "performSettlementCore E st l t silent = Ok (st', r)"
    and "tenantAddr E l = Some a" and "prices_nn (Items l)"
  shows "(\<forall>d. amt (TransferAmounts r) d = due l t (bal E (bank st) (DeriveCreditAddress E a)) d) \<and>
    ((TransferAmounts r = [] \<and> st' = st) \<or>
     (\<exists>p pa b. GetProvider (sku_keeper st) (lease_ProviderUuid l) = Ok p \<and>
        AccAddressFromBech32 E (PayoutAddress p) = Some pa \<and> st' = st\<lparr>bank := b\<rparr> \<and>
        (\<forall>x d. bal E b x d = bal E (bank st) x d
            - (if x = DeriveCreditAddress E a then amt (TransferAmounts r) d else 0)
            + (if x = pa then amt (TransferAmounts r) d else 0))))"
proof -
  have a: "DeriveCreditAddressFromBech32 E (Tenant l) = Some (DeriveCreditAddress E a)"
    using assms(3) by (simp add: DeriveCreditAddressFromBech32_def tenantAddr_def)
  from sdk_laws.settle_law(2,3) [OF assms(1,2) a assms(4)] show ?thesis by blast
qed

lemma sample_settles:
  "isOk (performSettlementCore ref_sdk sample_ledger sample_active (BlockTime sample_ctx) False)"
  by (simp add: sample_data sample_ctx_def settle_eval ref_eval)

theorem settlement_exact_witness:
  "\<exists>st' r. performSettlementCore ref_sdk sample_ledger sample_active (BlockTime sample_ctx) False = Ok (st', r) \<and>
     amt (TransferAmounts r) ''umfx'' = 400"
proof -
  obtain st' r where r: "performSettlementCore ref_sdk sample_ledger sample_active (BlockTime sample_ctx) False = Ok (st', r)"
    using sample_settles by (auto elim: isOkE)
  have "tenantAddr ref_sdk sample_active = Some (bytes_of ''ten'')" "prices_nn (Items sample_active)"
    by (simp_all add: sample_data tenantAddr_def prices_nn_def)
  from settlement_exact [OF ref.sdk_laws_axioms r this]
  have "amt (TransferAmounts r) ''umfx'' =
      due sample_active (BlockTime sample_ctx) (bal ref_sdk sample_bank sample_credit) ''umfx''"
    by (simp add: sample_ledger_def)
  also have "\<dots> = 400"
    by (simp add: due_def sample_data sample_ctx_def seconds_def timeSub_def Second_def MaxDurationSeconds_def items_rate_def)
      (simp add: ref_eval)
  finally show ?thesis using r by blast
qed

lemma div_sum_list:
  fixes ds :: "int list"
  assumes "0 < m" and "ds \<noteq> []"
  shows "(\<Sum>d\<leftarrow>ds. d div m) \<le> sum_list ds div m" and "sum_list ds div m \<le> (\<Sum>d\<leftarrow>ds. d div m) + (int (length ds) - 1)"
proof -
  have step: "x div m + y div m \<le> (x + y) div m \<and> (x + y) div m \<le> x div m + y div m + 1" for x y :: int
  proof -
    have "(x + y) div m = x div m + y div m + (x mod m + y mod m) div m" by (rule div_add1_eq)
    moreover have b: "0 \<le> x mod m" "x mod m < m" "0 \<le> y mod m" "y mod m < m" using assms(1) by simp_all
    then have z: "x mod m + y mod m < 2 * m" by linarith
    moreover have "0 \<le> (x mod m + y mod m) div m" using b assms(1) by (simp add: pos_imp_zdiv_nonneg_iff)
    moreover have "(x mod m + y mod m) div m * m \<le> x mod m + y mod m"
      using assms(1) by (simp add: minus_mod_eq_div_mult [symmetric])
    with z have "(x mod m + y mod m) div m * m < 2 * m" by linarith
    then have "(x mod m + y mod m) div m < 2" using assms(1) by simp
    ultimately show ?thesis by simp
  qed
  from assms(2) have "(\<Sum>d\<leftarrow>ds. d div m) \<le> sum_list ds div m \<and> sum_list ds div m \<le> (\<Sum>d\<leftarrow>ds. d div m) + (int (length ds) - 1)"
  proof (induction ds rule: list_nonempty_induct)
    case (cons d ds)
    with step [of d "sum_list ds"] show ?case by simp
  qed simp
  then show "(\<Sum>d\<leftarrow>ds. d div m) \<le> sum_list ds div m" "sum_list ds div m \<le> (\<Sum>d\<leftarrow>ds. d div m) + (int (length ds) - 1)"
    by simp_all
qed

text \<open>
  Claim C16.  Charging a span of time in any number of consecutive parts never charges more
  than charging it at once, and at most one second's rate less for every part after the first:
  the charges of the parts, before they are capped by the credit, add up to at most the charge
  of the whole, and fall short of it by at most their number less one times the rate.
\<close>

theorem accrual_split:
  assumes "sdk_laws E" and "prices_nn items" and "spans \<noteq> []"
    and "list_all2 (\<lambda>span charge. 0 \<le> span \<and>
       CalculateTotalAccruedForLease E (LeaseItemsToWithPrice items) span = Ok charge) spans charges"
    and "CalculateTotalAccruedForLease E (LeaseItemsToWithPrice items) (sum_list spans) = Ok whole"
  shows "(\<Sum>c\<leftarrow>charges. amt c d) \<le> amt whole d \<and>
     amt whole d \<le> (\<Sum>c\<leftarrow>charges. amt c d) + (int (length spans) - 1) * items_rate items d"
proof -
  note law = sdk_laws.TotalAccrued_law [OF assms(1)]
  have r: "0 \<le> items_rate items d" by (rule items_rate_nonneg [OF assms(2)])
  have "0 \<le> sum_list spans \<and> (\<Sum>c\<leftarrow>charges. amt c d) = items_rate items d * (\<Sum>s\<leftarrow>spans. s div Second)"
    using assms(4)
  proof (induction rule: list_all2_induct)
    case (Cons s ss c cs)
    with law [of items s c] show ?case by (simp add: distrib_left)
  qed simp
  then have "0 \<le> sum_list spans" and c: "(\<Sum>c\<leftarrow>charges. amt c d) = items_rate items d * (\<Sum>s\<leftarrow>spans. s div Second)" by simp_all
  then have w: "amt whole d = items_rate items d * (sum_list spans div Second)" using law [OF assms(5)] by simp
  have S: "0 < Second" by (simp add: Second_def)
  show ?thesis
    using mult_left_mono [OF div_sum_list(1) [OF S assms(3)] r] mult_left_mono [OF div_sum_list(2) [OF S assms(3)] r]
    unfolding c w by (simp add: distrib_left mult.commute)
qed

theorem accrual_split_witness:
  "\<exists>charges whole. list_all2 (\<lambda>span charge. CalculateTotalAccruedForLease ref_sdk
       (LeaseItemsToWithPrice (Items sample_active)) span = Ok charge) [1500000000, 2500000000, 700000000] charges \<and>
     CalculateTotalAccruedForLease ref_sdk (LeaseItemsToWithPrice (Items sample_active)) 4700000000 = Ok whole \<and>
     (\<Sum>c\<leftarrow>charges. amt c ''umfx'') \<le> amt whole ''umfx'' \<and>
     amt whole ''umfx'' \<le> (\<Sum>c\<leftarrow>charges. amt c ''umfx'') + 2 * items_rate (Items sample_active) ''umfx''"
proof -
  have run: "isOk (CalculateTotalAccruedForLease ref_sdk (LeaseItemsToWithPrice (Items sample_active)) n)"
    if "n \<in> {1500000000, 2500000000, 700000000, 4700000000}" for n
    using that by (auto simp: CalculateTotalAccruedForLease_def LeaseItemsToWithPrice_def sample_data
        CalculateAccruedAmount_def Second_def signed_divide_int_def MaxDurationSeconds_def ref_sdk_def ref_add_def)
  then obtain a1 a2 a3 a where
    r: "CalculateTotalAccruedForLease ref_sdk (LeaseItemsToWithPrice (Items sample_active)) 1500000000 = Ok a1"
    "CalculateTotalAccruedForLease ref_sdk (LeaseItemsToWithPrice (Items sample_active)) 2500000000 = Ok a2"
    "CalculateTotalAccruedForLease ref_sdk (LeaseItemsToWithPrice (Items sample_active)) 700000000 = Ok a3"
    "CalculateTotalAccruedForLease ref_sdk (LeaseItemsToWithPrice (Items sample_active)) 4700000000 = Ok a"
    by (meson insertCI isOkE)
  have "prices_nn (Items sample_active)" by (simp add: sample_data prices_nn_def)
  from accrual_split [OF ref.sdk_laws_axioms this, of "[1500000000, 2500000000, 700000000]" "[a1, a2, a3]" a "''umfx''"] r
  show ?thesis by (intro exI [of _ "[a1, a2, a3]"] exI [of _ a]) simp
qed

section \<open>Withdrawable amounts and automatic closing\<close>

definition credit_exhausted :: "(string \<Rightarrow> int) \<Rightarrow> Lease \<Rightarrow> time \<Rightarrow> bool" where
  \<comment> \<open>with the balances \<open>b\<close> of its tenant's credit: some denom's charge since the last settlement is
      positive and reaches the balance, or more time has passed than can be charged at all, or no
      time has passed and an item's denom has no credit\<close>
  "credit_exhausted b l now \<longleftrightarrow>
     (let s = seconds now (LastSettledAt l)
      in if now = LastSettledAt l then \<exists>i \<in> set (Items l). b (Denom (LockedPrice i)) = 0
         else Items l \<noteq> [] \<and> MaxDurationSeconds < s \<or>
           (\<exists>d. 0 < items_rate (Items l) d * s \<and> b d \<le> items_rate (Items l) d * s))"

lemma coins_ex_iff:
  assumes "coins_ok x"
  shows "(\<exists>c \<in> set x. f (Denom c) \<le> Amount c) \<longleftrightarrow> (\<exists>d. 0 < amt x d \<and> f d \<le> amt x d)"
proof
  assume "\<exists>c \<in> set x. f (Denom c) \<le> Amount c"
  then show "\<exists>d. 0 < amt x d \<and> f d \<le> amt x d" using amt_pos_iff [OF assms] amt_mem [OF assms] by auto
next
  assume "\<exists>d. 0 < amt x d \<and> f d \<le> amt x d"
  then obtain d where "0 < amt x d" "f d \<le> amt x d" by blast
  then show "\<exists>c \<in> set x. f (Denom c) \<le> Amount c" using amt_pos_iff [OF assms, of d] amt_mem [OF assms] by auto
qed

context sdk_laws
begin

lemma withdrawableLoop_law:
  assumes "withdrawableLoop E avail acc cs = Ok res" and "coins_ok acc" and "coins_ok cs" and "coins_ok avail"
  shows "coins_ok res \<and> amt res d = amt acc d + min (amt cs d) (amt avail d)"
  using assms(1-3)
proof (induction cs arbitrary: acc)
  case Nil
  with assms(4) show ?case by simp
next
  case (Cons coin rest)
  let ?b = "amt avail (Denom coin)"
  have b: "CoinsAmountOf E avail (Denom coin) = ?b" using assms(4) by (simp add: CoinsAmountOf_law)
  have ok: "coins_ok rest" and hd: "0 < Amount coin" using Cons.prems by (auto simp: coins_ok_Cons)
  have rest: "amt rest (Denom coin) = 0" using amt_mem_notin Cons.prems by blast
  have nn: "0 \<le> ?b" using amt_ok_nonneg [OF assms(4)] .
  show ?case
  proof (cases "?b < Amount coin")
    case low: True
    show ?thesis
    proof (cases "0 < ?b")
      case True
      with Cons.prems b low obtain c acc' where n: "NewCoin E (Denom coin) ?b = Some c"
        and a: "CoinsAdd E acc [c] = Some acc'" and l: "withdrawableLoop E avail acc' rest = Ok res"
        by (auto simp: Let_def)
      note add = add_one [OF n a Cons.prems(2)]
      from Cons.IH [OF l add(1) ok] add(2) [of d] rest low assms(4) show ?thesis by auto
    next
      case False
      with Cons.prems b low have "withdrawableLoop E avail acc rest = Ok res" by (auto simp: Let_def)
      with False nn Cons.IH [of acc] Cons.prems(2) ok rest hd assms(4) show ?thesis by auto
    qed
  next
    case False
    with Cons.prems b obtain acc' where a: "CoinsAdd E acc [coin] = Some acc'"
      and l: "withdrawableLoop E avail acc' rest = Ok res" by (auto simp: Let_def)
    have "coins_nn [coin]" using hd by simp
    with CoinsAdd_law [OF a Cons.prems(2) this] Cons.IH [OF l _ ok] rest False assms(4) show ?thesis by auto
  qed
qed

lemma settle_accrual_Ok:
  assumes "performSettlementCore E st l t False = Ok (st', r)" and "LastSettledAt l < t"
  obtains x cb where "CalculateTotalAccruedForLease E (LeaseItemsToWithPrice (Items l)) (timeSub t (LastSettledAt l)) = Ok x"
    and "getCreditBalancesForDenoms E st (Tenant l) (leaseItemDenoms (Items l)) = Ok cb"
    and "if CoinsIsZero E x then TransferAmounts r = []
         else \<exists>ta. CalculateTransferAmounts E x cb = Ok ta \<and> TransferAmounts r = (if CoinsIsZero E ta then [] else ta)"
proof -
  have "\<not> t \<le> LastSettledAt l" using assms(2) by simp
  with assms(1) that show ?thesis
    by (auto simp: performSettlementCore_def settlementAccrual_def Let_def split: result.splits if_split_asm)
qed

lemma withdrawable_transfer:
  assumes w: "CalculateWithdrawableForLease E ctx st l = Ok w" and t: "withdrawSettleTime ctx l = Some t"
    and s: "PerformSettlement E st l t = Ok (st', r)"
  shows "w = TransferAmounts r"
proof -
  have dur: "withdrawableDuration ctx l = Some (timeSub t (LastSettledAt l))"
    using t by (auto simp: withdrawSettleTime_def withdrawableDuration_def split: if_split_asm)
  show ?thesis
  proof (cases "t \<le> LastSettledAt l")
    case True
    with w s dur show ?thesis
      by (auto simp: CalculateWithdrawableForLease_def PerformSettlement_def performSettlementCore_def Let_def)
  next
    case False
    then have pos: "LastSettledAt l < t" "0 \<le> timeSub t (LastSettledAt l)" by (simp_all add: timeSub_def)
    obtain x cb where x: "CalculateTotalAccruedForLease E (LeaseItemsToWithPrice (Items l)) (timeSub t (LastSettledAt l)) = Ok x"
      and cb: "getCreditBalancesForDenoms E st (Tenant l) (leaseItemDenoms (Items l)) = Ok cb"
      and ta: "if CoinsIsZero E x then TransferAmounts r = []
         else \<exists>ta. CalculateTransferAmounts E x cb = Ok ta \<and> TransferAmounts r = (if CoinsIsZero E ta then [] else ta)"
      using settle_accrual_Ok [OF s [unfolded PerformSettlement_def] pos(1)] .
    show ?thesis
    proof (cases "CoinsIsZero E x")
      case True
      with w dur False x ta show ?thesis by (simp add: CalculateWithdrawableForLease_def)
    next
      case nz: False
      with ta obtain ta' where ta': "CalculateTransferAmounts E x cb = Ok ta'"
        and r: "TransferAmounts r = (if CoinsIsZero E ta' then [] else ta')" by auto
      obtain a where a: "DeriveCreditAddressFromBech32 E (Tenant l) = Some a"
        using cb by (auto simp: getCreditBalancesForDenoms_def)
      have okx: "coins_ok x" using TotalAccrued_law [OF x pos(2)] by blast
      have okc: "coins_ok cb" using getCreditBalances_law [OF cb distinct_denoms a] by blast
      note tl = CalculateTransferAmounts_law [OF ta' okx okc]
      have "TransferAmounts r = ta'" using tl CoinsIsZero_ok r by auto
      moreover have "withdrawableLoop E cb [] x = Ok w"
        using w dur False x cb nz by (simp add: CalculateWithdrawableForLease_def)
      note wl = withdrawableLoop_law [OF this _ okx okc]
      ultimately show ?thesis using tl wl by (intro coins_ext) simp_all
    qed
  qed
qed

lemma autoClose_law:
  assumes run: "ShouldAutoCloseLease E ctx st l = Ok (c, t)" and act: "State l = LEASE_STATE_ACTIVE"
    and a: "tenantAddr E l = Some a" and nn: "prices_nn (Items l)"
  defines "b \<equiv> bal E (bank st) (DeriveCreditAddress E a)"
  shows "c \<longleftrightarrow> credit_exhausted b l (BlockTime ctx)"
proof -
  define s where "s = seconds (BlockTime ctx) (LastSettledAt l)"
  have x: "credit_exhausted b l (BlockTime ctx) \<longleftrightarrow>
     (if BlockTime ctx = LastSettledAt l then \<exists>i \<in> set (Items l). b (Denom (LockedPrice i)) = 0
      else Items l \<noteq> [] \<and> MaxDurationSeconds < s \<or> (\<exists>d. 0 < items_rate (Items l) d * s \<and> b d \<le> items_rate (Items l) d * s))"
    by (simp add: credit_exhausted_def s_def Let_def)
  let ?ds = "leaseItemDenoms (Items l)" and ?dur = "timeSub (BlockTime ctx) (LastSettledAt l)"
  have le: "LastSettledAt l \<le> BlockTime ctx" by (rule ShouldAutoClose_time(1) [OF run act])
  have ca: "DeriveCreditAddressFromBech32 E (Tenant l) = Some (DeriveCreditAddress E a)"
    using a by (simp add: DeriveCreditAddressFromBech32_def tenantAddr_def)
  from run act le obtain cb where cb: "getCreditBalancesForDenoms E st (Tenant l) ?ds = Ok cb"
    by (auto simp: ShouldAutoCloseLease_def Let_def split: if_split_asm)
  note cbl = getCreditBalances_law [OF cb distinct_denoms ca]
  have amt_cb: "amt cb d = b d" if "d \<in> set ?ds" for d using cbl [of d] that by (simp add: b_def)
  show ?thesis
  proof (cases "BlockTime ctx = LastSettledAt l")
    case True
    have "Denom (LockedPrice i) \<in> set ?ds" if "i \<in> set (Items l)" for i using that by (auto simp: leaseItemDenoms_def)
    with True run act cb amt_cb cbl show ?thesis unfolding x
      by (auto simp: ShouldAutoCloseLease_def Let_def timeSub_def CoinsAmountOf_law list_ex_iff split: if_split_asm)
  next
    case False
    with le have lt: "LastSettledAt l < BlockTime ctx" by simp
    have z: "0 \<le> ?dur" using le by (simp add: timeSub_def)
    show ?thesis
    proof (cases "CalculateTotalAccruedForLease E (LeaseItemsToWithPrice (Items l)) ?dur")
      case (Err e)
      then have "Items l \<noteq> []" by (auto simp: CalculateTotalAccruedForLease_def LeaseItemsToWithPrice_def)
      with Err TotalAccrued_err(1) [OF z nn Err] run act cb lt False show ?thesis unfolding x
        by (auto simp: ShouldAutoCloseLease_def Let_def s_def seconds_def split: if_split_asm)
    next
      case (Ok x)
      have s: "Items l = [] \<or> s \<le> MaxDurationSeconds" using TotalAccrued_err(2) [OF z nn Ok] by (simp add: s_def seconds_def)
      note xl = TotalAccrued_law [OF Ok z]
      then have okx: "coins_ok x" by blast
      have "c \<longleftrightarrow> (\<exists>coin \<in> set x. amt cb (Denom coin) \<le> Amount coin)"
        using run act cb lt Ok cbl
        by (auto simp: ShouldAutoCloseLease_def Let_def CoinsAmountOf_law list_ex_iff split: if_split_asm)
      also have "\<dots> \<longleftrightarrow> (\<exists>d. 0 < amt x d \<and> amt cb d \<le> amt x d)" by (rule coins_ex_iff [OF okx])
      also have "\<dots> \<longleftrightarrow> (\<exists>d. 0 < items_rate (Items l) d * s \<and> b d \<le> items_rate (Items l) d * s)"
      proof -
        have "amt cb d = b d" if "0 < items_rate (Items l) d * s" for d
          using that items_rate_denoms amt_cb by (metis less_irrefl mult_zero_left)
        then show ?thesis using xl by (auto simp: s_def seconds_def)
      qed
      finally show ?thesis using False s unfolding x by auto
    next
      case Panic
      with run act cb lt show ?thesis by (auto simp: ShouldAutoCloseLease_def Let_def split: if_split_asm)
    qed
  qed
qed

end

text \<open>
  Claim C15.  The withdrawable amount shown for a lease is exactly what settling it at that
  moment transfers.
\<close>

theorem withdrawable_is_settlement:
  assumes "sdk_laws E" and "CalculateWithdrawableForLease E ctx st l = Ok w"
    and "withdrawSettleTime ctx l = Some t" and "PerformSettlement E st l t = Ok (st', r)"
  shows "w = TransferAmounts r"
  using assms by (rule sdk_laws.withdrawable_transfer)

theorem withdrawable_is_settlement_witness:
  "\<exists>w st' r. CalculateWithdrawableForLease ref_sdk sample_ctx sample_ledger sample_active = Ok w \<and>
     PerformSettlement ref_sdk sample_ledger sample_active (BlockTime sample_ctx) = Ok (st', r) \<and>
     w = TransferAmounts r"
proof -
  have "isOk (CalculateWithdrawableForLease ref_sdk sample_ctx sample_ledger sample_active)"
    by (simp add: CalculateWithdrawableForLease_def withdrawableDuration_def sample_data sample_ctx_def
        settle_eval ref_eval)
  then obtain w where w: "CalculateWithdrawableForLease ref_sdk sample_ctx sample_ledger sample_active = Ok w"
    by (auto elim: isOkE)
  obtain st' r where r: "PerformSettlement ref_sdk sample_ledger sample_active (BlockTime sample_ctx) = Ok (st', r)"
    using sample_settles by (auto simp: PerformSettlement_def elim: isOkE)
  have "withdrawSettleTime sample_ctx sample_active = Some (BlockTime sample_ctx)"
    by (simp add: withdrawSettleTime_def sample_active_def)
  from withdrawable_is_settlement [OF ref.sdk_laws_axioms w this r] w r show ?thesis by blast
qed

context sdk_laws
begin

lemma withdrawLoop_one:
  assumes run: "withdrawLoop E ctx md st acc [l] = Ok (st', acc')" and act: "State l = LEASE_STATE_ACTIVE"
    and a: "tenantAddr E l = Some a" and nn: "prices_nn (Items l)"
    and cnt: "wa_count acc = 0" "wa_autoClosed acc = []" "\<not> (wa_count acc' = 0 \<and> wa_autoClosed acc' = [])"
  shows "kv_get (Leases st') (lease_Uuid l) = Some
    (if credit_exhausted (bal E (bank st) (DeriveCreditAddress E a)) l (BlockTime ctx)
     then l\<lparr>State := LEASE_STATE_CLOSED, ClosedAt := Some (BlockTime ctx), LastSettledAt := BlockTime ctx,
            ClosureReason := ClosureReasonCreditExhausted\<rparr>
     else l\<lparr>LastSettledAt := BlockTime ctx\<rparr>)"
proof -
  from run act obtain c t where c: "ShouldAutoCloseLease E ctx st l = Ok (c, t)" by (auto simp: autoClose_check_def)
  note law = autoClose_law [OF c act a nn]
  show ?thesis
  proof (cases c)
    case True
    then have t: "t = BlockTime ctx" using ShouldAutoClose_time(2) [OF c act] by simp
    from run act c True obtain st1 l1 cs where "AutoCloseLease E st l t md = Ok (st1, l1, cs)" "Leases st' = Leases st1"
      by (auto simp: autoClose_check_def split: if_split_asm)
    moreover from this(1) have "kv_get (Leases st1) (lease_Uuid l) = Some (l\<lparr>State := LEASE_STATE_CLOSED, ClosedAt := Some t,
        LastSettledAt := t, ClosureReason := ClosureReasonCreditExhausted\<rparr>)"
      by (auto simp: AutoCloseLease_def Let_def dest!: SetLease_sel(1) SetCreditAccount_sel)
    ultimately show ?thesis using True law t by simp
  next
    case False
    with run act c cnt obtain st1 where "SetLease E st1 (l\<lparr>LastSettledAt := BlockTime ctx\<rparr>) = Ok st'"
      by (auto simp: autoClose_check_def withdrawSettleTime_def Let_def split: if_split_asm)
    with False law show ?thesis by (auto dest: SetLease_sel(1))
  qed
qed

end

text \<open>
  Claim C14.  A successful withdrawal that names one active lease closes it, with the reason
  \<open>credit exhausted\<close>, exactly
  when the credit of its tenant is exhausted, and otherwise only moves its settlement time:
  exhausted means that in some denom the charge since the last settlement is positive and
  reaches the balance (which may be positive, although parts of the documentation say that the
  balance must be zero), or that no time has passed and an item's denom has no credit, or that
  the lease was not settled for longer than the hundred years that can be charged.
\<close>

theorem auto_close_criterion:
  assumes "sdk_laws E" and "billing_inv E st" and "Withdraw E ctx st m = Ok (st', r)" and "w_LeaseUuids m = [u]"
    and "kv_get (Leases st) u = Some l" and "State l = LEASE_STATE_ACTIVE" and "tenantAddr E l = Some a"
  shows "kv_get (Leases st') u = Some
    (if credit_exhausted (bal E (bank st) (DeriveCreditAddress E a)) l (BlockTime ctx)
     then l\<lparr>State := LEASE_STATE_CLOSED, ClosedAt := Some (BlockTime ctx), LastSettledAt := BlockTime ctx,
            ClosureReason := ''credit exhausted''\<rparr>
     else l\<lparr>LastSettledAt := BlockTime ctx\<rparr>)"
proof -
  have inv: "accounts_inv E st" using assms(2) by (simp add: billing_inv_def)
  then have wf: "lease_wf E u l" using assms(5) by (auto simp: accounts_inv_def leases_wf_def dest: kv_all_get)
  then have u: "lease_Uuid l = u" and nn: "prices_nn (Items l)"
    by (auto simp: lease_wf_def prices_nn_def list_all_iff)
  from assms(3,4) have "withdrawFromLeases E ctx st m = Ok (st', r)"
    by (auto simp: Withdraw_def MsgWithdraw_ValidateBasic_def Let_def split: if_split_asm)
  with assms(4,5) obtain md st1 acc where
    "withdrawLoop E ctx md st \<lparr>wa_total = [], wa_count = 0, wa_autoClosed = [], wa_amounts = []\<rparr> [l] = Ok (st1, acc)"
    "\<not> (wa_count acc = 0 \<and> wa_autoClosed acc = [])" "Leases st' = Leases st1"
    by (auto simp: withdrawFromLeases_def GetLease_def Let_def emit_def simp del: withdrawLoop.simps split: if_split_asm)
  with sdk_laws.withdrawLoop_one [OF assms(1) _ assms(6,7) nn] u show ?thesis
    by (simp add: ClosureReasonCreditExhausted_def)
qed

lemma billing_inv_bank:
  assumes "billing_inv E st"
  shows "billing_inv E (st\<lparr>bank := b\<rparr>)"
proof -
  have "accounts_inv E (st\<lparr>bank := b\<rparr>)"
    using assms by (simp add: billing_inv_def accounts_inv_def live_has_account_def [abs_def])
  moreover have "domain_inv (st\<lparr>bank := b\<rparr>)"
    using assms by (simp add: billing_inv_def domain_inv_def keyed_def index_sound_def [abs_def] index_complete_def [abs_def])
  ultimately show ?thesis
    using assms by (simp add: billing_inv_def params_ok_def sku_index_inv_def catalogue_inv_def)
qed

definition sample_poor :: "ref_bank ledger" where
  "sample_poor = sample_ledger\<lparr>bank := \<lparr>ref_tab = [(sample_credit, [\<lparr>Denom = ''umfx'', Amount = 400\<rparr>])], ref_accs = [], ref_supply = []\<rparr>\<rparr>"

definition sample_withdraw :: MsgWithdraw where
  "sample_withdraw = \<lparr>w_Sender = ''manifest1prov'', w_LeaseUuids = [sample_l1], w_ProviderUuid = [], w_Limit = 0\<rparr>"

lemma sample_withdraw_valid: "MsgWithdraw_ValidateBasic ref_sdk sample_withdraw = Ok ()"
  by (simp add: MsgWithdraw_ValidateBasic_def sample_withdraw_def ValidateBatchLeaseUUIDs_ok MaxBatchLeaseSize_def IsValidUUID_def)

lemma sample_withdraw_leases:
  "validateWithdrawLoop sample_ledger ''manifest1prov'' None [] [sample_l1] =
     Ok (Some (sample_puuid, sample_stored), [sample_active])"
  "validateWithdrawLoop sample_poor ''manifest1prov'' None [] [sample_l1] =
     Ok (Some (sample_puuid, sample_stored), [sample_active])"
  by (simp_all add: GetLease_def validateProviderAuthorization_def GetProvider_def kv_get_Cons sample_sku_state_def
      sample_ledger_def sample_poor_def) (simp_all add: sample_active_def sample_stored_def)

lemma sample_poor_check: "ShouldAutoCloseLease ref_sdk sample_ctx sample_poor sample_active = Ok (True, BlockTime sample_ctx)"
  by (simp add: ShouldAutoCloseLease_def sample_poor_def sample_data sample_ctx_def settle_eval ref_eval)

lemma sample_poor_closes:
  "\<exists>st l. AutoCloseLease ref_sdk sample_poor sample_active (BlockTime sample_ctx) 3600 =
     Ok (st, l, [\<lparr>Denom = ''umfx'', Amount = 400\<rparr>])"
proof -
  let ?l = "sample_active\<lparr>State := LEASE_STATE_CLOSED, ClosedAt := Some (BlockTime sample_ctx),
     LastSettledAt := BlockTime sample_ctx, ClosureReason := ClosureReasonCreditExhausted\<rparr>"
  have "\<exists>b r. PerformSettlementSilent ref_sdk sample_poor sample_active (BlockTime sample_ctx) = Ok (sample_poor\<lparr>bank := b\<rparr>, r) \<and>
      TransferAmounts r = [\<lparr>Denom = ''umfx'', Amount = 400\<rparr>]"
    by (simp add: PerformSettlementSilent_def sample_poor_def sample_data sample_ctx_def settle_eval ref_eval)
  then obtain b r where s: "PerformSettlementSilent ref_sdk sample_poor sample_active (BlockTime sample_ctx) = Ok (sample_poor\<lparr>bank := b\<rparr>, r)"
    and r: "TransferAmounts r = [\<lparr>Denom = ''umfx'', Amount = 400\<rparr>]" by blast
  have "isOk (SetLease ref_sdk (sample_poor\<lparr>bank := b\<rparr>) ?l)"
    by (simp add: SetLease_def reconcileCustomDomainIndex_def domainsByService_def setSKUIndex_def editable_def
        sample_poor_def sample_data ref_eval releaseLoop.simps)
  then obtain st2 where st2: "SetLease ref_sdk (sample_poor\<lparr>bank := b\<rparr>) ?l = Ok st2" by (rule isOkE)
  have "CreditAccounts st2 = [(bytes_of ''ten'', sample_account)]"
    using SetLease_sel(2) [OF st2] by (simp add: sample_poor_def sample_ledger_def)
  then have g: "GetCreditAccount ref_sdk st2 (Tenant ?l) = Ok sample_account"
    by (simp add: GetCreditAccount_def sample_active_def kv_get_Cons)
  have "isOk (ReleaseLeaseReservation ref_sdk (DecrementActiveLeaseCount sample_account) ?l 3600)"
    by (simp add: ReleaseLeaseReservation_def DecrementActiveLeaseCount_def GetLeaseReservationAmount_def sample_data
        CalculateLeaseReservation_def SubtractReservation_def ref_eval)
  then obtain ca where ca: "ReleaseLeaseReservation ref_sdk (DecrementActiveLeaseCount sample_account) ?l 3600 = Ok ca" by (rule isOkE)
  then have "ca_Tenant ca = ''manifest1ten''"
    by (auto simp: ReleaseLeaseReservation_def DecrementActiveLeaseCount_def sample_account_def split: if_split_asm)
  then have "isOk (SetCreditAccount ref_sdk st2 ca)" by (simp add: SetCreditAccount_def)
  then show ?thesis using s r st2 g ca by (auto simp: AutoCloseLease_def Let_def elim!: isOkE)
qed

theorem auto_close_criterion_witness:
  "\<exists>st' r. Withdraw ref_sdk sample_ctx sample_poor sample_withdraw = Ok (st', r) \<and>
     map_option State (kv_get (Leases st') sample_l1) = Some LEASE_STATE_CLOSED"
proof -
  let ?b = "bal ref_sdk (bank sample_poor) (DeriveCreditAddress ref_sdk (bytes_of ''ten''))"
  let ?cs = "[\<lparr>Denom = ''umfx'', Amount = 400 :: int\<rparr>]"
  obtain st1 l1 where ac: "AutoCloseLease ref_sdk sample_poor sample_active (BlockTime sample_ctx) 3600 = Ok (st1, l1, ?cs)"
    using sample_poor_closes by blast
  have act: "State sample_active = LEASE_STATE_ACTIVE" by (simp add: sample_active_def)
  have "CoinsAdd ref_sdk [] ?cs = Some ?cs" by (simp add: ref_eval)
  then have "isOk (withdrawLoop ref_sdk sample_ctx 3600 sample_poor \<lparr>wa_total = [], wa_count = 0, wa_autoClosed = [], wa_amounts = []\<rparr>
      [sample_active])"
    by (auto simp: autoClose_check_def act sample_poor_check ac)
  then obtain st' acc where w: "withdrawLoop ref_sdk sample_ctx 3600 sample_poor
      \<lparr>wa_total = [], wa_count = 0, wa_autoClosed = [], wa_amounts = []\<rparr> [sample_active] = Ok (st', acc)" by (auto elim!: isOkE)
  then have n: "wa_autoClosed acc \<noteq> []"
    by (auto simp: autoClose_check_def act sample_poor_check ac split: if_split_asm)
  have p: "GetParams sample_poor = Ok DefaultParams" "MinLeaseDuration DefaultParams = 3600"
    by (simp_all add: GetParams_def sample_poor_def sample_ledger_def DefaultParams_def)
  have m: "w_Sender sample_withdraw = ''manifest1prov''" "w_LeaseUuids sample_withdraw = [sample_l1]"
    "w_ProviderUuid sample_withdraw = []" by (simp_all add: sample_withdraw_def)
  have "isOk (Withdraw ref_sdk sample_ctx sample_poor sample_withdraw)"
    by (simp add: Withdraw_def sample_withdraw_valid withdrawFromLeases_def sample_withdraw_leases p m w n
        del: validateWithdrawLoop.simps withdrawLoop.simps)
  then obtain st2 r where run: "Withdraw ref_sdk sample_ctx sample_poor sample_withdraw = Ok (st2, r)" by (auto elim!: isOkE)
  have inv: "billing_inv ref_sdk sample_poor" unfolding sample_poor_def by (rule billing_inv_bank [OF sample_billing_inv])
  have l: "kv_get (Leases sample_poor) sample_l1 = Some sample_active" "tenantAddr ref_sdk sample_active = Some (bytes_of ''ten'')"
    by (simp_all add: sample_poor_def sample_data kv_get_Cons tenantAddr_def)
  have "credit_exhausted ?b sample_active (BlockTime sample_ctx)"
    unfolding credit_exhausted_def Let_def
    by (auto simp: sample_data items_rate_def seconds_def sample_ctx_def timeSub_def Second_def sample_poor_def ref_eval
        intro!: exI [of _ "''umfx''"])
  with auto_close_criterion [OF ref.sdk_laws_axioms inv run m(2) l(1) act l(2)] run show ?thesis by auto
qed

section \<open>Counting leases\<close>

lemma foldl_count: "foldl (\<lambda>c _. c + 1) n xs = n + of_nat (length xs)" for n :: u64
  by (induction xs arbitrary: n) (simp_all add: algebra_simps)

lemma leaseIndex_count:
  "int (length (leaseIndex p st)) = kv_sum (\<lambda>l. if p l then 1 else 0) (Leases st)"
proof -
  have "int (length (filter (\<lambda>e. p (snd e)) L)) = kv_sum (\<lambda>l. if p l then 1 else 0) L" for L :: "(string, Lease) kv"
    by (induction L) auto
  then show ?thesis by (simp add: leaseIndex_def)
qed

lemma scan_count:
  assumes "leases_wf E (Leases st)" and "AccAddressFromBech32 E t = Some a"
    and "\<And>l. f l = (if tenantAddr E l = Some a \<and> State l = s then 1 else 0)" and "uint n = kv_sum f (Leases st)"
  shows "countLeasesByTenantAndStateScan E st t s = Ok n"
proof -
  let ?is = "leaseIndex (\<lambda>l. tenantAddr E l = Some a \<and> State l = s) st"
  have f: "f = (\<lambda>l. if tenantAddr E l = Some a \<and> State l = s then 1 else 0)" using assms(3) by blast
  have "uint n = int (length ?is)" unfolding assms(4) f leaseIndex_count by simp
  then have "n = word_of_int (int (length ?is))" by (metis word_of_int_uint)
  then have "n = of_nat (length ?is)" by simp
  then show ?thesis by (simp add: countLeasesByTenantAndStateScan_def assms(2) foldl_count)
qed

end
