(* ===== verification/Handlers_Props.thy ===== *)
theory Handlers_Props
  imports Billing_Props
begin

text \<open>
  The properties of single operations of the billing module: who may call them, what a
  new lease needs, what a batch changes, and what the end of a block expires.
\<close>

section \<open>Expiry at the end of a block\<close>

definition expired :: "block_ctx \<Rightarrow> Lease \<Rightarrow> Lease" where
  "expired ctx l = l\<lparr>State := LEASE_STATE_EXPIRED, ExpiredAt := Some (BlockTime ctx)\<rparr>"

lemma i64_seconds: "0 \<le> n \<Longrightarrow> n \<le> 86400 \<Longrightarrow> i64 (i64 n * Second) = n * Second"
  by (simp add: i64_id Second_def)

lemma leaseIndex_distinct: "kv_ok (Leases st) \<Longrightarrow> distinct (leaseIndex P st)"
  by (simp add: leaseIndex_def distinct_map_filter [OF kv_ok_distinct])

lemma leaseIndex_mem: "kv_ok (Leases st) \<Longrightarrow> u \<in> set (leaseIndex P st) \<longleftrightarrow> (\<exists>l. kv_get (Leases st) u = Some l \<and> P l)"
  by (force simp: leaseIndex_def kv_get_eq_Some)

lemma collectExpired_take:
  assumes "\<forall>u \<in> set us. kv_get (Leases st) u \<noteq> None"
  shows "collectExpired ctx t st acc us =
     acc @ take (MaxPendingLeaseExpirationsPerBlock - length acc)
       (filter (\<lambda>u. CreatedAt (the (kv_get (Leases st) u)) + t < BlockTime ctx) us)"
  using assms
proof (induction us arbitrary: acc)
  case (Cons u us)
  then obtain l where "kv_get (Leases st) u = Some l" by auto
  with Cons show ?case by (auto simp: take_Cons' not_le)
qed simp

lemma release_no_err:
  "ReleaseLeaseReservation E ca l md \<noteq> Err e"
proof -
  have t: "totalRatesLoop E acc is \<noteq> Err e" for acc "is"
    by (induction "is" arbitrary: acc) (auto simp: andThen_eq_Err Let_def)
  have s: "scaleLoop E m acc cs \<noteq> Err e" for m acc cs
    by (induction cs arbitrary: acc) (auto simp: andThen_eq_Err)
  have u: "subtractLoop E x acc cs \<noteq> Err e" for x acc cs
    by (induction cs arbitrary: acc) (auto simp: andThen_eq_Err Let_def)
  show ?thesis
    using t s u by (auto simp: ReleaseLeaseReservation_def GetLeaseReservationAmount_def CalculateLeaseReservation_def
        SubtractReservation_def andThen_eq_Err Let_def split: if_splits)
qed

context sdk_laws
begin

lemma release_tenant: "ReleaseLeaseReservation E ca l md = Ok ca' \<Longrightarrow> ca_Tenant ca' = ca_Tenant ca"
  by (auto simp: ReleaseLeaseReservation_def)

lemma Expire_no_err:
  assumes inv: "accounts_inv E st" and l: "kv_get (Leases st) u = Some l" "State l = LEASE_STATE_PENDING"
    and p: "GetParams st = Ok p"
  shows "ExpirePendingLease E ctx st l \<noteq> Err e"
proof -
  let ?l = "expired ctx l"
  from inv_get(3) [OF inv l(1)] obtain a where a: "AccAddressFromBech32 E (Tenant l) = Some a"
    by (auto simp: tenantAddr_def)
  have "live_has_account E st l" using inv l(1) by (auto simp: accounts_inv_def dest: kv_all_get)
  then obtain ca where ca: "kv_get (CreditAccounts st) a = Some ca"
    using a l(2) by (auto simp: live_has_account_def tenantAddr_def)
  have t: "AccAddressFromBech32 E (ca_Tenant ca) = Some a"
    using inv_account [OF inv ca] by (simp add: account_matches_def)
  obtain st1 where st1: "SetLease E st ?l = Ok st1"
    using a by (simp add: SetLease_def reconcileCustomDomainIndex_def expired_def editable_def Let_def)
  then have "GetCreditAccount E st1 (Tenant l) = Ok ca" using SetLease_sel(2) [OF st1] a ca by (simp add: GetCreditAccount_sel)
  with st1 l(2) p t show ?thesis
    by (auto simp: ExpirePendingLease_def expired_def Let_def andThen_eq_Err release_no_err SetCreditAccount_def
        dest: release_tenant)
qed

lemma Expire_leases:
  assumes "ExpirePendingLease E ctx st l = Ok st'"
  shows "Leases st' = kv_set (lease_Uuid l) (expired ctx l) (Leases st)" and "GetParams st' = GetParams st"
proof -
  from assms obtain st2 ca st3 evs where st2: "SetLease E st (expired ctx l) = Ok st2"
    and st3: "SetCreditAccount E st2 ca = Ok st3" and st': "st' = emit evs st3"
    by (auto simp: ExpirePendingLease_def Let_def expired_def split: if_split_asm)
  from SetLease_sel(1,3) [OF st2] SetCreditAccount_sel [OF st3]
  show "Leases st' = kv_set (lease_Uuid l) (expired ctx l) (Leases st)" and "GetParams st' = GetParams st"
    by (auto simp: st' expired_def GetParams_def)
qed

lemma expireLoop_exact:
  assumes "expireLoop E ctx st us = Ok st'" and "accounts_inv E st" and "distinct us" and "GetParams st = Ok p"
    and "\<forall>u \<in> set us. \<exists>l. kv_get (Leases st) u = Some l \<and> State l = LEASE_STATE_PENDING"
  shows "kv_get (Leases st') v =
    (if v \<in> set us then map_option (expired ctx) (kv_get (Leases st) v) else kv_get (Leases st) v)"
  using assms
proof (induction us arbitrary: st)
  case (Cons u us)
  from Cons.prems(5) obtain l where l: "kv_get (Leases st) u = Some l" "State l = LEASE_STATE_PENDING" by auto
  note u = inv_get(2) [OF Cons.prems(2) l(1)]
  from Cons.prems(1) l Expire_no_err [OF Cons.prems(2) l Cons.prems(4)]
  obtain st1 where st1: "ExpirePendingLease E ctx st l = Ok st1" and rest: "expireLoop E ctx st1 us = Ok st'"
    by (auto split: result.splits)
  note e = Expire_leases [OF st1]
  have "\<forall>w \<in> set us. \<exists>l. kv_get (Leases st1) w = Some l \<and> State l = LEASE_STATE_PENDING"
    using Cons.prems(3,5) e(1) u by auto
  from Cons.IH [OF rest ExpirePendingLease_accounts [OF st1 Cons.prems(2) l(1)] _ _ this] Cons.prems(3,4) e u l
  show ?case by auto
qed simp

lemma EndBlocker_loop:
  assumes inv0: "billing_inv E st" and par0: "GetParams st = Ok p"
  shows "EndBlocker E ctx st = expireLoop E ctx st (take MaxPendingLeaseExpirationsPerBlock
     (leaseIndex (\<lambda>l. State l = LEASE_STATE_PENDING \<and> CreatedAt l + uint (PendingTimeout p) * Second < BlockTime ctx) st))"
proof -
  let ?t = "uint (PendingTimeout p) * Second"
  let ?is = "leaseIndex (\<lambda>l. State l = LEASE_STATE_PENDING) st"
  let ?P = "\<lambda>l. State l = LEASE_STATE_PENDING \<and> CreatedAt l + ?t < BlockTime ctx"
  have ok: "kv_ok (Leases st)" and par: "params_ok E st"
    using inv0 by (auto simp: billing_inv_def domain_inv_def keyed_def)
  have "PendingTimeout p \<le> 86400"
    using par par0 by (auto simp: params_ok_def GetParams_def Params_Validate_def MaxPendingTimeout_def split: if_split_asm)
  then have "uint (PendingTimeout p) \<le> 86400" by (simp add: word_le_def)
  then have t: "i64 (i64 (uint (PendingTimeout p)) * Second) = ?t" by (intro i64_seconds) simp_all
  have get: "kv_get (Leases st) (fst e) = Some (snd e)" if "e \<in> set (Leases st)" for e
    using kv_get_eq_Some [OF ok] that by simp
  then have mem: "\<forall>u \<in> set ?is. kv_get (Leases st) u \<noteq> None" by (auto simp: leaseIndex_def)
  have "filter (\<lambda>u. CreatedAt (the (kv_get (Leases st) u)) + ?t < BlockTime ctx) ?is = leaseIndex ?P st"
    using get by (auto simp: leaseIndex_def filter_map comp_def intro!: arg_cong [where f = "map fst"] filter_cong)
  with mem par0 t show ?thesis by (simp add: EndBlocker_def Let_def collectExpired_take)
qed

lemma EndBlocker_exact:
  assumes inv0: "billing_inv E st" and par0: "GetParams st = Ok p" and run0: "EndBlocker E ctx st = Ok st'"
  shows "kv_get (Leases st') u =
     (if u \<in> set (take MaxPendingLeaseExpirationsPerBlock
           (leaseIndex (\<lambda>l. State l = LEASE_STATE_PENDING \<and>
              CreatedAt l + uint (PendingTimeout p) * Second < BlockTime ctx) st))
      then map_option (expired ctx) (kv_get (Leases st) u) else kv_get (Leases st) u)"
proof -
  have inv: "accounts_inv E st" and ok: "kv_ok (Leases st)"
    using inv0 by (auto simp: billing_inv_def domain_inv_def keyed_def)
  show ?thesis
    using leaseIndex_distinct [OF ok]
    by (intro expireLoop_exact [OF run0 [unfolded EndBlocker_loop [OF inv0 par0]] inv _ par0])
      (auto simp: leaseIndex_mem [OF ok] dest!: in_set_takeD)
qed

end

text \<open>
  Claim C9.  The end of a block expires exactly the pending leases whose time-out has
  passed, in key order and at most a hundred of them; each is marked EXPIRED with the
  block time, and no other lease changes.
\<close>

theorem EndBlocker_expires:
  assumes "sdk_laws E" and "billing_inv E st" and "GetParams st = Ok p" and "EndBlocker E ctx st = Ok st'"
  shows "kv_get (Leases st') u =
     (if u \<in> set (take MaxPendingLeaseExpirationsPerBlock
           (leaseIndex (\<lambda>l. State l = LEASE_STATE_PENDING \<and>
              CreatedAt l + uint (PendingTimeout p) * Second < BlockTime ctx) st))
      then map_option (expired ctx) (kv_get (Leases st) u) else kv_get (Leases st) u)"
  by (rule sdk_laws.EndBlocker_exact [OF assms])

theorem EndBlocker_expires_witness:
  "\<exists>st'. EndBlocker ref_sdk sample_ctx sample_ledger = Ok st' \<and>
     kv_get (Leases st') sample_l2 = Some (expired sample_ctx sample_pending)"
proof -
  have "isOk (EndBlocker ref_sdk sample_ctx sample_ledger)"
    by (simp add: EndBlocker_def sample_data leaseIndex_def GetParams_def DefaultParams_def i64_def Second_def sample_ctx_def
        MaxPendingLeaseExpirationsPerBlock_def ExpirePendingLease_def SetLease_def reconcileCustomDomainIndex_def
        domainsByService_def setSKUIndex_def editable_def GetCreditAccount_def ReleaseLeaseReservation_def
        GetLeaseReservationAmount_def CalculateLeaseReservation_def DecrementPendingLeaseCount_def
        SubtractReservation_def SetCreditAccount_def ref_eval)
  then obtain st' where st': "EndBlocker ref_sdk sample_ctx sample_ledger = Ok st'" by (auto elim: isOkE)
  have p: "GetParams sample_ledger = Ok DefaultParams" by (simp add: sample_ledger_def GetParams_def)
  have "leaseIndex (\<lambda>l. State l = LEASE_STATE_PENDING \<and>
      CreatedAt l + uint (PendingTimeout DefaultParams) * Second < BlockTime sample_ctx) sample_ledger = [sample_l2]"
    by (simp add: leaseIndex_def sample_data DefaultParams_def Second_def sample_ctx_def)
  with EndBlocker_expires [OF ref.sdk_laws_axioms sample_billing_inv p st', of sample_l2] st' show ?thesis
    by (simp add: MaxPendingLeaseExpirationsPerBlock_def) (simp add: sample_ledger_def kv_get_Cons)
qed

section \<open>Who may act\<close>

definition acts_for_provider :: "'x ledger \<Rightarrow> string \<Rightarrow> string \<Rightarrow> bool" where
  \<comment> \<open>the sender is the module authority or the address of the stored provider\<close>
  "acts_for_provider st sender pu \<longleftrightarrow>
     (case kv_get (Providers (sku_keeper st)) pu of
        None \<Rightarrow> False | Some p \<Rightarrow> sender = Address p \<or> sender = authority st)"

definition is_admin :: "'x ledger \<Rightarrow> string \<Rightarrow> bool" where
  "is_admin st sender \<longleftrightarrow> sender = authority st \<or>
     (\<exists>p \<in> set_option (lg_Params st). sender \<in> set (AllowedList p))"

definition for_leases :: "'x ledger \<Rightarrow> string list \<Rightarrow> (Lease \<Rightarrow> bool) \<Rightarrow> bool" where
  "for_leases st us P \<longleftrightarrow> list_all (\<lambda>u. \<exists>l \<in> set_option (kv_get (Leases st) u). P l) us"

fun authorized :: "'x ledger \<Rightarrow> billing_msg \<Rightarrow> bool" where
  "authorized st (CreateLeaseForTenantMsg m) \<longleftrightarrow> is_admin st (clt_Authority m)"
| "authorized st (UpdateParamsMsg m) \<longleftrightarrow> upd_Authority m = authority st"
| "authorized st (AcknowledgeLeaseMsg m) \<longleftrightarrow>
     for_leases st (ack_LeaseUuids m) (\<lambda>l. acts_for_provider st (ack_Sender m) (lease_ProviderUuid l))"
| "authorized st (RejectLeaseMsg m) \<longleftrightarrow>
     for_leases st (rej_LeaseUuids m) (\<lambda>l. acts_for_provider st (rej_Sender m) (lease_ProviderUuid l))"
| "authorized st (CancelLeaseMsg m) \<longleftrightarrow> for_leases st (can_LeaseUuids m) (\<lambda>l. Tenant l = can_Tenant m)"
| "authorized st (CloseLeaseMsg m) \<longleftrightarrow>
     for_leases st (close_LeaseUuids m) (\<lambda>l. close_Sender m = Tenant l \<or> close_Sender m = authority st \<or>
       acts_for_provider st (close_Sender m) (lease_ProviderUuid l))"
| "authorized st (WithdrawMsg m) \<longleftrightarrow>
     (if w_ProviderUuid m \<noteq> [] then acts_for_provider st (w_Sender m) (w_ProviderUuid m)
      else for_leases st (w_LeaseUuids m) (\<lambda>l. acts_for_provider st (w_Sender m) (lease_ProviderUuid l)))"
| "authorized st (SetItemCustomDomainMsg m) \<longleftrightarrow>
     for_leases st [scd_LeaseUuid m] (\<lambda>l. scd_Sender m = Tenant l \<or> is_admin st (scd_Sender m))"
| "authorized st (FundCreditMsg m) \<longleftrightarrow> True"
| "authorized st (CreateLeaseMsg m) \<longleftrightarrow> True"

lemma provider_auth:
  "validateProviderAuthorization st sender pu = Ok p \<Longrightarrow> acts_for_provider st sender pu"
  by (auto simp: validateProviderAuthorization_def acts_for_provider_def GetProvider_def split: if_split_asm)

lemma admin_auth: "HasAdminPrivileges st sender = Ok r \<Longrightarrow> r \<noteq> [] \<Longrightarrow> is_admin st sender"
  by (auto simp: HasAdminPrivileges_def is_admin_def GetParams_def IsAllowed_def list_ex_iff split: if_split_asm)

definition one_provider :: "pendingLeaseBatchResult \<Rightarrow> bool" where
  "one_provider acc \<longleftrightarrow> (\<forall>l \<in> set (plb_leases acc). lease_ProviderUuid l = plb_providerUUID acc \<and> plb_providerUUID acc \<noteq> [])"

lemma validatePending_cases:
  assumes "validatePendingLoop E st acc (u # us) = Ok res"
  obtains l acc2 where "kv_get (Leases st) u = Some l"
    and "plb_providerUUID acc = [] \<or> lease_ProviderUuid l = plb_providerUUID acc"
    and "plb_providerUUID acc2 = lease_ProviderUuid l" and "plb_leases acc2 = plb_leases acc @ [l]"
    and "validatePendingLoop E st acc2 us = Ok res"
proof -
  from assms obtain l where l: "kv_get (Leases st) u = Some l"
    "plb_providerUUID acc = [] \<or> lease_ProviderUuid l = plb_providerUUID acc"
    by (auto simp: GetLease_def split: if_split_asm)
  have pin: "plb_providerUUID (pin_provider l acc) = lease_ProviderUuid l" using l(2) by (auto simp: pin_provider_def)
  show ?thesis
  proof (cases "kv_get (plb_creditAccounts acc) (Tenant l)")
    case None
    with assms l(1) obtain ca where "validatePendingLoop E st ((pin_provider l acc)\<lparr>
        plb_creditAccounts := kv_set (Tenant l) ca (plb_creditAccounts acc),
        plb_tenantOrder := plb_tenantOrder acc @ [Tenant l], plb_leases := plb_leases acc @ [l]\<rparr>) us = Ok res"
      by (auto simp: GetLease_def Let_def pin_provider_def split: if_split_asm)
    then show ?thesis by (rule that [OF l, rotated 2]) (simp_all add: pin)
  next
    case (Some ca)
    with assms l(1) have "validatePendingLoop E st ((pin_provider l acc)\<lparr>plb_leases := plb_leases acc @ [l]\<rparr>) us = Ok res"
      by (auto simp: GetLease_def Let_def pin_provider_def split: if_split_asm)
    then show ?thesis by (rule that [OF l, rotated 2]) (simp_all add: pin)
  qed
qed

lemma pending_one_provider:
  assumes "validatePendingLoop E st acc us = Ok res" and "one_provider acc"
    and "kv_all (\<lambda>_ l. lease_ProviderUuid l \<noteq> []) (Leases st)"
  shows "one_provider res"
  using assms(1,2)
proof (induction us arbitrary: acc)
  case (Cons u us)
  from Cons.prems(1) show ?case
  proof (cases rule: validatePending_cases)
    case (1 l acc2)
    have "lease_ProviderUuid l \<noteq> []" using kv_all_get [OF assms(3) 1(1)] .
    with 1 Cons.prems(2) have "one_provider acc2" by (auto simp: one_provider_def)
    then show ?thesis by (rule Cons.IH [OF 1(5)])
  qed
qed simp

lemma providers_nonempty:
  assumes "catalogue_inv st" and "sku_inv E (sku_keeper st)"
  shows "kv_all (\<lambda>_ l. lease_ProviderUuid l \<noteq> []) (Leases st)"
proof -
  have "kv_get (Providers (sku_keeper st)) [] = None"
  proof (rule ccontr)
    assume "kv_get (Providers (sku_keeper st)) [] \<noteq> None"
    then obtain p where p: "kv_get (Providers (sku_keeper st)) [] = Some p" by auto
    have "provider_wf E [] p" using assms(2) p by (auto simp: sku_inv_def dest: kv_all_get)
    then show False by (auto simp: provider_wf_def IsValidUUIDv7_def uuidPattern_eq)
  qed
  with assms(1) show ?thesis
    by (auto simp: catalogue_inv_def catalogued_def kv_all_def GetProvider_def)
qed

lemma pending_batch_auth:
  assumes "validatePendingLeaseBatch E st us = Ok v" and "keyed st"
    and "kv_all (\<lambda>_ l. lease_ProviderUuid l \<noteq> []) (Leases st)"
    and "validateProviderAuthorization st sender (plb_providerUUID v) = Ok p"
  shows "for_leases st us (\<lambda>l. acts_for_provider st sender (lease_ProviderUuid l))"
proof -
  note b = pending_batch_leases [OF assms(1,2)]
  have "one_provider v"
    using pending_one_provider [OF assms(1) [unfolded validatePendingLeaseBatch_def] _ assms(3)]
    by (simp add: one_provider_def)
  with provider_auth [OF assms(4)] b show ?thesis
    by (auto simp: for_leases_def list_all_iff stored_def one_provider_def)
qed

lemma closeRole_auth:
  assumes "closeRole st sender cache l = Ok (role, cache')" and "role \<noteq> []"
    and "kv_all (\<lambda>pu a. \<exists>p \<in> set_option (kv_get (Providers (sku_keeper st)) pu). a = Address p) cache"
  shows "sender = Tenant l \<or> sender = authority st \<or> acts_for_provider st sender (lease_ProviderUuid l)"
  using assms(1,2) kv_all_get [OF assms(3), of "lease_ProviderUuid l"]
  by (auto simp: closeRole_def Let_def acts_for_provider_def GetProvider_def okOr_def
      split: if_split_asm option.splits result.splits)

lemma closeRole_cache:
  assumes "closeRole st sender cache l = Ok (role, cache')"
    and "kv_all (\<lambda>pu a. \<exists>p \<in> set_option (kv_get (Providers (sku_keeper st)) pu). a = Address p) cache"
  shows "kv_all (\<lambda>pu a. \<exists>p \<in> set_option (kv_get (Providers (sku_keeper st)) pu). a = Address p) cache'"
  using assms by (auto simp: closeRole_def Let_def GetProvider_def okOr_def
      split: if_split_asm option.splits result.splits intro: kv_all_set)

lemma validateClose_auth:
  assumes "validateCloseLoop E st sender acc us = Ok res"
    and "kv_all (\<lambda>pu a. \<exists>p \<in> set_option (kv_get (Providers (sku_keeper st)) pu). a = Address p) (cb_providerCache acc)"
  shows "for_leases st us (\<lambda>l. sender = Tenant l \<or> sender = authority st \<or>
     acts_for_provider st sender (lease_ProviderUuid l))"
  using assms
proof (induction us arbitrary: acc)
  case (Cons u us)
  from Cons.prems(1) obtain l role cache where l: "kv_get (Leases st) u = Some l"
    and r: "closeRole st sender (cb_providerCache acc) l = Ok (role, cache)" "role \<noteq> []"
    by (auto simp: GetLease_def split: if_split_asm)
  from Cons.prems(1) l r obtain acc' where "validateCloseLoop E st sender acc' us = Ok res"
    and "cb_providerCache acc' = cache"
  proof (cases "kv_get (cb_creditAccounts acc) (Tenant l)")
    case None
    with Cons.prems(1) l r obtain ca where "validateCloseLoop E st sender ((pin_role st sender role cache acc)\<lparr>
        cb_creditAccounts := kv_set (Tenant l) ca (cb_creditAccounts acc),
        cb_tenantOrder := cb_tenantOrder acc @ [Tenant l], cb_leases := cb_leases acc @ [l]\<rparr>) us = Ok res"
      by (auto simp: GetLease_def Let_def pin_role_def split: if_split_asm)
    then show ?thesis by (rule that) (simp add: pin_role_def)
  next
    case (Some ca)
    with Cons.prems(1) l r have
      "validateCloseLoop E st sender ((pin_role st sender role cache acc)\<lparr>cb_leases := cb_leases acc @ [l]\<rparr>) us = Ok res"
      by (auto simp: GetLease_def Let_def pin_role_def split: if_split_asm)
    then show ?thesis by (rule that) (simp add: pin_role_def)
  qed
  from Cons.IH [OF this(1)] this(2) closeRole_cache [OF r(1) Cons.prems(2)] closeRole_auth [OF r Cons.prems(2)] l
  show ?case by (simp add: for_leases_def)
qed (simp add: for_leases_def)

lemma validateWithdraw_auth:
  assumes "validateWithdrawLoop st sender prov ls us = Ok (prov', res)"
    and "\<forall>(pu, p) \<in> set_option prov. acts_for_provider st sender pu"
  shows "for_leases st us (\<lambda>l. acts_for_provider st sender (lease_ProviderUuid l))"
  using assms
proof (induction us arbitrary: prov ls)
  case (Cons u us)
  from Cons.prems(1) obtain l where l: "kv_get (Leases st) u = Some l" by (auto simp: GetLease_def)
  show ?case
  proof (cases prov)
    case None
    with Cons.prems(1) l obtain p where p: "validateProviderAuthorization st sender (lease_ProviderUuid l) = Ok p"
      and rest: "validateWithdrawLoop st sender (Some (lease_ProviderUuid l, p)) (ls @ [l]) us = Ok (prov', res)"
      by (auto simp: GetLease_def)
    from Cons.IH [OF rest] provider_auth [OF p] l show ?thesis by (simp add: for_leases_def)
  next
    case (Some q)
    with Cons.prems(1) l have rest: "validateWithdrawLoop st sender prov (ls @ [l]) us = Ok (prov', res)"
      and "lease_ProviderUuid l = fst q" by (auto simp: GetLease_def split: if_split_asm prod.splits)
    with Cons.IH [OF rest Cons.prems(2)] Cons.prems(2) Some l show ?thesis
      by (auto simp: for_leases_def split: prod.splits)
  qed
qed (simp add: for_leases_def)

lemma Withdraw_auth:
  assumes "Withdraw E ctx st m = Ok (st', r)"
  shows "authorized st (WithdrawMsg m)"
proof (cases "w_ProviderUuid m = []")
  case True
  with assms obtain prov ls where
    "validateWithdrawLoop st (w_Sender m) None [] (w_LeaseUuids m) = Ok (prov, ls)"
    by (auto simp: Withdraw_def withdrawFromLeases_def)
  from validateWithdraw_auth [OF this] True show ?thesis by simp
next
  case False
  with assms obtain p where "validateProviderAuthorization st (w_Sender m) (w_ProviderUuid m) = Ok p"
    by (auto simp: Withdraw_def withdrawFromProvider_def)
  from provider_auth [OF this] False show ?thesis by simp
qed

lemma SetItemCustomDomain_auth:
  assumes "SetItemCustomDomain E st m = Ok st'"
  shows "authorized st (SetItemCustomDomainMsg m)"
proof -
  from assms obtain l role where l: "kv_get (Leases st) (scd_LeaseUuid m) = Some l"
    and r: "IsAuthorizedForTenant st (scd_Sender m) (Tenant l) = Ok role" "role \<noteq> []"
    by (auto simp: SetItemCustomDomain_def keeper_SetItemCustomDomain_def GetLease_def split: if_split_asm)
  from r have "scd_Sender m = Tenant l \<or> HasAdminPrivileges st (scd_Sender m) = Ok role"
    by (auto simp: IsAuthorizedForTenant_def split: if_split_asm)
  with admin_auth r(2) l show ?thesis by (auto simp: for_leases_def)
qed

text \<open>
  Claim C3.  Every successful message was sent by somebody entitled to it: leases are
  acknowledged, rejected and withdrawn from only for the provider they belong to (or the
  authority), cancelled only by their tenant, closed only by tenant, provider or authority,
  created for others and given domains only by the authority, the allowed list or the
  tenant, and parameters are set only by the authority.
\<close>

theorem billing_authorization:
  assumes "billing_inv E st" and "sku_inv E (sku_keeper st)" and "billing_handle E ctx st m = Ok (st', r)"
  shows "authorized st m"
proof -
  have k: "keyed st" using assms(1) by (simp add: billing_inv_def domain_inv_def)
  have ne: "kv_all (\<lambda>_ l. lease_ProviderUuid l \<noteq> []) (Leases st)"
    using providers_nonempty assms(1,2) by (auto simp: billing_inv_def)
  show ?thesis
  proof (cases m)
    case (CreateLeaseForTenantMsg x)
    with assms(3) show ?thesis
      by (auto simp: CreateLeaseForTenant_def isAuthorizedForTenantLeaseCreation_def split: if_split_asm intro: admin_auth)
  next
    case (UpdateParamsMsg x)
    with assms(3) show ?thesis by (auto simp: UpdateParams_def split: if_split_asm)
  next
    case (AcknowledgeLeaseMsg x)
    with assms(3) pending_batch_auth [OF _ k ne] show ?thesis by (auto simp: AcknowledgeLease_def Let_def)
  next
    case (RejectLeaseMsg x)
    with assms(3) pending_batch_auth [OF _ k ne] show ?thesis by (auto simp: RejectLease_def Let_def)
  next
    case (CancelLeaseMsg x)
    with assms(3) obtain ls where v: "validateCancelLoop st (can_Tenant x) [] (can_LeaseUuids x) = Ok ls"
      by (auto simp: CancelLease_def Let_def)
    from validateCancel_keyed [OF v k] have "set (can_LeaseUuids x) = lease_Uuid ` set ls" and "stored st ls"
      and "\<forall>l \<in> set ls. Tenant l = can_Tenant x" by (auto simp del: set_map simp flip: set_map)
    then show ?thesis by (auto simp: CancelLeaseMsg for_leases_def list_all_iff stored_def)
  next
    case (CloseLeaseMsg x)
    with assms(3) show ?thesis by (auto simp: CloseLease_def Let_def dest!: validateClose_auth)
  next
    case (WithdrawMsg x)
    with assms(3) Withdraw_auth show ?thesis by (auto simp del: authorized.simps)
  next
    case (SetItemCustomDomainMsg x)
    with assms(3) SetItemCustomDomain_auth show ?thesis by (auto simp del: authorized.simps)
  qed simp_all
qed

lemma sample_ack_ok: "isOk (billing_handle ref_sdk sample_ctx sample_ledger (AcknowledgeLeaseMsg sample_ack))"
  by (simp add: AcknowledgeLease_def sample_ack_def MsgAcknowledgeLease_ValidateBasic_def ValidateBatchLeaseUUIDs_def
      MaxBatchLeaseSize_def validatePendingLeaseBatch_def GetLease_def sample_data kv_get_Cons GetCreditAccount_def
      validateProviderAuthorization_def GetProvider_def sample_sku_state_def sample_stored_def SetLease_def
      reconcileCustomDomainIndex_def domainsByService_def setSKUIndex_def editable_def SetCreditAccount_def
      account_of_def DecrementPendingLeaseCount_def Let_def) (simp add: sample_l2_def)

theorem billing_authorization_witness:
  "authorized sample_ledger (AcknowledgeLeaseMsg sample_ack)"
proof -
  obtain st' r where "billing_handle ref_sdk sample_ctx sample_ledger (AcknowledgeLeaseMsg sample_ack) = Ok (st', r)"
    using sample_ack_ok by (auto elim: isOkE)
  moreover have "sku_inv ref_sdk (sku_keeper sample_ledger)" using sample_sku_inv by (simp add: sample_ledger_def)
  ultimately show ?thesis using billing_authorization [OF sample_billing_inv] by blast
qed

end
