(* ===== verification/Lease_Creation.thy ===== *)
theory Lease_Creation
  imports Handlers_Props
begin

text \<open>
  What \<open>CreateLease\<close> guarantees: the checks it passes, the lease it stores and the credit it
  reserves.
\<close>

definition locked_from :: "'x sdk \<Rightarrow> sku_state \<Rightarrow> string \<Rightarrow> LeaseItemInput \<Rightarrow> LeaseItem \<Rightarrow> bool" where
  \<comment> \<open>the item is the input with the current per-second price of an active SKU of the provider\<close>
  "locked_from E sk pu i it \<longleftrightarrow> (\<exists>s price. kv_get (SKUs sk) (in_SkuUuid i) = Some s \<and> sku_Active s \<and>
     sku_ProviderUuid s = pu \<and> ConvertBasePriceToPerSecond E (BasePrice s) (sku_Unit s) = Ok price \<and>
     it = lock_item i price)"

lemma lockItems_locked:
  assumes "lockItems E sk p items rates ins = Ok (p', items', rates')"
  shows "(p = None \<or> p' = p) \<and> (ins = [] \<or> p' \<noteq> None) \<and> (\<exists>new. items' = items @ new \<and> list_all2 (locked_from E sk (the p')) ins new)"
  using assms
proof (induction ins arbitrary: p items rates)
  case (Cons i ins)
  from Cons.prems show ?case
  proof (cases rule: lockItems_Cons)
    case (1 s price rates2)
    from Cons.IH [OF 1(5)] obtain new where p': "p' = Some (sku_ProviderUuid s)"
      and new: "items' = (items @ [lock_item i price]) @ new" "list_all2 (locked_from E sk (the p')) ins new" by auto
    have "locked_from E sk (the p') i (lock_item i price)" using 1(1,2,4) by (auto simp: locked_from_def p')
    with new 1(3) p' show ?thesis by (auto intro: exI [of _ "lock_item i price # new"])
  qed
qed simp

context sdk_laws
begin

lemma createLeaseInternal_sound:
  assumes run: "createLeaseInternal E ctx st t ins mh = Ok (st', res)" and inv: "billing_inv E st"
    and ne: "ins \<noteq> []" "length ins \<le> 100"
  shows "\<exists>p a ca ca' l q. lg_Params st = Some p \<and> AccAddressFromBech32 E t = Some a \<and>
     kv_get (CreditAccounts st) a = Some ca \<and> ActiveLeaseCount ca < MaxLeasesPerTenant p \<and>
     PendingLeaseCount ca < MaxPendingLeasesPerTenant p \<and> length ins \<le> unat (MaxItemsPerLease p) \<and>
     lcr_leaseUUID res = next_uuid ctx st \<and> Leases st' = kv_set (next_uuid ctx st) l (Leases st) \<and>
     Tenant l = t \<and> State l = LEASE_STATE_PENDING \<and> CreatedAt l = BlockTime ctx \<and>
     MinLeaseDurationAtCreation l = MinLeaseDuration p \<and>
     kv_get (Providers (sku_keeper st)) (lease_ProviderUuid l) = Some q \<and> provider_Active q \<and>
     list_all2 (locked_from E (sku_keeper st) (lease_ProviderUuid l)) ins (Items l) \<and>
     CreditAccounts st' = kv_set a ca' (CreditAccounts st) \<and>
     PendingLeaseCount ca' = PendingLeaseCount ca + 1 \<and> ActiveLeaseCount ca' = ActiveLeaseCount ca \<and>
     (\<forall>d. amt (ReservedAmounts ca') d = amt (ReservedAmounts ca) d + items_rate (Items l) d * uint (MinLeaseDuration p)) \<and>
     (\<forall>d. 0 < items_rate (Items l) d \<longrightarrow> amt (ReservedAmounts ca') d \<le> bal E (bank st) (DeriveCreditAddress E a) d) \<and>
     bank st' = bank st"
proof (rule createLeaseInternal_run [OF run])
  fix p ca prov items rates ca' st2 l q
  assume p: "GetParams st = Ok p" and ca: "GetCreditAccount E st t = Ok ca"
    and lim: "PendingLeaseCount ca < MaxPendingLeasesPerTenant p" "ActiveLeaseCount ca < MaxLeasesPerTenant p"
    and lk: "lockItems E (sku_keeper st) None [] [] ins = Ok (prov, items, rates)"
    and rc: "reserveCredit E st p t ca rates = Ok ca'"
    and l: "l = \<lparr>lease_Uuid = next_uuid ctx st, Tenant = t, lease_ProviderUuid = (case prov of None \<Rightarrow> [] | Some p \<Rightarrow> p),
            Items = items, State = LEASE_STATE_PENDING, CreatedAt = BlockTime ctx, ClosedAt = None,
            LastSettledAt = BlockTime ctx, AcknowledgedAt = None, RejectedAt = None, RejectionReason = [],
            ExpiredAt = None, ClosureReason = [], lease_MetaHash = mh,
            MinLeaseDurationAtCreation = MinLeaseDuration p\<rparr>"
    and st2: "SetLease E (st\<lparr>LeaseSequence := LeaseSequence st + 1\<rparr>) l = Ok st2"
    and st3: "SetCreditAccount E st2 (ca'\<lparr>PendingLeaseCount := PendingLeaseCount ca' + 1\<rparr>) = Ok st'"
    and u: "lcr_leaseUUID res = next_uuid ctx st" and len: "of_nat (length ins) \<le> MaxItemsPerLease p"
    and q: "GetProvider (sku_keeper st) (case prov of None \<Rightarrow> [] | Some p \<Rightarrow> p) = Ok q" "provider_Active q"
  from ca obtain a where a: "AccAddressFromBech32 E t = Some a" "kv_get (CreditAccounts st) a = Some ca"
    by (auto simp: GetCreditAccount_sel)
  have m: "account_matches E (Leases st) a ca" using inv by (intro inv_account [OF _ a(2)]) (simp add: billing_inv_def)
  have lk': "coins_ok rates \<and> (\<forall>d. amt rates d = items_rate items d) \<and> prices_nn items \<and>
      list_all (\<lambda>i. CustomDomain i = []) items"
    by (rule lockItems_law [OF lk]) (simp add: prices_nn_def)
  have "DeriveCreditAddressFromBech32 E t = Some (DeriveCreditAddress E a)"
    by (simp add: DeriveCreditAddressFromBech32_def a)
  from reserveCredit_law [OF rc lk' [THEN conjunct1] _ this] m lk'
  obtain r where r: "ca' = ca\<lparr>ReservedAmounts := r\<rparr>"
    "\<And>d. amt r d = amt (ReservedAmounts ca) d + items_rate items d * uint (MinLeaseDuration p)"
    "\<And>d. 0 < items_rate items d * uint (MinLeaseDuration p) \<Longrightarrow> amt r d \<le> bal E (bank st) (DeriveCreditAddress E a) d"
    by (auto simp: account_matches_def)
  have "MinLeaseDuration p \<noteq> 0" using inv by (intro params_min_duration [of E, OF _ p]) (simp add: billing_inv_def)
  then have "0 < uint (MinLeaseDuration p)" by (metis order_less_le uint_0_iff uint_ge_0)
  with r(3) have enough: "0 < items_rate items d \<Longrightarrow> amt r d \<le> bal E (bank st) (DeriveCreditAddress E a) d" for d by simp
  note s2 = SetLease_sel [OF st2]
  from SetCreditAccount_sel [OF st3] m r(1) have s3: "CreditAccounts st' =
      kv_set a (ca'\<lparr>PendingLeaseCount := PendingLeaseCount ca' + 1\<rparr>) (CreditAccounts st)" "Leases st' = Leases st2"
      "bank st' = bank st" using s2 by (auto simp: account_matches_def)
  from lockItems_locked [OF lk] have loc: "list_all2 (locked_from E (sku_keeper st) (the prov)) ins items" by auto
  moreover have "prov \<noteq> None" using lockItems_locked [OF lk] ne by simp
  moreover have "length ins \<le> unat (MaxItemsPerLease p)"
    using len ne(2) by (simp add: word_le_nat_alt unat_of_nat)
  ultimately show ?thesis
    using p a lim q r(1,2) enough s3 s2(1) u
    by (intro exI [of _ p] exI [of _ a] exI [of _ ca] exI [of _ "ca'\<lparr>PendingLeaseCount := PendingLeaseCount ca' + 1\<rparr>"]
        exI [of _ l] exI [of _ q]) (auto simp: l GetParams_def GetProvider_def)
qed

end

text \<open>
  Claim C5.  A successful \<open>CreateLease\<close> respected the tenant's limits of active and pending
  leases and of items; it stores one pending lease under a fresh identifier, whose items
  carry the current per-second prices of active SKUs of one active provider; it raises the
  tenant's pending count by one and the reservation by exactly the cost of the minimum
  duration, and in every denom the lease is billed in, all reservations of the tenant
  together are covered by the credit balance.  No coin moves.
\<close>

theorem create_lease_sound:
  assumes "sdk_laws E" and "billing_inv E st" and "CreateLease E ctx st msg = Ok (st', uuid)"
  shows "\<exists>p a ca ca' l q. lg_Params st = Some p \<and> AccAddressFromBech32 E (cl_Tenant msg) = Some a \<and>
     kv_get (CreditAccounts st) a = Some ca \<and> ActiveLeaseCount ca < MaxLeasesPerTenant p \<and>
     PendingLeaseCount ca < MaxPendingLeasesPerTenant p \<and> length (cl_Items msg) \<le> unat (MaxItemsPerLease p) \<and>
     uuid = next_uuid ctx st \<and> Leases st' = kv_set (next_uuid ctx st) l (Leases st) \<and>
     Tenant l = cl_Tenant msg \<and> State l = LEASE_STATE_PENDING \<and> CreatedAt l = BlockTime ctx \<and>
     MinLeaseDurationAtCreation l = MinLeaseDuration p \<and>
     kv_get (Providers (sku_keeper st)) (lease_ProviderUuid l) = Some q \<and> provider_Active q \<and>
     list_all2 (locked_from E (sku_keeper st) (lease_ProviderUuid l)) (cl_Items msg) (Items l) \<and>
     CreditAccounts st' = kv_set a ca' (CreditAccounts st) \<and>
     PendingLeaseCount ca' = PendingLeaseCount ca + 1 \<and> ActiveLeaseCount ca' = ActiveLeaseCount ca \<and>
     (\<forall>d. amt (ReservedAmounts ca') d = amt (ReservedAmounts ca) d + items_rate (Items l) d * uint (MinLeaseDuration p)) \<and>
     (\<forall>d. 0 < items_rate (Items l) d \<longrightarrow> amt (ReservedAmounts ca') d \<le> bal E (bank st) (DeriveCreditAddress E a) d) \<and>
     bank st' = bank st"
proof -
  from assms(3) obtain st1 res where
    run: "createLeaseInternal E ctx st (cl_Tenant msg) (cl_Items msg) (cl_MetaHash msg) = Ok (st1, res)"
    and val: "MsgCreateLease_ValidateBasic E msg = Ok ()" and u: "uuid = lcr_leaseUUID res"
    and ev: "st' = emitLeaseCreatedEvent res (cl_Tenant msg) ''tenant'' st1"
    by (auto simp: CreateLease_def)
  have st': "Leases st' = Leases st1" "CreditAccounts st' = CreditAccounts st1" "bank st' = bank st1"
    by (simp_all add: ev emitLeaseCreatedEvent_def)
  have "cl_Items msg \<noteq> []" "length (cl_Items msg) \<le> 100"
    using val by (auto simp: MsgCreateLease_ValidateBasic_def ValidateLeaseItems_def MaxItemsPerLeaseHardLimit_def
        split: if_split_asm)
  then show ?thesis unfolding st' u by (rule sdk_laws.createLeaseInternal_sound [OF assms(1) run assms(2)])
qed

definition sample_open :: "ref_bank ledger" where
  "sample_open = sample_ledger\<lparr>Leases := [], LeaseBySKUIndex := [], CustomDomainIndex := [],
     CreditAccounts := [(bytes_of ''ten'', sample_account\<lparr>ActiveLeaseCount := 0, PendingLeaseCount := 0, ReservedAmounts := []\<rparr>)]\<rparr>"

definition sample_create :: MsgCreateLease where
  "sample_create = \<lparr>cl_Tenant = ''manifest1ten'', cl_Items = [\<lparr>in_SkuUuid = sample_suuid, in_Quantity = 3,
     in_ServiceName = ''web''\<rparr>], cl_MetaHash = []\<rparr>"

lemma sample_open_inv: "billing_inv ref_sdk sample_open"
proof -
  have "accounts_inv ref_sdk sample_open"
    by (simp add: accounts_inv_def leases_wf_def account_matches_def held_def actives_def pendings_def sample_open_def
        kv_ok_def kv_all_def encodable_def sample_account_def)
  moreover have "domain_inv sample_open" "catalogue_inv sample_open" "sku_index_inv sample_open"
    by (simp_all add: sample_open_def domain_inv_def keyed_def kv_ok_def kv_all_def index_sound_def index_complete_def
        catalogue_inv_def sku_index_inv_def)
  ultimately show ?thesis
    using sample_params_valid by (simp add: billing_inv_def params_ok_def sample_open_def) (simp add: sample_ledger_def)
qed

lemma sample_create_ok: "isOk (CreateLease ref_sdk sample_ctx sample_open sample_create)"
proof -
  have val: "MsgCreateLease_ValidateBasic ref_sdk sample_create = Ok ()"
    by (simp add: MsgCreateLease_ValidateBasic_def sample_create_def MaxMetaHashLength_def ValidateLeaseItems_def
        MaxItemsPerLeaseHardLimit_def MaxQuantityPerItem_def IsValidDNSLabel_def MaxServiceNameLength_def IsValidUUID_def isLowerByte_def isDigitByte_def) (simp add: sample_suuid_def)
  let ?ins = "[\<lparr>in_SkuUuid = sample_suuid, in_Quantity = 3, in_ServiceName = ''web''\<rparr>]"
  let ?ca = "sample_account\<lparr>ActiveLeaseCount := 0, PendingLeaseCount := 0, ReservedAmounts := []\<rparr>"
  have p: "GetParams sample_open = Ok DefaultParams" by (simp add: GetParams_def sample_open_def sample_ledger_def)
  have lim: "checkTenantLimits ref_sdk sample_open DefaultParams ''manifest1ten'' ?ins = Ok ?ca"
    by (simp add: checkTenantLimits_def GetCreditAccount_def sample_open_def kv_get_Cons DefaultParams_def)
  have div: "IntQuo ref_sdk 7200 3600 = 2" "IntMod ref_sdk 7200 3600 = 0"
    by (simp_all add: ref_sdk_def signed_divide_int_def)
  have lk: "lockItems ref_sdk (sku_keeper sample_open) None [] [] ?ins =
      Ok (Some sample_puuid, [lock_item (hd ?ins) sample_price], [\<lparr>Denom = ''umfx'', Amount = 6\<rparr>])"
    by (simp add: GetSKU_def sample_open_def sample_ledger_def sample_sku_state_def kv_get_Cons sample_sku_def
        ConvertBasePriceToPerSecond_def CalculatePricePerSecond_def SecondsPerHour_def ref_eval
        lock_item_def sample_price_def div)
  have q: "GetProvider (sku_keeper sample_open) sample_puuid = Ok sample_stored" "provider_Active sample_stored"
    by (simp_all add: GetProvider_def sample_open_def sample_ledger_def sample_sku_state_def kv_get_Cons sample_stored_def)
  have "isOk (reserveCredit ref_sdk sample_open DefaultParams ''manifest1ten'' ?ca [\<lparr>Denom = ''umfx'', Amount = 6\<rparr>])"
    by (simp add: reserveCredit_def CalculateLeaseReservationFromRates_def ref_eval DefaultParams_def
        getCreditBalancesForDenoms_def DeriveCreditAddressFromBech32_def sample_open_def sample_ledger_def sample_bank_def
        coins_ok_def GetAvailableCredit_def AddReservation_def)
  then obtain ca where rc: "reserveCredit ref_sdk sample_open DefaultParams ''manifest1ten'' ?ca [\<lparr>Denom = ''umfx'', Amount = 6\<rparr>] = Ok ca"
    by (rule isOkE)
  then have ca: "ca_Tenant ca = ''manifest1ten''"
    by (auto simp: reserveCredit_def sample_account_def split: if_split_asm)
  have "isOk (storeLease ref_sdk sample_ctx sample_open DefaultParams ''manifest1ten'' sample_puuid [lock_item (hd ?ins) sample_price] [] ca)"
    by (simp add: storeLease_def GetNextLeaseSequence_def SetLease_def reconcileCustomDomainIndex_def domainsByService_def
        setSKUIndex_def editable_def SetCreditAccount_def ca sample_open_def sample_ledger_def lock_item_def Let_def)
  then obtain r where "storeLease ref_sdk sample_ctx sample_open DefaultParams ''manifest1ten'' sample_puuid
      [lock_item (hd ?ins) sample_price] [] ca = Ok r" by (rule isOkE)
  then have "isOk (createLeaseInternal ref_sdk sample_ctx sample_open ''manifest1ten'' ?ins [])"
    using rc by (cases r) (simp add: createLeaseInternal_def p lim lk q del: lockItems.simps)
  then show ?thesis by (auto simp: CreateLease_def val) (auto simp: sample_create_def elim: isOkE)
qed

theorem create_lease_sound_witness:
  "\<exists>st' uuid ca' l. CreateLease ref_sdk sample_ctx sample_open sample_create = Ok (st', uuid) \<and>
     Leases st' = [(uuid, l)] \<and> State l = LEASE_STATE_PENDING \<and>
     kv_get (CreditAccounts st') (bytes_of ''ten'') = Some ca' \<and> PendingLeaseCount ca' = 1 \<and> bank st' = sample_bank"
proof -
  obtain st' uuid where run: "CreateLease ref_sdk sample_ctx sample_open sample_create = Ok (st', uuid)"
    using sample_create_ok by (auto elim: isOkE)
  have t: "cl_Tenant sample_create = ''manifest1ten''" by (simp add: sample_create_def)
  have c: "bank sample_open = sample_bank" "Leases sample_open = []" "kv_get (CreditAccounts sample_open) (bytes_of ''ten'') =
      Some (sample_account\<lparr>ActiveLeaseCount := 0, PendingLeaseCount := 0, ReservedAmounts := []\<rparr>)"
    by (simp_all add: sample_open_def sample_ledger_def kv_get_Cons)
  from create_lease_sound [OF ref.sdk_laws_axioms sample_open_inv run] obtain ca ca' l where
    "kv_get (CreditAccounts sample_open) (bytes_of ''ten'') = Some ca" "uuid = next_uuid sample_ctx sample_open"
    "Leases st' = kv_set (next_uuid sample_ctx sample_open) l (Leases sample_open)" "State l = LEASE_STATE_PENDING"
    "CreditAccounts st' = kv_set (bytes_of ''ten'') ca' (CreditAccounts sample_open)"
    "PendingLeaseCount ca' = PendingLeaseCount ca + 1" "bank st' = bank sample_open"
    unfolding t sample_decode(1) by (metis option.inject)
  with run c show ?thesis by auto
qed

end
