(* ===== verification/Billing_Queries.thy ===== *)
theory Billing_Queries
  imports Samples Pagination
begin

text \<open>
  The query service of \<open>x/billing\<close> (\<open>querier.go\<close>).  A request is \<open>None\<close> when the caller
  passes nil; single-field requests are the field itself.
\<close>

section \<open>Leases\<close>

record QueryLeasesRequest =
  ql_Pagination :: "PageRequest option"
  ql_StateFilter :: LeaseState

record QueryLeasesByRequest =
  \<comment> \<open>\<open>QueryLeasesByTenantRequest\<close>, \<open>QueryLeasesByProviderRequest\<close>, \<open>QueryLeasesBySKURequest\<close>:
      the tenant, the provider UUID or the SKU UUID\<close>
  qlb_Of :: string
  qlb_Pagination :: "PageRequest option"
  qlb_StateFilter :: LeaseState

type_synonym leases_page = "(status, Lease list \<times> PageResponse) result"

definition Query_Params :: "'x ledger \<Rightarrow> (status, Params) result" where
  "Query_Params st = orErr (GetParams st) Internal"

definition Query_Lease :: "'x ledger \<Rightarrow> string option \<Rightarrow> (status, Lease) result" where
  "Query_Lease st req =
     (case req of
        None \<Rightarrow> Err InvalidArgument
      | Some uuid \<Rightarrow> if uuid = [] then Err InvalidArgument else orErr (GetLease st uuid) StatusNotFound)"

definition Query_Leases ::
  "u64 \<Rightarrow> ((string, Lease) kv \<Rightarrow> PageRequest option \<Rightarrow> (get_error, Lease list \<times> PageResponse) result)
   \<Rightarrow> 'x ledger \<Rightarrow> QueryLeasesRequest option \<Rightarrow> leases_page" where
  \<comment> \<open>\<open>cp\<close> is \<open>query.CollectionPaginate\<close>\<close>
  "Query_Leases dl cp st req =
     (case req of
        None \<Rightarrow> Err InvalidArgument
      | Some q \<Rightarrow>
          if ql_StateFilter q \<noteq> LEASE_STATE_UNSPECIFIED
          then orErr (PaginateStringIndex dl
                 (MatchExactWithOrder (leaseIndex (\<lambda>l. State l = ql_StateFilter q) st) (ql_Pagination q))
                 (storeGet (Leases st)) (ql_Pagination q) None) Internal
          else orErr (cp (Leases st) (ql_Pagination q)) Internal)"

definition Query_LeasesByTenant :: "'x sdk \<Rightarrow> u64 \<Rightarrow> 'x ledger \<Rightarrow> QueryLeasesByRequest option \<Rightarrow> leases_page" where
  "Query_LeasesByTenant E dl st req =
     (case req of
        None \<Rightarrow> Err InvalidArgument
      | Some q \<Rightarrow>
          if qlb_Of q = [] then Err InvalidArgument
          else
            andThen (okOr (AccAddressFromBech32 E (qlb_Of q)) InvalidArgument) (\<lambda>a.
            if qlb_StateFilter q \<noteq> LEASE_STATE_UNSPECIFIED
            then orErr (PaginateStringIndex dl
                   (MatchExactWithOrder
                      (leaseIndex (\<lambda>l. tenantAddr E l = Some a \<and> State l = qlb_StateFilter q) st) (qlb_Pagination q))
                   (storeGet (Leases st)) (qlb_Pagination q) None) Internal
            else orErr (PaginateStringIndex dl
                   (MatchExactWithOrder (leaseIndex (\<lambda>l. tenantAddr E l = Some a) st) (qlb_Pagination q))
                   (storeGet (Leases st)) (qlb_Pagination q) None) Internal))"

definition Query_LeasesByProvider :: "u64 \<Rightarrow> 'x ledger \<Rightarrow> QueryLeasesByRequest option \<Rightarrow> leases_page" where
  "Query_LeasesByProvider dl st req =
     (case req of
        None \<Rightarrow> Err InvalidArgument
      | Some q \<Rightarrow>
          if qlb_Of q = [] then Err InvalidArgument
          else if qlb_StateFilter q \<noteq> LEASE_STATE_UNSPECIFIED
          then orErr (PaginateStringIndex dl
                 (MatchExactWithOrder
                    (leaseIndex (\<lambda>l. lease_ProviderUuid l = qlb_Of q \<and> State l = qlb_StateFilter q) st) (qlb_Pagination q))
                 (storeGet (Leases st)) (qlb_Pagination q) None) Internal
          else orErr (PaginateStringIndex dl
                 (MatchExactWithOrder (leaseIndex (\<lambda>l. lease_ProviderUuid l = qlb_Of q) st) (qlb_Pagination q))
                 (storeGet (Leases st)) (qlb_Pagination q) None) Internal)"

record skuPageState =
  sp_leases :: "Lease list"
  sp_total :: u64
  sp_skipped :: u64
  sp_nextKey :: string
  sp_foundStart :: bool

fun skuPageLoop ::
  "(string \<Rightarrow> (get_error, Lease) result) \<Rightarrow> (Lease \<Rightarrow> bool) option \<Rightarrow> u64 \<Rightarrow> u64 \<Rightarrow> bool \<Rightarrow> string \<Rightarrow> skuPageState
   \<Rightarrow> (string \<times> string) list \<Rightarrow> (get_error, skuPageState) result" where
  "skuPageLoop getLease flt limit offset countTotal startKey s [] = Ok s"
| "skuPageLoop getLease flt limit offset countTotal startKey s (key # rest) =
     (let leaseUUID = snd key
      in if \<not> sp_foundStart s \<and> startKey \<noteq> leaseUUID
         then skuPageLoop getLease flt limit offset countTotal startKey s rest
         else
           (let s1 = s\<lparr>sp_foundStart := True\<rparr>
            in case getLease leaseUUID of
                 Panic \<Rightarrow> Panic
               | Err e \<Rightarrow>
                   if e = NotFound then skuPageLoop getLease flt limit offset countTotal startKey s1 rest else Err e
               | Ok lease \<Rightarrow>
                   if (case flt of None \<Rightarrow> False | Some f \<Rightarrow> \<not> f lease)
                   then skuPageLoop getLease flt limit offset countTotal startKey s1 rest
                   else
                     (let s2 = (if countTotal then s1\<lparr>sp_total := sp_total s1 + 1\<rparr> else s1)
                      in if startKey = [] \<and> sp_skipped s2 < offset
                         then skuPageLoop getLease flt limit offset countTotal startKey
                                (s2\<lparr>sp_skipped := sp_skipped s2 + 1\<rparr>) rest
                         else if of_nat (length (sp_leases s2)) \<ge> limit
                         then
                           (let s3 = (if sp_nextKey s2 = [] then s2\<lparr>sp_nextKey := leaseUUID\<rparr> else s2)
                            in if \<not> countTotal then Ok s3
                               else skuPageLoop getLease flt limit offset countTotal startKey s3 rest)
                         else skuPageLoop getLease flt limit offset countTotal startKey
                                (s2\<lparr>sp_leases := sp_leases s2 @ [lease]\<rparr>) rest)))"

definition paginateSKUIndex ::
  "u64 \<Rightarrow> (string \<times> string) list \<Rightarrow> (string \<Rightarrow> (get_error, Lease) result) \<Rightarrow> PageRequest option \<Rightarrow> (Lease \<Rightarrow> bool) option
   \<Rightarrow> (get_error, Lease list \<times> PageResponse) result" where
  "paginateSKUIndex defaultLimit iter getLease pageReq flt =
     (let (limit, offset, countTotal, startKey) =
        (case pageReq of
           None \<Rightarrow> (defaultLimit, 0, False, [])
         | Some r \<Rightarrow> (if pr_Limit r > 0 then pr_Limit r else defaultLimit, pr_Offset r, pr_CountTotal r, pr_Key r))
      in andThen (skuPageLoop getLease flt limit offset countTotal startKey
           \<lparr>sp_leases = [], sp_total = 0, sp_skipped = 0, sp_nextKey = [], sp_foundStart = (startKey = [])\<rparr> iter) (\<lambda>s.
         Ok (sp_leases s, \<lparr>NextKey = sp_nextKey s, Total = (if countTotal then sp_total s else 0)\<rparr>)))"

definition Query_LeasesBySKU :: "u64 \<Rightarrow> 'x ledger \<Rightarrow> QueryLeasesByRequest option \<Rightarrow> leases_page" where
  "Query_LeasesBySKU dl st req =
     (case req of
        None \<Rightarrow> Err InvalidArgument
      | Some q \<Rightarrow>
          if qlb_Of q = [] then Err InvalidArgument
          else
            (let keys = map fst (filter (\<lambda>e. fst (fst e) = qlb_Of q) (LeaseBySKUIndex st));
                 iter = (case qlb_Pagination q of None \<Rightarrow> keys | Some r \<Rightarrow> if pr_Reverse r then rev keys else keys);
                 flt = (if qlb_StateFilter q \<noteq> LEASE_STATE_UNSPECIFIED
                        then Some (\<lambda>l. State l = qlb_StateFilter q) else None)
             in orErr (paginateSKUIndex dl iter (storeGet (Leases st)) (qlb_Pagination q) flt) Internal))"

definition Query_LeaseByCustomDomain :: "'x ledger \<Rightarrow> string option \<Rightarrow> (status, Lease \<times> string) result" where
  "Query_LeaseByCustomDomain st req =
     (case req of
        None \<Rightarrow> Err InvalidArgument
      | Some d \<Rightarrow>
          (let domain = ToLower (TrimSpace d)
           in if domain = [] then Err InvalidArgument
              else
                andThen (orErr (GetLeaseByCustomDomain st domain) Internal) (\<lambda>r. okOr r StatusNotFound)))"

section \<open>Credit\<close>

definition DefaultProviderWithdrawableQueryLimit :: u64 where "DefaultProviderWithdrawableQueryLimit = 100"
definition MaxProviderWithdrawableQueryLimit :: u64 where "MaxProviderWithdrawableQueryLimit = 1000"

record QueryCreditAccountResponse =
  qca_CreditAccount :: CreditAccount
  qca_Balances :: coins
  qca_AvailableBalances :: coins

definition Query_CreditAccount ::
  "'x sdk \<Rightarrow> 'x ledger \<Rightarrow> string option \<Rightarrow> (status, QueryCreditAccountResponse) result" where
  "Query_CreditAccount E st req =
     (case req of
        None \<Rightarrow> Err InvalidArgument
      | Some tenant \<Rightarrow>
          if tenant = [] then Err InvalidArgument
          else if AccAddressFromBech32 E tenant = None then Err InvalidArgument
          else
            andThen (orErr (GetCreditAccount E st tenant) StatusNotFound) (\<lambda>ca.
            andThen (orErr (getRelevantDenomsForTenant E st tenant (ReservedAmounts ca)) Internal) (\<lambda>relevantDenoms.
            andThen
              (if relevantDenoms \<noteq> []
               then orErr (getCreditBalancesForDenoms E st tenant relevantDenoms) Internal
               else
                 andThen (okOr (DeriveCreditAddressFromBech32 E tenant) Internal) (\<lambda>creditAddr.
                 Ok (GetAllBalances E (bank st) creditAddr))) (\<lambda>balances.
            andThen (orErr (GetAvailableCredit E balances (ReservedAmounts ca)) Internal) (\<lambda>availableBalances.
            Ok \<lparr>qca_CreditAccount = ca, qca_Balances = balances, qca_AvailableBalances = availableBalances\<rparr>)))))"

definition Query_CreditAddress :: "'x sdk \<Rightarrow> string option \<Rightarrow> (status, string) result" where
  "Query_CreditAddress E req =
     (case req of
        None \<Rightarrow> Err InvalidArgument
      | Some tenant \<Rightarrow>
          if tenant = [] then Err InvalidArgument
          else
            andThen (okOr (DeriveCreditAddressFromBech32 E tenant) InvalidArgument) (\<lambda>creditAddr.
            Ok (AccAddressString E creditAddr)))"

definition Query_WithdrawableAmount ::
  "'x sdk \<Rightarrow> block_ctx \<Rightarrow> 'x ledger \<Rightarrow> string option \<Rightarrow> (status, coins) result" where
  "Query_WithdrawableAmount E ctx st req =
     (case req of
        None \<Rightarrow> Err InvalidArgument
      | Some uuid \<Rightarrow>
          if uuid = [] then Err InvalidArgument
          else
            andThen (orErr (GetLease st uuid) StatusNotFound) (\<lambda>lease.
            orErr (CalculateWithdrawableForLease E ctx st lease) Internal))"

record QueryProviderWithdrawableResponse =
  pw_Amounts :: coins
  pw_LeaseCount :: u64
  pw_HasMore :: bool

definition withdrawableCallback ::
  "'x sdk \<Rightarrow> block_ctx \<Rightarrow> 'x ledger \<Rightarrow> u64 \<Rightarrow> Lease \<Rightarrow> coins \<times> u64 \<times> u64 \<times> bool
   \<Rightarrow> (billing_error, bool \<times> coins \<times> u64 \<times> u64 \<times> bool) result" where
  \<comment> \<open>the locals \<open>(totalWithdrawable, leaseCount, processedCount, hasMore)\<close>\<close>
  "withdrawableCallback E ctx st limit lease l =
     (let (totalWithdrawable, leaseCount, processedCount, hasMore) = l
      in if processedCount \<ge> limit then Ok (True, totalWithdrawable, leaseCount, processedCount, True)
         else
           andThen (CalculateWithdrawableForLease E ctx st lease) (\<lambda>withdrawable.
           if \<not> CoinsIsZero E withdrawable
           then
             andThen (must (CoinsAdd E totalWithdrawable withdrawable)) (\<lambda>total.
             Ok (False, total, leaseCount + 1, processedCount + 1, hasMore))
           else Ok (False, totalWithdrawable, leaseCount, processedCount + 1, hasMore)))"

definition Query_ProviderWithdrawable ::
  "'x sdk \<Rightarrow> block_ctx \<Rightarrow> 'x ledger \<Rightarrow> (string \<times> u64) option \<Rightarrow> (status, QueryProviderWithdrawableResponse) result" where
  \<comment> \<open>the request carries the provider UUID and the limit\<close>
  "Query_ProviderWithdrawable E ctx st req =
     (case req of
        None \<Rightarrow> Err InvalidArgument
      | Some (providerUUID, reqLimit) \<Rightarrow>
          if providerUUID = [] then Err InvalidArgument
          else
            (let limit0 = (if reqLimit = 0 then DefaultProviderWithdrawableQueryLimit else reqLimit);
                 limit = (if limit0 > MaxProviderWithdrawableQueryLimit then MaxProviderWithdrawableQueryLimit else limit0)
             in andThen (orErr (IterateLeasesByProvider st providerUUID (withdrawableCallback E ctx st limit) ([], 0, 0, False))
                  Internal) (\<lambda>(total, leaseCount, processed, hasMore).
                Ok \<lparr>pw_Amounts = total, pw_LeaseCount = leaseCount, pw_HasMore = hasMore\<rparr>)))"

definition Query_CreditAccounts ::
  "((addr, CreditAccount) kv \<Rightarrow> PageRequest option \<Rightarrow> (get_error, CreditAccount list \<times> PageResponse) result)
   \<Rightarrow> 'x ledger \<Rightarrow> PageRequest option option \<Rightarrow> (status, CreditAccount list \<times> PageResponse) result" where
  "Query_CreditAccounts cp st req =
     (case req of None \<Rightarrow> Err InvalidArgument | Some pageReq \<Rightarrow> orErr (cp (CreditAccounts st) pageReq) Internal)"

section \<open>CreditEstimate\<close>

record QueryCreditEstimateResponse =
  est_CurrentBalance :: coins
  est_TotalRatePerSecond :: coins
  est_EstimatedDurationSeconds :: u64
  est_ActiveLeaseCount :: u64

fun estimateItems :: "'x sdk \<Rightarrow> coins \<times> string list \<Rightarrow> LeaseItem list \<Rightarrow> (billing_error, coins \<times> string list) result" where
  "estimateItems E acc [] = Ok acc"
| "estimateItems E (totalRate, denoms) (item # items) =
     (let d = Denom (LockedPrice item)
      in andThen (must (IntMul E (Amount (LockedPrice item)) (uint (Quantity item)))) (\<lambda>rate.
         andThen (must (NewCoin E d rate)) (\<lambda>itemRate.
         andThen (must (CoinsAdd E totalRate [itemRate])) (\<lambda>totalRate'.
         estimateItems E (totalRate', if d \<in> set denoms then denoms else denoms @ [d]) items))))"

fun estimateLoop ::
  "'x sdk \<Rightarrow> 'x ledger \<Rightarrow> u64 \<Rightarrow> coins \<times> string list \<Rightarrow> string list \<Rightarrow> (billing_error, u64 \<times> coins \<times> string list) result" where
  "estimateLoop E st activeLeaseCount acc [] = Ok (activeLeaseCount, acc)"
| "estimateLoop E st activeLeaseCount acc (leaseUUID # rest) =
     (let count = activeLeaseCount + 1
      in if count > of_nat MaxCreditEstimateLeases then Ok (count, acc)
         else
           andThen (okOr (kv_get (Leases st) leaseUUID) ErrStore) (\<lambda>lease.
           andThen (estimateItems E acc (Items lease)) (\<lambda>acc'.
           estimateLoop E st count acc' rest)))"

fun durationLoop :: "'x sdk \<Rightarrow> coins \<Rightarrow> u64 \<Rightarrow> coins \<Rightarrow> u64" where
  "durationLoop E currentBalance estimated [] = estimated"
| "durationLoop E currentBalance estimated (rateCoin # rates) =
     (if Amount rateCoin = 0 then durationLoop E currentBalance estimated rates
      else
        (let balanceAmount = CoinsAmountOf E currentBalance (Denom rateCoin)
         in if balanceAmount = 0 then 0
            else
              (let quotient = IntQuo E balanceAmount (Amount rateCoin);
                   duration = (if 0 \<le> quotient \<and> quotient < 2 ^ 64 then word_of_int quotient else maxUint64)
               in durationLoop E currentBalance (min estimated duration) rates)))"

definition Query_CreditEstimate ::
  "'x sdk \<Rightarrow> 'x ledger \<Rightarrow> string option \<Rightarrow> (status, QueryCreditEstimateResponse) result" where
  "Query_CreditEstimate E st req =
     (case req of
        None \<Rightarrow> Err InvalidArgument
      | Some tenant \<Rightarrow>
          if tenant = [] then Err InvalidArgument
          else
            andThen (okOr (AccAddressFromBech32 E tenant) InvalidArgument) (\<lambda>a.
            andThen (orErr (GetCreditAccount E st tenant) StatusNotFound) (\<lambda>_.
            andThen (orErr (estimateLoop E st 0 ([], [])
                (leaseIndex (\<lambda>l. tenantAddr E l = Some a \<and> State l = LEASE_STATE_ACTIVE) st)) Internal)
              (\<lambda>(activeLeaseCount, totalRatePerSecond, denoms).
            andThen (orErr (getCreditBalancesForDenoms E st tenant denoms) Internal) (\<lambda>currentBalance.
            let estimated =
              (if activeLeaseCount > 0 \<and> \<not> CoinsIsZero E totalRatePerSecond
               then (let d = durationLoop E currentBalance maxUint64 totalRatePerSecond
                     in if d = maxUint64 then 0 else d)
               else 0)
            in Ok \<lparr>est_CurrentBalance = currentBalance, est_TotalRatePerSecond = totalRatePerSecond,
                   est_EstimatedDurationSeconds = estimated, est_ActiveLeaseCount = activeLeaseCount\<rparr>)))))"

end
