(* ===== verification/Query_Props.thy ===== *)
theory Query_Props
  imports Billing_Queries
begin

text \<open>
  The properties of the query service of the billing module.
\<close>

section \<open>Listings\<close>

definition conv :: "skuPageState \<Rightarrow> Lease pageState" where
  "conv s = \<lparr>ps_values = sp_leases s, ps_count = of_nat (length (sp_leases s)), ps_total = sp_total s,
     ps_nextKey = sp_nextKey s, ps_foundStart = sp_foundStart s, ps_skipped = sp_skipped s\<rparr>"

fun map_ok :: "('a \<Rightarrow> 'b) \<Rightarrow> ('e, 'a) result \<Rightarrow> ('e, 'b) result" where
  "map_ok f (Ok x) = Ok (f x)"
| "map_ok f (Err e) = Err e"
| "map_ok f Panic = Panic"

lemma conv_simps [simp]:
  "ps_values (conv s) = sp_leases s" "ps_count (conv s) = of_nat (length (sp_leases s))" "ps_total (conv s) = sp_total s"
  "ps_nextKey (conv s) = sp_nextKey s" "ps_foundStart (conv s) = sp_foundStart s" "ps_skipped (conv s) = sp_skipped s"
  "(conv s)\<lparr>ps_foundStart := b\<rparr> = conv (s\<lparr>sp_foundStart := b\<rparr>)"
  "(conv s)\<lparr>ps_total := n\<rparr> = conv (s\<lparr>sp_total := n\<rparr>)"
  "(conv s)\<lparr>ps_skipped := n\<rparr> = conv (s\<lparr>sp_skipped := n\<rparr>)"
  "(conv s)\<lparr>ps_nextKey := k\<rparr> = conv (s\<lparr>sp_nextKey := k\<rparr>)"
  "(conv s)\<lparr>ps_values := vs @ [l], ps_count := of_nat (length vs) + 1\<rparr> = conv (s\<lparr>sp_leases := vs @ [l]\<rparr>)"
  by (simp_all add: conv_def add.commute)

lemma skuPageLoop_conv:
  "paginateLoop g f req limit (conv s) (map snd iter) =
   map_ok conv (skuPageLoop g f limit (pr_Offset req) (pr_CountTotal req) (pr_Key req) s iter)"
proof (induction iter arbitrary: s)
  case (Cons key iter)
  show ?case
  proof (cases "g (snd key)")
    case (Ok l)
    then show ?thesis
      by (cases "case f of None \<Rightarrow> False | Some f \<Rightarrow> \<not> f l") (simp_all add: Cons.IH Let_def)
  next
    case (Err e)
    then show ?thesis by (simp add: Cons.IH Let_def)
  next
    case Panic
    then show ?thesis by (simp add: Cons.IH Let_def)
  qed
qed simp

lemma paginateSKU_eq: "paginateSKUIndex dl iter g pageReq flt = PaginateStringIndex dl (map snd iter) g pageReq flt"
proof -
  define req where "req = (case pageReq of None \<Rightarrow> emptyPageRequest | Some r \<Rightarrow> r)"
  define limit where "limit = (if pr_Limit req = 0 then dl else pr_Limit req)"
  let ?s = "\<lparr>sp_leases = [], sp_total = 0, sp_skipped = 0, sp_nextKey = [], sp_foundStart = (pr_Key req = [])\<rparr>"
  let ?out = "\<lambda>s. (sp_leases s, \<lparr>NextKey = sp_nextKey s, Total = (if pr_CountTotal req then sp_total s else 0)\<rparr>)"
  let ?run = "skuPageLoop g flt limit (pr_Offset req) (pr_CountTotal req) (pr_Key req) ?s iter"
  have sku: "paginateSKUIndex dl iter g pageReq flt = andThen ?run (\<lambda>s. Ok (?out s))"
    by (cases pageReq) (auto simp: paginateSKUIndex_def req_def limit_def emptyPageRequest_def word_gt_0)
  have "pageStart req = conv ?s" by (simp add: pageStart_def conv_def)
  then have "PaginateStringIndex dl (map snd iter) g pageReq flt = andThen (map_ok conv ?run) (\<lambda>s.
      Ok (ps_values s, \<lparr>NextKey = ps_nextKey s, Total = (if pr_CountTotal req then ps_total s else 0)\<rparr>))"
    by (simp add: PaginateStringIndex_def Let_def skuPageLoop_conv flip: req_def limit_def)
  then show ?thesis unfolding sku by (cases ?run) simp_all
qed

lemma leases_paged:
  assumes "billing_inv E st"
  shows "kv_ok (Leases st)" and "kv_get (Leases st) [] = None"
  using assms by (auto simp: billing_inv_def domain_inv_def keyed_def catalogue_inv_def kv_all_def kv_get_None)

lemma lease_page:
  assumes "billing_inv E st"
  shows "PaginateStringIndex dl (MatchExactWithOrder (leaseIndex p st) pageReq) (storeGet (Leases st)) pageReq flt =
     Ok (page_list dl flt pageReq (filter (\<lambda>e. p (snd e)) (Leases st)))"
  unfolding leaseIndex_def by (rule index_page [OF leases_paged [OF assms]])

lemma pair_keys_sorted:
  fixes m :: "(string \<times> string, 'v) kv"
  assumes "kv_ok m"
  shows "sorted_wrt (<) (map (\<lambda>e. snd (fst e)) (filter (\<lambda>e. fst (fst e) = s) m))"
proof -
  have "sorted_wrt (\<lambda>x y. fst x < fst y) (filter (\<lambda>e. fst (fst e) = s) m)"
    using assms by (simp add: kv_ok_def sorted_wrt_map sorted_wrt_filter)
  then show ?thesis unfolding sorted_wrt_map by (rule sorted_wrt_mono_rel [rotated]) (auto simp: less_prod_def)
qed

lemma sku_index_keys:
  assumes "billing_inv E st"
  shows "map (\<lambda>e. snd (fst e)) (filter (\<lambda>e. fst (fst e) = s) (LeaseBySKUIndex st)) =
     leaseIndex (\<lambda>l. s \<in> SkuUuid ` set (Items l)) st"
proof (rule strict_sorted_equal)
  have ok: "kv_ok (LeaseBySKUIndex st)" and idx: "\<And>u. kv_get (LeaseBySKUIndex st) (s, u) =
      (if \<exists>l \<in> set_option (kv_get (Leases st) u). s \<in> SkuUuid ` set (Items l) then Some True else None)"
    using assms by (auto simp: billing_inv_def sku_index_inv_def)
  note okL = leases_paged(1) [OF assms]
  show "sorted_wrt (<) (map (\<lambda>e. snd (fst e)) (filter (\<lambda>e. fst (fst e) = s) (LeaseBySKUIndex st)))"
    by (rule pair_keys_sorted [OF ok])
  show "sorted_wrt (<) (leaseIndex (\<lambda>l. s \<in> SkuUuid ` set (Items l)) st)"
    using okL by (simp add: leaseIndex_def kv_ok_def sorted_wrt_map sorted_wrt_filter)
  have "u \<in> set (map (\<lambda>e. snd (fst e)) (filter (\<lambda>e. fst (fst e) = s) (LeaseBySKUIndex st))) \<longleftrightarrow>
      kv_get (LeaseBySKUIndex st) (s, u) \<noteq> None" for u
    by (force simp: kv_get_None)
  moreover have "u \<in> set (leaseIndex (\<lambda>l. s \<in> SkuUuid ` set (Items l)) st) \<longleftrightarrow>
      (\<exists>l. kv_get (Leases st) u = Some l \<and> s \<in> SkuUuid ` set (Items l))" for u
    by (force simp: leaseIndex_def kv_get_eq_Some [OF okL])
  ultimately show "set (map (\<lambda>e. snd (fst e)) (filter (\<lambda>e. fst (fst e) = s) (LeaseBySKUIndex st))) =
      set (leaseIndex (\<lambda>l. s \<in> SkuUuid ` set (Items l)) st)"
    using idx by (auto simp: set_eq_iff)
qed

text \<open>
  Claim C23.  The lease listings are exact: by state, by tenant address, by provider UUID and by
  SKU UUID, each with or without a state filter, a query returns a page of exactly the stored
  leases with that property, in key order or its reverse; in particular the hand-maintained
  index of leases by SKU misses none and holds no stale entry.  The listing of all leases
  without a filter is the SDK's paginator on the whole store.
\<close>

theorem lease_listings_exact:
  assumes "billing_inv E st" and "s \<noteq> LEASE_STATE_UNSPECIFIED"
    and "tenant \<noteq> []" and "AccAddressFromBech32 E tenant = Some a" and "puuid \<noteq> []" and "suuid \<noteq> []"
  shows "Query_Leases dl cp st (Some \<lparr>ql_Pagination = pg, ql_StateFilter = s\<rparr>) =
       Ok (page_list dl None pg (filter (\<lambda>e. State (snd e) = s) (Leases st))) \<and>
     Query_Leases dl cp st (Some \<lparr>ql_Pagination = pg, ql_StateFilter = LEASE_STATE_UNSPECIFIED\<rparr>) =
       orErr (cp (Leases st) pg) Internal \<and>
     Query_LeasesByTenant E dl st (Some \<lparr>qlb_Of = tenant, qlb_Pagination = pg, qlb_StateFilter = f\<rparr>) =
       Ok (page_list dl None pg (filter (\<lambda>e. tenantAddr E (snd e) = Some a \<and>
         (f \<noteq> LEASE_STATE_UNSPECIFIED \<longrightarrow> State (snd e) = f)) (Leases st))) \<and>
     Query_LeasesByProvider dl st (Some \<lparr>qlb_Of = puuid, qlb_Pagination = pg, qlb_StateFilter = f\<rparr>) =
       Ok (page_list dl None pg (filter (\<lambda>e. lease_ProviderUuid (snd e) = puuid \<and>
         (f \<noteq> LEASE_STATE_UNSPECIFIED \<longrightarrow> State (snd e) = f)) (Leases st))) \<and>
     Query_LeasesBySKU dl st (Some \<lparr>qlb_Of = suuid, qlb_Pagination = pg, qlb_StateFilter = f\<rparr>) =
       Ok (page_list dl (if f \<noteq> LEASE_STATE_UNSPECIFIED then Some (\<lambda>l. State l = f) else None) pg
         (filter (\<lambda>e. suuid \<in> SkuUuid ` set (Items (snd e))) (Leases st)))"
proof -
  note page = lease_page [OF assms(1)]
  have "Query_LeasesBySKU dl st (Some \<lparr>qlb_Of = suuid, qlb_Pagination = pg, qlb_StateFilter = f\<rparr>) =
      orErr (PaginateStringIndex dl (MatchExactWithOrder (leaseIndex (\<lambda>l. suuid \<in> SkuUuid ` set (Items l)) st) pg)
        (storeGet (Leases st)) pg (if f \<noteq> LEASE_STATE_UNSPECIFIED then Some (\<lambda>l. State l = f) else None)) Internal"
    using assms(6) sku_index_keys [OF assms(1), of suuid, symmetric]
    by (auto simp: Query_LeasesBySKU_def paginateSKU_eq MatchExactWithOrder_def rev_map comp_def split: option.splits)
  then show ?thesis
    using assms(2-5) by (simp add: Query_Leases_def Query_LeasesByTenant_def Query_LeasesByProvider_def page)
qed

theorem lease_listings_exact_witness:
  "Query_LeasesByTenant ref_sdk 100 sample_ledger
     (Some \<lparr>qlb_Of = ''manifest1ten'', qlb_Pagination = None, qlb_StateFilter = LEASE_STATE_PENDING\<rparr>) =
   Ok ([sample_pending], \<lparr>NextKey = [], Total = 0\<rparr>) \<and>
   Query_LeasesByProvider 100 sample_ledger
     (Some \<lparr>qlb_Of = sample_puuid, qlb_Pagination = None, qlb_StateFilter = LEASE_STATE_UNSPECIFIED\<rparr>) =
   Ok ([sample_active, sample_pending], \<lparr>NextKey = [], Total = 0\<rparr>) \<and>
   Query_LeasesBySKU 100 sample_ledger
     (Some \<lparr>qlb_Of = sample_suuid, qlb_Pagination = None, qlb_StateFilter = LEASE_STATE_ACTIVE\<rparr>) =
   Ok ([sample_active], \<lparr>NextKey = [], Total = 0\<rparr>)"
proof -
  have k: "''manifest1ten'' \<noteq> []" "sample_puuid \<noteq> []" "sample_suuid \<noteq> []" by (simp_all add: sample_puuid_def sample_suuid_def)
  have s: "LEASE_STATE_ACTIVE \<noteq> LEASE_STATE_UNSPECIFIED" by simp
  note exact = lease_listings_exact [OF sample_billing_inv s k(1) sample_decode(1) k(2,3), of 100 _ None]
  show ?thesis
    unfolding exact [THEN conjunct2, THEN conjunct2, THEN conjunct1] exact [THEN conjunct2, THEN conjunct2, THEN conjunct2, THEN conjunct1]
      exact [THEN conjunct2, THEN conjunct2, THEN conjunct2, THEN conjunct2]
    by (simp add: sample_data tenantAddr_def page_list_def passes_def ordered_def emptyPageRequest_def page_limit_def)
qed

section \<open>Estimates\<close>

definition coins_cover :: "coins \<Rightarrow> (string \<Rightarrow> int) \<Rightarrow> int \<Rightarrow> bool" where
  \<comment> \<open>balances \<open>b\<close> pay the rates for \<open>n\<close> seconds\<close>
  "coins_cover rates b n \<longleftrightarrow> (\<forall>c \<in> set rates. n * Amount c \<le> b (Denom c))"

lemma coins_cover_amt:
  assumes "coins_ok rates" and "\<And>d. 0 \<le> b d"
  shows "coins_cover rates b n \<longleftrightarrow> (\<forall>d. n * amt rates d \<le> b d)"
proof
  assume c: "coins_cover rates b n"
  show "\<forall>d. n * amt rates d \<le> b d"
  proof
    fix d
    show "n * amt rates d \<le> b d"
    proof (cases "d \<in> Denom ` set rates")
      case True
      then obtain x where "x \<in> set rates" "d = Denom x" by blast
      with c assms(1) show ?thesis by (auto simp: coins_cover_def amt_mem)
    next
      case False
      with assms(2) show ?thesis by (simp add: amt_absent)
    qed
  qed
next
  assume "\<forall>d. n * amt rates d \<le> b d"
  with assms(1) show "coins_cover rates b n" unfolding coins_cover_def by (metis amt_mem)
qed

lemma word_max: "uint (- 1 :: u64) = 2 ^ 64 - 1"
  by (simp add: unsigned_minus_1_eq_mask mask_eq_exp_minus_1)

lemma uint64: "uint (x :: u64) \<le> 2 ^ 64 - 1"
  using uint_lt2p [of x] by simp

lemma le_div_iff: "0 < r \<Longrightarrow> n \<le> B div r \<longleftrightarrow> n * r \<le> B" for n r B :: int
proof
  assume r: "0 < r" and "n \<le> B div r"
  then have "n * r \<le> B div r * r" by (simp add: mult_right_mono)
  also have "\<dots> \<le> B" using r by (simp add: pos_mod_sign minus_mod_eq_div_mult [symmetric])
  finally show "n * r \<le> B" .
next
  assume "0 < r" and "n * r \<le> B"
  then show "n \<le> B div r" using zdiv_mono1 [of "n * r" B r] by simp
qed

definition capped :: "int \<Rightarrow> u64" where
  "capped q = (if 0 \<le> q \<and> q < 2 ^ 64 then word_of_int q else - 1)"

lemma capped_le: "0 \<le> q \<Longrightarrow> n \<le> 2 ^ 64 - 1 \<Longrightarrow> n \<le> uint (capped q) \<longleftrightarrow> n \<le> q"
  by (auto simp: capped_def word_max uint_word_of_int)

lemma of_nat_pos: "0 < n \<Longrightarrow> n \<le> 101 \<Longrightarrow> 0 < (of_nat n :: u64)"
  by (simp add: word_less_nat_alt unat_of_nat)

lemma sum_list_zero: "\<forall>x \<in> set xs. f x = (0::int) \<Longrightarrow> (\<Sum>x\<leftarrow>xs. f x) = 0"
  by (induction xs) auto

context sdk_laws
begin

lemma durationLoop_law:
  assumes "coins_ok rates" and "coins_ok cur" and "\<forall>c \<in> set rates. amt cur (Denom c) = b (Denom c)"
    and "0 \<le> n" "n \<le> 2 ^ 64 - 1"
  shows "n \<le> uint (durationLoop E cur est rates) \<longleftrightarrow> n \<le> uint est \<and> coins_cover rates b n"
  using assms(1,3)
proof (induction rates arbitrary: est)
  case Nil
  then show ?case by (simp add: coins_cover_def)
next
  case (Cons c rates)
  let ?B = "amt cur (Denom c)"
  have pos: "0 < Amount c" and ok: "coins_ok rates" using Cons.prems(1) by (auto simp: coins_ok_Cons)
  have B: "CoinsAmountOf E cur (Denom c) = ?B" "0 \<le> ?B" using assms(2) by (simp_all add: CoinsAmountOf_law)
  have cur: "\<forall>c \<in> set rates. amt cur (Denom c) = b (Denom c)" and b: "b (Denom c) = ?B" using Cons.prems(2) by auto
  show ?case
  proof (cases "?B = 0")
    case True
    have "\<forall>x \<in> set (c # rates). 0 \<le> b (Denom x)" using Cons.prems(2) assms(2) by (metis amt_ok_nonneg)
    then have "n = 0 \<longleftrightarrow> n \<le> uint est \<and> coins_cover (c # rates) b n"
      using True b pos assms(4) by (auto simp: coins_cover_def mult_le_0_iff)
    with True B pos assms(4) show ?thesis by simp
  next
    case False
    have q: "IntQuo E ?B (Amount c) = ?B div Amount c" using IntQuo_law B(2) pos by simp
    have "durationLoop E cur est (c # rates) = durationLoop E cur (min est (capped (?B div Amount c))) rates"
      using False B pos q by (simp add: capped_def Let_def)
    moreover have "n \<le> uint (min est (capped (?B div Amount c))) \<longleftrightarrow> n \<le> uint est \<and> n * Amount c \<le> ?B"
      using capped_le [of "?B div Amount c" n] assms(5) B(2) pos le_div_iff [OF pos, of n ?B]
      by (auto simp: min_def word_le_def pos_imp_zdiv_nonneg_iff)
    ultimately show ?thesis using Cons.IH [OF ok cur] b by (auto simp: coins_cover_def)
  qed
qed

lemma estimateItems_law:
  assumes "estimateItems E (tot, ds) items = Ok (tot', ds')" and "coins_ok tot" and "distinct ds"
  shows "coins_ok tot' \<and> amt tot' d = amt tot d + items_rate items d \<and> distinct ds' \<and>
     set ds' = set ds \<union> (\<lambda>i. Denom (LockedPrice i)) ` set items"
  using assms
proof (induction items arbitrary: tot ds)
  case (Cons i items)
  let ?d = "Denom (LockedPrice i)" and ?ds = "if Denom (LockedPrice i) \<in> set ds then ds else ds @ [Denom (LockedPrice i)]"
  from Cons.prems(1) obtain r c tot1 where m: "IntMul E (Amount (LockedPrice i)) (uint (Quantity i)) = Some r"
    and n: "NewCoin E ?d r = Some c" and a: "CoinsAdd E tot [c] = Some tot1"
    and l: "estimateItems E (tot1, ?ds) items = Ok (tot', ds')" by (auto simp: Let_def)
  note add = add_one [OF n a Cons.prems(2)]
  have "distinct ?ds" using Cons.prems(3) by simp
  from Cons.IH [OF l add(1) this] add(2) [of d] IntMul_law [OF m] show ?case by auto
qed simp

lemma estimateLoop_law:
  assumes "estimateLoop E st n (tot, ds) us = Ok (n', tot', ds')" and "coins_ok tot" and "distinct ds" and "unat n \<le> 100"
  defines "seen \<equiv> take (100 - unat n) us"
  shows "n' = n + of_nat (min (length us) (101 - unat n)) \<and> coins_ok tot' \<and> distinct ds' \<and> set ds \<subseteq> set ds' \<and>
     amt tot' d = amt tot d + (\<Sum>u\<leftarrow>seen. items_rate (Items (the (kv_get (Leases st) u))) d) \<and>
     (\<forall>u \<in> set seen. \<forall>i \<in> set (Items (the (kv_get (Leases st) u))). Denom (LockedPrice i) \<in> set ds')"
  using assms(1-4) unfolding seen_def
proof (induction us arbitrary: n tot ds)
  case (Cons u us)
  have n1: "unat (n + 1) = unat n + 1" using Cons.prems(4) by (intro unat_plus1) simp
  then have lim: "n + 1 > of_nat MaxCreditEstimateLeases \<longleftrightarrow> unat n = 100"
    using Cons.prems(4) by (auto simp: word_less_nat_alt MaxCreditEstimateLeases_def)
  show ?case
  proof (cases "unat n = 100")
    case True
    with lim Cons.prems show ?thesis by (simp add: Let_def)
  next
    case False
    with lim Cons.prems(1) obtain l tot1 ds1 where l: "kv_get (Leases st) u = Some l"
      and i: "estimateItems E (tot, ds) (Items l) = Ok (tot1, ds1)"
      and rest: "estimateLoop E st (n + 1) (tot1, ds1) us = Ok (n', tot', ds')"
      by (auto simp: Let_def)
    have il: "coins_ok tot1 \<and> amt tot1 d = amt tot d + items_rate (Items l) d \<and> distinct ds1 \<and>
       set ds1 = set ds \<union> (\<lambda>i. Denom (LockedPrice i)) ` set (Items l)" for d
      by (rule estimateItems_law [OF i Cons.prems(2,3)])
    obtain k where k: "100 - unat n = Suc k" "101 - unat n = Suc (Suc k)" "100 - unat (n + 1) = k" "101 - unat (n + 1) = Suc k"
      using False Cons.prems(4) n1 by (intro that [of "99 - unat n"]) auto
    have "unat (n + 1) \<le> 100" using n1 False Cons.prems(4) by simp
    from Cons.IH [OF rest _ _ this] il l show ?thesis unfolding k by (auto simp: algebra_simps)
  qed
qed simp

lemma CreditEstimate_law:
  assumes inv: "billing_inv E st" and a: "AccAddressFromBech32 E t = Some a"
    and run: "Query_CreditEstimate E st (Some t) = Ok r"
  defines "rate \<equiv> \<lambda>d. \<Sum>u\<leftarrow>take 100 (leaseIndex (\<lambda>l. tenantAddr E l = Some a \<and> State l = LEASE_STATE_ACTIVE) st).
     items_rate (Items (the (kv_get (Leases st) u))) d"
  defines "b \<equiv> bal E (bank st) (DeriveCreditAddress E a)"
  shows "(\<forall>d. amt (est_TotalRatePerSecond r) d = rate d) \<and>
     est_ActiveLeaseCount r = of_nat (min (length (leaseIndex (\<lambda>l. tenantAddr E l = Some a \<and> State l = LEASE_STATE_ACTIVE) st)) 101) \<and>
     ((\<exists>d. b d < (2 ^ 64 - 1) * rate d) \<longrightarrow>
        (\<forall>n \<ge> 0. n \<le> uint (est_EstimatedDurationSeconds r) \<longleftrightarrow> (\<forall>d. n * rate d \<le> b d))) \<and>
     ((\<forall>d. (2 ^ 64 - 1) * rate d \<le> b d) \<longrightarrow> est_EstimatedDurationSeconds r = 0)"
proof -
  let ?us = "leaseIndex (\<lambda>l. tenantAddr E l = Some a \<and> State l = LEASE_STATE_ACTIVE) st"
  from run a obtain cnt tot ds cur where lp: "estimateLoop E st 0 ([], []) ?us = Ok (cnt, tot, ds)"
    and cur: "getCreditBalancesForDenoms E st t ds = Ok cur"
    and r: "est_TotalRatePerSecond r = tot" "est_ActiveLeaseCount r = cnt" "est_EstimatedDurationSeconds r =
       (if cnt > 0 \<and> \<not> CoinsIsZero E tot
        then (let d = durationLoop E cur maxUint64 tot in if d = maxUint64 then 0 else d) else 0)"
    by (auto simp: Query_CreditEstimate_def Let_def split: if_split_asm)
  note el = estimateLoop_law [OF lp, simplified]
  have tot: "coins_ok tot" "\<And>d. amt tot d = rate d" and ds: "distinct ds" and cnt: "cnt = of_nat (min (length ?us) 101)"
    using el by (auto simp: rate_def)
  have "DeriveCreditAddressFromBech32 E t = Some (DeriveCreditAddress E a)" using a by (simp add: DeriveCreditAddressFromBech32_def)
  note bl = getCreditBalances_law [OF cur ds this]
  have "rate d = 0" if "d \<notin> set ds" for d
    using el that by (auto simp: rate_def intro!: sum_list_zero items_rate_absent)
  then have inds: "\<forall>c \<in> set tot. amt cur (Denom c) = b (Denom c)"
    using bl tot amt_pos_iff [OF tot(1)] unfolding b_def by (metis image_eqI less_irrefl)
  have bnn: "0 \<le> b d" for d by (simp add: b_def GetBalance_nonneg)
  define D where "D = durationLoop E cur maxUint64 tot"
  have key: "n \<le> uint D \<longleftrightarrow> (\<forall>d. n * rate d \<le> b d)" if "0 \<le> n" "n \<le> 2 ^ 64 - 1" for n
    using durationLoop_law [OF tot(1) conjunct1 [OF bl] inds that, of maxUint64] coins_cover_amt [OF tot(1) bnn] that(2)
    by (simp add: D_def word_max tot(2))
  show ?thesis
  proof (cases "tot = []")
    case True
    then have "rate d = 0" for d using tot(2) [of d] by simp
    moreover have "\<not> b d < 0" for d using bnn [of d] by simp
    ultimately show ?thesis using True r tot bnn cnt by (auto simp: CoinsIsZero_ok)
  next
    case False
    then obtain c where c: "c \<in> set tot" by (cases tot) auto
    then have "?us \<noteq> []" using tot amt_pos_iff [OF tot(1), of "Denom c"] by (auto simp: rate_def)
    then have "0 < cnt" using cnt of_nat_pos [of "min (length ?us) 101"] by (simp add: min_def)
    with False r(3) tot(1) have est: "est_EstimatedDurationSeconds r = (if D = maxUint64 then 0 else D)"
      by (simp add: CoinsIsZero_ok D_def Let_def)
    have top: "2 ^ 64 - 1 \<le> uint D \<longleftrightarrow> (\<forall>d. (2 ^ 64 - 1) * rate d \<le> b d)" by (rule key) simp_all
    have full: "D = maxUint64 \<longleftrightarrow> 2 ^ 64 - 1 \<le> uint D"
      using uint64 [of D] word_max by (metis order_antisym order_refl word_uint_eq_iff)
    have "n \<le> uint D \<longleftrightarrow> (\<forall>d. n * rate d \<le> b d)" if "0 \<le> n" "b d < (2 ^ 64 - 1) * rate d" for n d
    proof (cases "n \<le> 2 ^ 64 - 1")
      case False
      have "0 \<le> rate d" using tot(2) [of d] amt_ok_nonneg [OF tot(1), of d] by simp
      then have "(2 ^ 64 - 1) * rate d \<le> n * rate d" using False by (intro mult_right_mono) auto
      with that(2) have "\<not> n * rate d \<le> b d" by linarith
      with False uint64 [of D] show ?thesis by fastforce
    qed (rule key [OF that(1)])
    with est top full r(1,2) tot(2) cnt show ?thesis by (auto simp: not_le [symmetric])
  qed
qed

end

definition active_uuids :: "'x sdk \<Rightarrow> 'x ledger \<Rightarrow> addr \<Rightarrow> string list" where
  "active_uuids E st a = leaseIndex (\<lambda>l. tenantAddr E l = Some a \<and> State l = LEASE_STATE_ACTIVE) st"

definition spend_rate :: "'x sdk \<Rightarrow> 'x ledger \<Rightarrow> addr \<Rightarrow> string \<Rightarrow> int" where
  \<comment> \<open>what the first hundred active leases of a tenant cost per second\<close>
  "spend_rate E st a d = (\<Sum>u\<leftarrow>take 100 (active_uuids E st a). items_rate (Items (the (kv_get (Leases st) u))) d)"

text \<open>
  Claim C27.  The credit estimate looks at the first hundred active leases of the tenant, in key
  order: the rate it reports is their exact cost per second, and the estimated duration is the
  largest number of whole seconds the credit pays for at that rate in every denom, or 0 when the
  credit pays for \<open>2^64 - 1\<close> seconds or more in every denom.  The number of leases reported is
  the number of active leases when that is at most a hundred, and 101 otherwise, although the
  API document says that it is always the actual count.
\<close>

theorem credit_estimate_exact:
  assumes "sdk_laws E" and "billing_inv E st" and "AccAddressFromBech32 E t = Some a"
    and "Query_CreditEstimate E st (Some t) = Ok r"
  defines "b \<equiv> bal E (bank st) (DeriveCreditAddress E a)"
  shows "(\<forall>d. amt (est_TotalRatePerSecond r) d = spend_rate E st a d) \<and>
     est_ActiveLeaseCount r = of_nat (min (length (active_uuids E st a)) 101) \<and>
     ((\<exists>d. b d < (2 ^ 64 - 1) * spend_rate E st a d) \<longrightarrow>
        (\<forall>n \<ge> 0. n \<le> uint (est_EstimatedDurationSeconds r) \<longleftrightarrow> (\<forall>d. n * spend_rate E st a d \<le> b d))) \<and>
     ((\<forall>d. (2 ^ 64 - 1) * spend_rate E st a d \<le> b d) \<longrightarrow> est_EstimatedDurationSeconds r = 0)"
  using sdk_laws.CreditEstimate_law [OF assms(1-4)] by (simp add: active_uuids_def spend_rate_def b_def)

theorem credit_estimate_exact_witness:
  "\<exists>r. Query_CreditEstimate ref_sdk sample_ledger (Some ''manifest1ten'') = Ok r \<and>
     uint (est_EstimatedDurationSeconds r) = 25000"
proof -
  have act: "active_uuids ref_sdk sample_ledger (bytes_of ''ten'') = [sample_l1]"
    by (simp add: active_uuids_def leaseIndex_def sample_data tenantAddr_def)
  have rate: "spend_rate ref_sdk sample_ledger (bytes_of ''ten'') d = (if d = ''umfx'' then 4 else 0)" for d
    unfolding spend_rate_def act by (simp add: sample_data kv_get_Cons items_rate_def)
  have b: "bal ref_sdk (bank sample_ledger) (DeriveCreditAddress ref_sdk (bytes_of ''ten'')) d = (if d = ''umfx'' then 100000 else 0)" for d
    by (simp add: sample_data ref_eval coins_ok_def)
  have "isOk (Query_CreditEstimate ref_sdk sample_ledger (Some ''manifest1ten''))"
    by (simp add: Query_CreditEstimate_def GetCreditAccount_def sample_data leaseIndex_def tenantAddr_def kv_get_Cons
        MaxCreditEstimateLeases_def ref_eval getCreditBalancesForDenoms_def DeriveCreditAddressFromBech32_def)
  then obtain r where r: "Query_CreditEstimate ref_sdk sample_ledger (Some ''manifest1ten'') = Ok r" by (rule isOkE)
  from credit_estimate_exact [OF ref.sdk_laws_axioms sample_billing_inv sample_decode(1) r]
  have "\<forall>n \<ge> 0. n \<le> uint (est_EstimatedDurationSeconds r) \<longleftrightarrow> (\<forall>d. n * (if d = ''umfx'' then 4 else 0) \<le> (if d = ''umfx'' then 100000 else 0))"
    unfolding rate b by auto
  then have "n \<le> uint (est_EstimatedDurationSeconds r) \<longleftrightarrow> n * 4 \<le> 100000" if "0 \<le> n" for n
    using that by (auto split: if_splits)
  from this [of 25000] this [of 25001] r show ?thesis by auto
qed

end
