(* ===== verification/Block_End.thy ===== *)
theory Block_End
  imports Handlers_Props
begin

text \<open>
  The end of a block cannot fail.  A panic in the end blocker halts the chain, so the
  arithmetic it does on coins must stay within 256 bits: releasing the reservation of a lease
  recomputes an amount that is part of what the account reserves, hence no more than a number
  the account already stores.  With that, a backlog of timed-out leases is worked off at a
  hundred leases a block.
\<close>

section \<open>Coin arithmetic that does not panic\<close>

definition denom_ok :: "'x sdk \<Rightarrow> string \<Rightarrow> bool" where
  \<comment> \<open>\<open>sdk.ValidateDenom\<close> accepts the denom: a coin can be made of it\<close>
  "denom_ok E d \<longleftrightarrow> NewCoin E d 0 \<noteq> None"

locale sdk_total = sdk_laws E for E :: "'x sdk" +
  assumes IntMul_total: "0 \<le> m \<Longrightarrow> 0 \<le> n \<Longrightarrow> m * n < 2 ^ 256 \<Longrightarrow> IntMul E m n \<noteq> None"
    and NewCoin_total: "denom_ok E d \<Longrightarrow> 0 \<le> n \<Longrightarrow> NewCoin E d n \<noteq> None"
    and CoinsAdd_total: "coins_ok as \<Longrightarrow> \<forall>d. amt as d < 2 ^ 256 \<Longrightarrow> 0 \<le> Amount c \<Longrightarrow>
      amt as (Denom c) + Amount c < 2 ^ 256 \<Longrightarrow> CoinsAdd E as [c] \<noteq> None"

lemma ref_add_total:
  assumes "coins_ok as" and "\<forall>d. amt as d < 2 ^ 256" and "0 \<le> Amount c" and "amt as (Denom c) + Amount c < 2 ^ 256"
  shows "ref_add as [c] \<noteq> None"
proof -
  have "Amount b < 2 ^ 256" if "b \<in> set (ref_add1 c as)" for b
  proof -
    have a: "\<forall>b \<in> set as. Amount b < 2 ^ 256" using assms(1,2) amt_mem by metis
    have "Amount c < 2 ^ 256" using assms(4) amt_ok_nonneg [OF assms(1), of "Denom c"] by linarith
    then have "\<forall>b \<in> set (ref_add1 c as). Amount b < 2 ^ 256"
      using assms(1,4) a assms(3)
      by (induction c as rule: ref_add1.induct) (auto simp: coins_ok_Cons amt_below)
    with that show ?thesis by blast
  qed
  then show ?thesis by (simp add: ref_add_def)
qed

interpretation ref_tot: sdk_total ref_sdk
proof (unfold_locales, goal_cases)
  case (3 as c)
  then show ?case using ref_add_total by (auto simp: ref_sdk_def)
qed (auto simp: ref_sdk_def denom_ok_def split: if_split_asm)

context sdk_total
begin

lemma add_total:
  assumes "coins_ok acc" and "\<forall>d. amt acc d < 2 ^ 256" and "denom_ok E d" and "0 \<le> n" and "amt acc d + n < 2 ^ 256"
  obtains c acc' where "NewCoin E d n = Some c" and "CoinsAdd E acc [c] = Some acc'"
proof -
  obtain c where c: "NewCoin E d n = Some c" using NewCoin_total [OF assms(3,4)] by auto
  then have "CoinsAdd E acc [c] \<noteq> None" using assms NewCoin_law [OF c] by (intro CoinsAdd_total) auto
  with c that show ?thesis by auto
qed

lemma totalRates_total:
  assumes "coins_ok acc" and "prices_nn items" and "\<forall>i \<in> set items. denom_ok E (Denom (LockedPrice i))"
    and "\<forall>d. amt acc d + items_rate items d < 2 ^ 256"
  shows "\<exists>r. totalRatesLoop E acc items = Ok r"
  using assms
proof (induction items arbitrary: acc)
  case (Cons i items)
  let ?d = "Denom (LockedPrice i)" and ?n = "Amount (LockedPrice i) * uint (Quantity i)"
  have nn: "prices_nn items" "0 \<le> Amount (LockedPrice i)" "0 \<le> ?n"
    using Cons.prems(2) by (auto simp: prices_nn_def)
  have r: "0 \<le> items_rate items d" for d using items_rate_nonneg [OF nn(1)] .
  have b: "amt acc ?d + ?n + items_rate items ?d < 2 ^ 256" using Cons.prems(4) [rule_format, of ?d] by (simp add: add.assoc)
  have a: "\<forall>d. amt acc d < 2 ^ 256"
    using Cons.prems(4) r nn(3) by (smt (verit) items_rate_simps(2))
  have p: "0 \<le> amt acc ?d" using Cons.prems(1) by simp
  have "?n < 2 ^ 256" and n: "amt acc ?d + ?n < 2 ^ 256" using b r [of ?d] p by linarith+
  then have m: "IntMul E (Amount (LockedPrice i)) (uint (Quantity i)) = Some ?n"
    using IntMul_total [of "Amount (LockedPrice i)" "uint (Quantity i)"] nn(2) IntMul_law by (metis not_None_eq uint_nonnegative)
  obtain c acc' where c: "NewCoin E ?d ?n = Some c" "CoinsAdd E acc [c] = Some acc'"
    using add_total [OF Cons.prems(1) a _ nn(3) n] Cons.prems(3) by auto
  note add = add_one [OF c Cons.prems(1)]
  have "\<forall>d. amt acc' d + items_rate items d < 2 ^ 256"
    using Cons.prems(4) add(2) by (simp add: add.assoc)
  with Cons.IH [OF add(1) nn(1)] Cons.prems(3) m c show ?case by auto
qed simp

lemma scale_total:
  assumes "coins_ok acc" and "coins_ok rates" and "\<forall>c \<in> set rates. denom_ok E (Denom c)" and "0 \<le> k"
    and "\<forall>d. amt acc d + amt rates d * k < 2 ^ 256"
  shows "\<exists>r. scaleLoop E k acc rates = Ok r"
  using assms
proof (induction rates arbitrary: acc)
  case (Cons c rates)
  let ?n = "Amount c * k"
  have ok: "coins_ok rates" "0 < Amount c" using Cons.prems(2) by (auto simp: coins_ok_Cons)
  then have nn: "0 \<le> ?n" "0 \<le> amt rates d * k" for d using Cons.prems(4) by auto
  have b: "amt acc d + ((if Denom c = d then ?n else 0) + amt rates d * k) < 2 ^ 256" for d
    using Cons.prems(5) [rule_format, of d] by (simp add: distrib_right split: if_split_asm)
  have a: "\<forall>d. amt acc d < 2 ^ 256" using b nn by (smt (verit))
  have p: "0 \<le> amt acc (Denom c)" using Cons.prems(1) by simp
  have "?n < 2 ^ 256" and n: "amt acc (Denom c) + ?n < 2 ^ 256" using b [of "Denom c"] nn(2) [of "Denom c"] p by simp_all
  then have m: "IntMul E (Amount c) k = Some ?n"
    using IntMul_total [of "Amount c" k] ok(2) Cons.prems(4) IntMul_law by (metis less_imp_le not_None_eq)
  obtain c' acc' where c: "NewCoin E (Denom c) ?n = Some c'" "CoinsAdd E acc [c'] = Some acc'"
    using add_total [OF Cons.prems(1) a _ nn(1) n] Cons.prems(3) by auto
  note add = add_one [OF c Cons.prems(1)]
  have "\<forall>d. amt acc' d + amt rates d * k < 2 ^ 256" using b add(2) by (simp add: add.assoc)
  with Cons.IH [OF add(1) ok(1)] Cons.prems(3,4) m c show ?case by auto
qed simp

lemma subtract_total:
  assumes "coins_ok acc" and "coins_ok cs" and "coins_ok other" and "\<forall>c \<in> set cs. denom_ok E (Denom c)"
    and "\<forall>d. amt acc d + amt cs d < 2 ^ 256"
  shows "\<exists>r. subtractLoop E other acc cs = Ok r"
  using assms(1,2,4,5)
proof (induction cs arbitrary: acc)
  case (Cons c cs)
  let ?o = "amt other (Denom c)"
  have o: "CoinsAmountOf E other (Denom c) = ?o" "0 \<le> ?o" using assms(3) by (simp_all add: CoinsAmountOf_law)
  have ok: "coins_ok cs" using Cons.prems(2) by (simp add: coins_ok_Cons)
  then have nn: "0 \<le> amt cs d" for d by simp
  have b: "amt acc d + ((if Denom c = d then Amount c else 0) + amt cs d) < 2 ^ 256" for d
    using Cons.prems(4) [rule_format, of d] by simp
  have hd: "0 < Amount c" using Cons.prems(2) by (simp add: coins_ok_Cons)
  have a: "\<forall>d. amt acc d < 2 ^ 256" "\<forall>d. amt acc d + amt cs d < 2 ^ 256" using b nn hd by (smt (verit))+
  show ?case
  proof (cases "?o < Amount c")
    case True
    then have z: "0 \<le> Amount c - ?o" "amt acc (Denom c) + (Amount c - ?o) < 2 ^ 256"
      using b [of "Denom c"] nn [of "Denom c"] o(2) by auto
    obtain c' acc' where c: "NewCoin E (Denom c) (Amount c - ?o) = Some c'" "CoinsAdd E acc [c'] = Some acc'"
      using add_total [OF Cons.prems(1) a(1) _ z] Cons.prems(3) by auto
    note add = add_one [OF c Cons.prems(1)]
    have "amt acc' d + amt cs d < 2 ^ 256" for d using b [of d] add(2) [of d] o(2) by (simp split: if_split_asm)
    with Cons.IH [OF add(1) ok] Cons.prems(3) c True o show ?thesis by auto
  next
    case False
    with Cons.IH [OF Cons.prems(1) ok] Cons.prems(3) a(2) o show ?thesis by auto
  qed
qed simp

lemma reservation_total:
  assumes "prices_nn (Items l)" and "\<forall>i \<in> set (Items l). denom_ok E (Denom (LockedPrice i))"
    and "\<forall>d. reservation md d l < 2 ^ 256"
  shows "\<exists>x. GetLeaseReservationAmount E l md = Ok x"
proof (cases "Items l = [] \<or> reserved_duration md l = 0")
  case True
  then show ?thesis by (auto simp: GetLeaseReservationAmount_def CalculateLeaseReservation_def reserved_duration_def Let_def)
next
  case False
  let ?k = "uint (reserved_duration md l)"
  have k: "1 \<le> ?k" using False uint_nonnegative [of "reserved_duration md l"] uint_0_iff [of "reserved_duration md l"] by linarith
  have "items_rate (Items l) d \<le> reservation md d l" for d
    using mult_left_mono [OF k items_rate_nonneg [OF assms(1)], of d] by (simp add: reservation_def)
  then have lt: "\<forall>d. items_rate (Items l) d < 2 ^ 256" using assms(3) by (meson le_less_trans)
  then obtain rates where r: "totalRatesLoop E [] (Items l) = Ok rates"
    using totalRates_total [of "[]" "Items l"] assms(1,2) by (metis add_0 amt_Nil coins_ok_Nil)
  note rl = totalRatesLoop_law [OF r coins_ok_Nil]
  have den: "\<forall>c \<in> set rates. denom_ok E (Denom c)"
  proof
    fix c assume "c \<in> set rates"
    then have "0 < items_rate (Items l) (Denom c)" using rl amt_pos_iff by force
    then have "Denom c \<in> (\<lambda>i. Denom (LockedPrice i)) ` set (Items l)" using items_rate_absent [of "Items l" "Denom c"] by force
    with assms(2) show "denom_ok E (Denom c)" by auto
  qed
  have "\<exists>x. scaleLoop E ?k [] rates = Ok x"
    using rl den k assms(3) by (intro scale_total) (auto simp: reservation_def)
  with r False show ?thesis
    by (auto simp: GetLeaseReservationAmount_def CalculateLeaseReservation_def reserved_duration_def Let_def split: if_split_asm)
qed

lemma Release_total:
  assumes x: "prices_nn (Items l)" "\<forall>i \<in> set (Items l). denom_ok E (Denom (LockedPrice i))"
    "\<forall>d. reservation md d l < 2 ^ 256"
    and ca: "coins_ok (ReservedAmounts ca)" "\<forall>c \<in> set (ReservedAmounts ca). denom_ok E (Denom c)"
    "\<forall>d. amt (ReservedAmounts ca) d < 2 ^ 256"
  shows "\<exists>ca'. ReleaseLeaseReservation E ca l md = Ok ca'"
proof -
  obtain y where y: "GetLeaseReservationAmount E l md = Ok y" using reservation_total [OF x] by blast
  then have "\<exists>r. subtractLoop E y [] (ReservedAmounts ca) = Ok r"
    using GetLeaseReservationAmount_law [OF y] ca by (intro subtract_total) auto
  with y show ?thesis by (auto simp: ReleaseLeaseReservation_def SubtractReservation_def)
qed

end

section \<open>The end blocker is total\<close>

definition account_fits :: "'x sdk \<Rightarrow> CreditAccount \<Rightarrow> bool" where
  "account_fits E ca \<longleftrightarrow> list_all (\<lambda>c. Amount c < 2 ^ 256 \<and> denom_ok E (Denom c)) (ReservedAmounts ca)"

definition lease_fits :: "'x sdk \<Rightarrow> Lease \<Rightarrow> bool" where
  "lease_fits E l \<longleftrightarrow> list_all (\<lambda>i. denom_ok E (Denom (LockedPrice i))) (Items l)"

definition fits :: "'x sdk \<Rightarrow> 'x ledger \<Rightarrow> bool" where
  \<comment> \<open>what \<open>math.Int\<close> and \<open>sdk.Coin\<close> guarantee of stored amounts: 256 bits, legal denoms\<close>
  "fits E st \<longleftrightarrow> kv_all (\<lambda>_. account_fits E) (CreditAccounts st) \<and> kv_all (\<lambda>_. lease_fits E) (Leases st)"

lemma fits_amt:
  assumes "account_fits E ca" and "coins_ok (ReservedAmounts ca)"
  shows "amt (ReservedAmounts ca) d < 2 ^ 256"
proof (cases "d \<in> Denom ` set (ReservedAmounts ca)")
  case True
  then show ?thesis using assms amt_mem by (fastforce simp: account_fits_def list_all_iff)
qed (simp add: amt_absent)

lemma account_fits_less:
  assumes "account_fits E ca" and "coins_ok (ReservedAmounts ca)" and "coins_ok (ReservedAmounts ca')"
    and "\<And>d. amt (ReservedAmounts ca') d \<le> amt (ReservedAmounts ca) d"
  shows "account_fits E ca'"
  unfolding account_fits_def list_all_iff
proof
  fix c assume c: "c \<in> set (ReservedAmounts ca')"
  then have "amt (ReservedAmounts ca') (Denom c) = Amount c" "0 < Amount c"
    using assms(3) amt_mem by (auto simp: coins_ok_def)
  then have le: "Amount c \<le> amt (ReservedAmounts ca) (Denom c)" and pos: "0 < amt (ReservedAmounts ca) (Denom c)"
    using assms(4) [of "Denom c"] by auto
  from pos obtain c0 where "c0 \<in> set (ReservedAmounts ca)" "Denom c0 = Denom c"
    using amt_pos_iff [OF assms(2)] by force
  then have "denom_ok E (Denom c)" using assms(1) by (auto simp: account_fits_def list_all_iff)
  with le fits_amt [OF assms(1,2), of "Denom c"] show "Amount c < 2 ^ 256 \<and> denom_ok E (Denom c)" by simp
qed

context sdk_total
begin

lemma Expire_total:
  assumes inv: "accounts_inv E st" and fit: "fits E st" and p: "GetParams st = Ok p"
    and l: "kv_get (Leases st) u = Some l" "State l = LEASE_STATE_PENDING"
  shows "\<exists>st'. ExpirePendingLease E ctx st l = Ok st' \<and> fits E st'"
proof -
  let ?l = "expired ctx l"
  obtain a where a: "tenantAddr E l = Some a" using inv_get(3) [OF inv l(1)] by auto
  then have a': "AccAddressFromBech32 E (Tenant l) = Some a" by (simp add: tenantAddr_def)
  have "live_has_account E st l" using inv l(1) by (auto simp: accounts_inv_def dest: kv_all_get)
  then obtain ca where ca: "kv_get (CreditAccounts st) a = Some ca"
    using a l(2) by (auto simp: live_has_account_def)
  have m: "account_matches E (Leases st) a ca" by (rule inv_account [OF inv ca])
  then have ok: "coins_ok (ReservedAmounts ca)" and t: "AccAddressFromBech32 E (ca_Tenant ca) = Some a"
    by (simp_all add: account_matches_def)
  have af: "account_fits E ca" and lf: "lease_fits E l" using fit ca l(1) by (auto simp: fits_def dest: kv_all_get)
  let ?ca = "DecrementPendingLeaseCount ca"
  have rc: "ReservedAmounts ?ca = ReservedAmounts ca" "ca_Tenant ?ca = ca_Tenant ca"
    by (simp_all add: DecrementPendingLeaseCount_def)
  have lv: "live (State l)" "same_book l ?l" using l(2) by (simp_all add: expired_def same_book_def)
  have bound: "reservation (MinLeaseDuration p) d ?l < 2 ^ 256" for d
    using release_amount(1) [OF inv_wf [OF inv] l(1) a lv, of "MinLeaseDuration p" d]
      release_amount(2) [OF inv_wf [OF inv] l(1) a lv, of d] fits_amt [OF af ok, of d] m
    by (simp add: account_matches_def)
  have "prices_nn (Items ?l)" "\<forall>i \<in> set (Items ?l). denom_ok E (Denom (LockedPrice i))"
    using lease_wf_prices [OF wf_get [OF inv_wf [OF inv] l(1)]] lf by (simp_all add: expired_def lease_fits_def list_all_iff)
  then obtain ca' where ca': "ReleaseLeaseReservation E ?ca ?l (MinLeaseDuration p) = Ok ca'"
    using Release_total [of ?l "MinLeaseDuration p" ?ca] bound ok af fits_amt [OF af ok] rc
    by (auto simp: account_fits_def list_all_iff)
  obtain st1 where st1: "SetLease E st ?l = Ok st1"
    using a' by (simp add: SetLease_def reconcileCustomDomainIndex_def expired_def editable_def Let_def)
  note sl = SetLease_sel [OF st1]
  have g: "GetCreditAccount E st1 (Tenant l) = Ok ca" using sl(2) a' ca by (simp add: GetCreditAccount_sel)
  obtain st2 where st2: "SetCreditAccount E st1 ca' = Ok st2"
    using t rc(2) release_tenant [OF ca'] by (auto simp: SetCreditAccount_def)
  obtain evs where run: "ExpirePendingLease E ctx st l = Ok (emit evs st2)"
    using st1 g ca' st2 l(2) p by (simp add: ExpirePendingLease_def expired_def Let_def)
  from Release_law [OF ca'] ok rc obtain r where r: "ca' = ?ca\<lparr>ReservedAmounts := r\<rparr>" "coins_ok r"
    "\<And>d. amt r d = max 0 (amt (ReservedAmounts ca) d - reservation (MinLeaseDuration p) d ?l)" by auto
  have "0 \<le> reservation (MinLeaseDuration p) d ?l" for d
    using reservation_nonneg [OF wf_get [OF inv_wf [OF inv] l(1)], of "MinLeaseDuration p" d] same_book_weights(2) [OF lv(2)] by simp
  then have "account_fits E ca'" using r ok by (intro account_fits_less [OF af ok]) auto
  moreover have "lease_fits E ?l" using lf by (simp add: lease_fits_def expired_def)
  ultimately have "fits E (emit evs st2)"
    using fit sl(1,2) SetCreditAccount_sel [OF st2] by (auto simp: fits_def intro!: kv_all_set)
  with run show ?thesis by blast
qed

lemma expireLoop_total:
  assumes "accounts_inv E st" and "fits E st" and "GetParams st = Ok p" and "distinct us"
    and "\<forall>u \<in> set us. \<exists>l. kv_get (Leases st) u = Some l \<and> State l = LEASE_STATE_PENDING"
  shows "\<exists>st'. expireLoop E ctx st us = Ok st' \<and> fits E st' \<and> GetParams st' = Ok p"
  using assms
proof (induction us arbitrary: st)
  case (Cons u us)
  from Cons.prems(5) obtain l where l: "kv_get (Leases st) u = Some l" "State l = LEASE_STATE_PENDING" by auto
  from Expire_total [OF Cons.prems(1-3) l] obtain st1 where st1: "ExpirePendingLease E ctx st l = Ok st1" "fits E st1" by blast
  note e = Expire_leases [OF st1(1)] and u = inv_get(2) [OF Cons.prems(1) l(1)]
  have "\<forall>w \<in> set us. \<exists>l. kv_get (Leases st1) w = Some l \<and> State l = LEASE_STATE_PENDING"
    using Cons.prems(4,5) e(1) u by auto
  from Cons.IH [OF ExpirePendingLease_accounts [OF st1(1) Cons.prems(1) l(1)] st1(2) _ _ this] Cons.prems(3,4) e st1 l
  show ?case by auto
qed simp

lemma EndBlocker_total:
  assumes "billing_inv E st" and "fits E st" and "GetParams st = Ok p"
  shows "\<exists>st'. EndBlocker E ctx st = Ok st' \<and> fits E st' \<and> GetParams st' = Ok p"
proof -
  have inv: "accounts_inv E st" and ok: "kv_ok (Leases st)"
    using assms(1) by (auto simp: billing_inv_def domain_inv_def keyed_def)
  show ?thesis unfolding EndBlocker_loop [OF assms(1,3)]
    using leaseIndex_distinct [OF ok]
    by (intro expireLoop_total [OF inv assms(2,3)]) (auto simp: leaseIndex_mem [OF ok] dest!: in_set_takeD)
qed

end

section \<open>A backlog is worked off\<close>

fun endBlocks :: "'x sdk \<Rightarrow> block_ctx list \<Rightarrow> 'x ledger \<Rightarrow> (billing_error, 'x ledger) result" where
  "endBlocks E [] st = Ok st"
| "endBlocks E (ctx # ctxs) st = andThen (EndBlocker E ctx st) (endBlocks E ctxs)"

definition pendingLeases :: "'x ledger \<Rightarrow> string set" where
  "pendingLeases st = {u. \<exists>l. kv_get (Leases st) u = Some l \<and> State l = LEASE_STATE_PENDING}"

definition none_overdue :: "Params \<Rightarrow> time \<Rightarrow> 'x ledger \<Rightarrow> bool" where
  "none_overdue p t st \<longleftrightarrow> (\<forall>u l. kv_get (Leases st) u = Some l \<longrightarrow> State l = LEASE_STATE_PENDING \<longrightarrow>
     t \<le> CreatedAt l + uint (PendingTimeout p) * Second)"

lemma pendingLeases_card:
  assumes "kv_ok (Leases st)"
  shows "finite (pendingLeases st)"
    and "card (pendingLeases st) = length (leaseIndex (\<lambda>l. State l = LEASE_STATE_PENDING) st)"
proof -
  have s: "pendingLeases st = set (leaseIndex (\<lambda>l. State l = LEASE_STATE_PENDING) st)"
    using leaseIndex_mem [OF assms] by (auto simp: pendingLeases_def)
  then show "finite (pendingLeases st)" by simp
  show "card (pendingLeases st) = length (leaseIndex (\<lambda>l. State l = LEASE_STATE_PENDING) st)"
    unfolding s using distinct_card [OF leaseIndex_distinct [OF assms]] by simp
qed

context sdk_total
begin

lemma EndBlocker_progress:
  assumes "billing_inv E st" and "fits E st" and "GetParams st = Ok p" and "t \<le> BlockTime ctx"
  obtains st' where "EndBlocker E ctx st = Ok st'" and "billing_inv E st'" and "fits E st'" and "GetParams st' = Ok p"
    and "none_overdue p t st \<Longrightarrow> none_overdue p t st'"
    and "none_overdue p t st' \<or> card (pendingLeases st') + MaxPendingLeaseExpirationsPerBlock \<le> card (pendingLeases st)"
proof -
  let ?O = "leaseIndex (\<lambda>l. State l = LEASE_STATE_PENDING \<and>
     CreatedAt l + uint (PendingTimeout p) * Second < BlockTime ctx) st"
  let ?U = "set (take MaxPendingLeaseExpirationsPerBlock ?O)"
  obtain st' where st': "EndBlocker E ctx st = Ok st'" "fits E st'" "GetParams st' = Ok p"
    using EndBlocker_total [OF assms(1-3)] by blast
  note ex = EndBlocker_exact [OF assms(1,3) st'(1)] and inv' = EndBlocker_preserves [OF assms(1) st'(1)]
  have ok: "kv_ok (Leases st)" using assms(1) by (auto simp: billing_inv_def domain_inv_def keyed_def)
  have old: "u \<notin> ?U \<and> kv_get (Leases st) u = Some l"
    if "kv_get (Leases st') u = Some l" "State l = LEASE_STATE_PENDING" for u l
    using ex [of u] that by (cases "kv_get (Leases st) u") (auto simp: expired_def split: if_split_asm)
  have mono: "none_overdue p t st \<Longrightarrow> none_overdue p t st'" using old by (auto simp: none_overdue_def)
  have sub: "?U \<subseteq> pendingLeases st" using leaseIndex_mem [OF ok] by (auto simp: pendingLeases_def dest!: in_set_takeD)
  have "pendingLeases st' \<subseteq> pendingLeases st - ?U" using old by (auto simp: pendingLeases_def)
  then have "card (pendingLeases st') \<le> card (pendingLeases st) - card ?U"
    using card_mono [of "pendingLeases st - ?U"] pendingLeases_card(1) [OF ok] card_Diff_subset [OF _ sub] by auto
  moreover have "card ?U \<le> card (pendingLeases st)" by (rule card_mono [OF pendingLeases_card(1) [OF ok] sub])
  moreover have "card ?U = min MaxPendingLeaseExpirationsPerBlock (length ?O)"
    using distinct_card [OF distinct_take [OF leaseIndex_distinct [OF ok]]] by (simp add: min.commute)
  moreover have "none_overdue p t st'" if "length ?O < MaxPendingLeaseExpirationsPerBlock"
  proof -
    have "\<not> CreatedAt l + uint (PendingTimeout p) * Second < BlockTime ctx"
      if "kv_get (Leases st') u = Some l" "State l = LEASE_STATE_PENDING" for u l
      using old [OF that] that(2) \<open>length ?O < _\<close> leaseIndex_mem [OF ok, of u] by auto
    then show ?thesis using assms(4) by (force simp: none_overdue_def)
  qed
  ultimately show ?thesis using that [OF st'(1) inv' st'(2,3) mono] by linarith
qed

lemma endBlocks_keeps:
  assumes "billing_inv E st" and "fits E st" and "GetParams st = Ok p" and "\<forall>ctx \<in> set ctxs. t \<le> BlockTime ctx"
    and "none_overdue p t st"
  shows "\<exists>st'. endBlocks E ctxs st = Ok st' \<and> none_overdue p t st'"
  using assms
proof (induction ctxs arbitrary: st)
  case (Cons ctx ctxs)
  then show ?case by (auto elim: EndBlocker_progress [where t = t and ctx = ctx])
qed simp

lemma endBlocks_drain:
  assumes "billing_inv E st" and "fits E st" and "GetParams st = Ok p" and "\<forall>ctx \<in> set ctxs. t \<le> BlockTime ctx"
    and "card (pendingLeases st) \<le> MaxPendingLeaseExpirationsPerBlock * length ctxs"
  shows "\<exists>st'. endBlocks E ctxs st = Ok st' \<and> none_overdue p t st'"
  using assms
proof (induction ctxs arbitrary: st)
  case Nil
  have "kv_ok (Leases st)" using Nil.prems(1) by (auto simp: billing_inv_def domain_inv_def keyed_def)
  with Nil.prems(5) have "pendingLeases st = {}" using pendingLeases_card(1) [of st] by simp
  then show ?case by (auto simp: none_overdue_def pendingLeases_def)
next
  case (Cons ctx ctxs)
  obtain st1 where st1: "EndBlocker E ctx st = Ok st1" "billing_inv E st1" "fits E st1" "GetParams st1 = Ok p"
    and c: "none_overdue p t st1 \<or> card (pendingLeases st1) + MaxPendingLeaseExpirationsPerBlock \<le> card (pendingLeases st)"
    using EndBlocker_progress [OF Cons.prems(1-3), of t ctx] Cons.prems(4) by auto
  from c have "\<exists>st'. endBlocks E ctxs st1 = Ok st' \<and> none_overdue p t st'"
    using Cons.IH [OF st1(2-4)] endBlocks_keeps [OF st1(2-4)] Cons.prems(4,5) by auto
  with st1(1) show ?case by simp
qed

end

text \<open>
  Claim C10.  The end blocker never fails and works off any backlog: from a consistent state
  whose stored amounts are 256-bit integers, ending any \<open>k\<close> blocks succeeds, and when
  \<open>100 * k\<close> is at least the number of pending leases, no lease whose time-out had passed before
  the earliest of these blocks is still pending afterwards.
\<close>

theorem EndBlocker_drains:
  assumes "sdk_total E" and "billing_inv E st" and "fits E st" and "GetParams st = Ok p"
    and "\<forall>ctx \<in> set ctxs. t \<le> BlockTime ctx"
    and "length (leaseIndex (\<lambda>l. State l = LEASE_STATE_PENDING) st) \<le> MaxPendingLeaseExpirationsPerBlock * length ctxs"
  shows "\<exists>st'. endBlocks E ctxs st = Ok st' \<and>
     (\<forall>u l. kv_get (Leases st') u = Some l \<longrightarrow> CreatedAt l + uint (PendingTimeout p) * Second < t \<longrightarrow>
        State l \<noteq> LEASE_STATE_PENDING)"
proof -
  have "kv_ok (Leases st)" using assms(2) by (auto simp: billing_inv_def domain_inv_def keyed_def)
  from sdk_total.endBlocks_drain [OF assms(1-5)] pendingLeases_card(2) [OF this] assms(6)
  show ?thesis by (fastforce simp: none_overdue_def)
qed

theorem EndBlocker_drains_witness:
  "\<exists>st'. endBlocks ref_sdk [sample_ctx] sample_ledger = Ok st' \<and>
     (\<forall>u l. kv_get (Leases st') u = Some l \<longrightarrow>
        CreatedAt l + uint (PendingTimeout DefaultParams) * Second < BlockTime sample_ctx \<longrightarrow> State l \<noteq> LEASE_STATE_PENDING)"
proof (rule EndBlocker_drains [OF ref_tot.sdk_total_axioms sample_billing_inv])
  show "fits ref_sdk sample_ledger"
    by (simp add: fits_def account_fits_def lease_fits_def denom_ok_def kv_all_def sample_data ref_eval)
  show "GetParams sample_ledger = Ok DefaultParams" by (simp add: sample_ledger_def GetParams_def)
  show "length (leaseIndex (\<lambda>l. State l = LEASE_STATE_PENDING) sample_ledger)
      \<le> MaxPendingLeaseExpirationsPerBlock * length [sample_ctx]"
    by (simp add: leaseIndex_def sample_data MaxPendingLeaseExpirationsPerBlock_def)
qed simp

end
