(* ===== verification/Manifest.thy ===== *)
theory Manifest
  imports Sdk
begin

text \<open>
  The module \<open>x/manifest\<close>: the authority of the chain mints coins to a list of
  stakeholders (\<open>MsgPayout\<close>) and burns coins it holds (\<open>MsgBurnHeldBalance\<close>).  The
  mint and burn functions of \<open>x/bank\<close> are a second parameter \<open>B :: 'x mint_sdk\<close>; what
  the module relies on is the locale \<open>mint_laws\<close>, which extends \<open>sdk_laws\<close>.
\<close>

section \<open>The bank functions the module calls\<close>

record 'x mint_sdk =
  \<comment> \<open>\<open>Err\<close> is a returned error, \<open>Panic\<close> the panic on a missing module permission\<close>
  GetModuleAddress :: "string \<Rightarrow> addr"
  GetSupply :: "'x \<Rightarrow> string \<Rightarrow> int"
  MintCoins :: "'x \<Rightarrow> string \<Rightarrow> coins \<Rightarrow> (unit, 'x) result"
  BurnCoins :: "'x \<Rightarrow> string \<Rightarrow> coins \<Rightarrow> (unit, 'x) result"
  SendCoinsFromModuleToAccount :: "'x \<Rightarrow> string \<Rightarrow> addr \<Rightarrow> coins \<Rightarrow> (unit, 'x) result"
  SendCoinsFromAccountToModule :: "'x \<Rightarrow> addr \<Rightarrow> string \<Rightarrow> coins \<Rightarrow> (unit, 'x) result"

locale mint_laws = sdk_laws E for E :: "'x sdk" +
  fixes B :: "'x mint_sdk"
  assumes MintCoins_law:
      "MintCoins B x m cs = Ok x' \<Longrightarrow> coins_ok cs \<Longrightarrow>
       bal E x' a d = bal E x a d + (if a = GetModuleAddress B m then amt cs d else 0) \<and>
       GetSupply B x' d = GetSupply B x d + amt cs d"
    and BurnCoins_law:
      "BurnCoins B x m cs = Ok x' \<Longrightarrow> coins_ok cs \<Longrightarrow>
       bal E x' a d = bal E x a d - (if a = GetModuleAddress B m then amt cs d else 0) \<and>
       GetSupply B x' d = GetSupply B x d - amt cs d"
    and SendFromModule_law:
      "SendCoinsFromModuleToAccount B x m t cs = Ok x' \<Longrightarrow> coins_ok cs \<Longrightarrow>
       bal E x' a d = bal E x a d - (if a = GetModuleAddress B m then amt cs d else 0) + (if a = t then amt cs d else 0) \<and>
       GetSupply B x' d = GetSupply B x d"
    and SendToModule_law:
      "SendCoinsFromAccountToModule B x f m cs = Ok x' \<Longrightarrow> coins_ok cs \<Longrightarrow>
       bal E x' a d = bal E x a d - (if a = f then amt cs d else 0) + (if a = GetModuleAddress B m then amt cs d else 0) \<and>
       GetSupply B x' d = GetSupply B x d"

section \<open>Messages\<close>

definition manifest_ModuleName :: string where
  "manifest_ModuleName = ''manifest''"

record PayoutPair =
  pp_Address :: string
  pp_Coin :: coin

record MsgPayout =
  payout_Authority :: string
  PayoutPairs :: "PayoutPair list"

record MsgBurnHeldBalance =
  burn_Authority :: string
  msg_BurnCoins :: coins

datatype manifest_error =
  ErrInvalidAuthority | ErrAuthorityAddress | ErrNoPayouts | ErrPayoutAddress | ErrZeroPayout | ErrInvalidPayout
  | ErrDuplicatePayout | ErrBurnEmpty | ErrBurnInvalid | ErrBank | ErrBurnBalance

definition NewMsgPayout :: "'x sdk \<Rightarrow> addr \<Rightarrow> PayoutPair list \<Rightarrow> MsgPayout" where
  "NewMsgPayout E sender payouts = \<lparr>payout_Authority = AccAddressString E sender, PayoutPairs = payouts\<rparr>"

definition NewPayoutPair :: "'x sdk \<Rightarrow> addr \<Rightarrow> string \<Rightarrow> 64 word \<Rightarrow> (manifest_error, PayoutPair) result" where
  \<comment> \<open>\<open>amt\<close> is an int64, read signed; \<open>sdk.NewCoin\<close> panics on a negative amount or a bad denom\<close>
  "NewPayoutPair E a denom n =
     andThen (must (NewCoin E denom (sint n))) (\<lambda>c. Ok \<lparr>pp_Address = AccAddressString E a, pp_Coin = c\<rparr>)"

definition NewMsgBurnHeldBalance :: "'x sdk \<Rightarrow> addr \<Rightarrow> coins \<Rightarrow> MsgBurnHeldBalance" where
  "NewMsgBurnHeldBalance E sender cs = \<lparr>burn_Authority = AccAddressString E sender, msg_BurnCoins = cs\<rparr>"

fun payoutPairsLoop :: "'x sdk \<Rightarrow> string list \<Rightarrow> PayoutPair list \<Rightarrow> manifest_error checked" where
  "payoutPairsLoop E dupCheck [] = Ok ()"
| "payoutPairsLoop E dupCheck (p # ps) =
     (let addr = pp_Address p; coin = pp_Coin p
      in if AccAddressFromBech32 E addr = None then Err ErrPayoutAddress
         else if Amount coin = 0 then Err ErrZeroPayout
         else if \<not> CoinIsValid E coin then Err ErrInvalidPayout
         else if addr \<in> set dupCheck then Err ErrDuplicatePayout
         else payoutPairsLoop E (dupCheck @ [addr]) ps)"

definition MsgPayout_Validate :: "'x sdk \<Rightarrow> MsgPayout \<Rightarrow> manifest_error checked" where
  "MsgPayout_Validate E msg =
     (if AccAddressFromBech32 E (payout_Authority msg) = None then Err ErrAuthorityAddress
      else if PayoutPairs msg = [] then Err ErrNoPayouts
      else payoutPairsLoop E [] (PayoutPairs msg))"

definition MsgBurnHeldBalance_Validate :: "'x sdk \<Rightarrow> MsgBurnHeldBalance \<Rightarrow> manifest_error checked" where
  "MsgBurnHeldBalance_Validate E msg =
     (if AccAddressFromBech32 E (burn_Authority msg) = None then Err ErrAuthorityAddress
      else if msg_BurnCoins msg = [] then Err ErrBurnEmpty
      else if \<not> CoinsIsValid E (msg_BurnCoins msg) then Err ErrBurnInvalid
      else Ok ())"

section \<open>Keeper and message server\<close>

record 'x manifest_keeper =
  mk_authority :: string
  mk_bank :: 'x

definition mintCoinsToAccount ::
  "'x sdk \<Rightarrow> 'x mint_sdk \<Rightarrow> 'x manifest_keeper \<Rightarrow> addr \<Rightarrow> coin \<Rightarrow> (manifest_error, 'x manifest_keeper) result" where
  "mintCoinsToAccount E B k sdkAddr coin =
     andThen (must (NewCoins E [coin])) (\<lambda>cs.
     andThen (orErr (MintCoins B (mk_bank k) manifest_ModuleName cs) ErrBank) (\<lambda>x.
     andThen (orErr (SendCoinsFromModuleToAccount B x manifest_ModuleName sdkAddr cs) ErrBank) (\<lambda>x'.
     Ok (k\<lparr>mk_bank := x'\<rparr>))))"

fun keeper_Payout ::
  "'x sdk \<Rightarrow> 'x mint_sdk \<Rightarrow> 'x manifest_keeper \<Rightarrow> PayoutPair list \<Rightarrow> (manifest_error, 'x manifest_keeper) result" where
  "keeper_Payout E B k [] = Ok k"
| "keeper_Payout E B k (p # ps) =
     andThen (okOr (AccAddressFromBech32 E (pp_Address p)) ErrPayoutAddress) (\<lambda>sdkAddr.
     if \<not> CoinIsValid E (pp_Coin p) then Err ErrInvalidPayout
     else
       andThen (mintCoinsToAccount E B k sdkAddr (pp_Coin p)) (\<lambda>k'.
       keeper_Payout E B k' ps))"

definition msgServer_Payout ::
  "'x sdk \<Rightarrow> 'x mint_sdk \<Rightarrow> 'x manifest_keeper \<Rightarrow> MsgPayout \<Rightarrow> (manifest_error, 'x manifest_keeper) result" where
  "msgServer_Payout E B k req =
     (if mk_authority k \<noteq> payout_Authority req then Err ErrInvalidAuthority
      else andThen (MsgPayout_Validate E req) (\<lambda>_. keeper_Payout E B k (PayoutPairs req)))"

definition BurnHeldBalance ::
  "'x sdk \<Rightarrow> 'x mint_sdk \<Rightarrow> 'x manifest_keeper \<Rightarrow> MsgBurnHeldBalance \<Rightarrow> (manifest_error, 'x manifest_keeper) result" where
  "BurnHeldBalance E B k req =
     (if mk_authority k \<noteq> burn_Authority req then Err ErrInvalidAuthority
      else
        andThen (MsgBurnHeldBalance_Validate E req) (\<lambda>_.
        andThen (okOr (AccAddressFromBech32 E (burn_Authority req)) ErrAuthorityAddress) (\<lambda>addr.
        andThen (orErr (SendCoinsFromAccountToModule B (mk_bank k) addr manifest_ModuleName (msg_BurnCoins req)) ErrBurnBalance) (\<lambda>x.
        andThen (orErr (BurnCoins B x manifest_ModuleName (msg_BurnCoins req)) ErrBank) (\<lambda>x'.
        Ok (k\<lparr>mk_bank := x'\<rparr>))))))"

section \<open>A reference bank that mints and burns\<close>

definition ref_supply_of :: "ref_bank \<Rightarrow> string \<Rightarrow> int" where
  "ref_supply_of x d = (case kv_get (ref_supply x) d of None \<Rightarrow> 0 | Some n \<Rightarrow> n)"

definition ref_supply_add :: "int \<Rightarrow> coins \<Rightarrow> ref_bank \<Rightarrow> ref_bank" where
  \<comment> \<open>moves the supply of every denom of \<open>cs\<close> by \<open>s\<close> times its amount\<close>
  "ref_supply_add s cs x =
     fold (\<lambda>c x. x\<lparr>ref_supply := kv_set (Denom c) (ref_supply_of x (Denom c) + s * Amount c) (ref_supply x)\<rparr>) cs x"

definition ref_mint :: "ref_bank \<Rightarrow> string \<Rightarrow> coins \<Rightarrow> (unit, ref_bank) result" where
  "ref_mint x m cs =
     (case ref_add (ref_row x (bytes_of m)) cs of
        None \<Rightarrow> Err () | Some r \<Rightarrow> Ok (ref_supply_add 1 cs (ref_put x (bytes_of m) r)))"

definition ref_burn :: "ref_bank \<Rightarrow> string \<Rightarrow> coins \<Rightarrow> (unit, ref_bank) result" where
  "ref_burn x m cs =
     (case ref_sub (ref_row x (bytes_of m)) cs of
        None \<Rightarrow> Err () | Some r \<Rightarrow> Ok (ref_supply_add (- 1) cs (ref_put x (bytes_of m) r)))"

definition ref_mint_sdk :: "ref_bank mint_sdk" where
  "ref_mint_sdk = \<lparr>GetModuleAddress = bytes_of, GetSupply = ref_supply_of, MintCoins = ref_mint, BurnCoins = ref_burn,
     SendCoinsFromModuleToAccount = (\<lambda>x m t cs. okOr (ref_send x (bytes_of m) t cs) ()),
     SendCoinsFromAccountToModule = (\<lambda>x f m cs. okOr (ref_send x f (bytes_of m) cs) ())\<rparr>"

lemma ref_supply_row [simp]: "ref_row (ref_supply_add s cs x) a = ref_row x a"
proof -
  have "ref_tab (ref_supply_add s cs x) = ref_tab x"
    unfolding ref_supply_add_def by (induction cs arbitrary: x) auto
  then show ?thesis by (simp add: ref_row_def)
qed

lemma ref_supply_of_add: "ref_supply_of (ref_supply_add s cs x) d = ref_supply_of x d + s * amt cs d"
  unfolding ref_supply_add_def
proof (induction cs arbitrary: x)
  case (Cons c cs)
  then show ?case by (auto simp: ref_supply_of_def algebra_simps)
qed simp

lemma ref_supply_put [simp]: "ref_supply_of (ref_put x a cs) d = ref_supply_of x d"
  by (simp add: ref_supply_of_def ref_put_def)

lemma ref_supply_send: "ref_send x f t cs = Some x' \<Longrightarrow> ref_supply_of x' d = ref_supply_of x d"
  by (auto simp: ref_send_def Let_def split: option.splits)

interpretation ref_bank: mint_laws ref_sdk ref_mint_sdk
proof (unfold_locales, goal_cases)
  case (1 x m cs x' a d)
  then obtain r where r: "ref_add (ref_row x (bytes_of m)) cs = Some r" "x' = ref_supply_add 1 cs (ref_put x (bytes_of m) r)"
    by (auto simp: ref_mint_sdk_def ref_mint_def split: option.splits)
  with ref_add_law [OF r(1) ref_row_ok coins_ok_nn [OF 1(2)]] show ?case
    by (auto simp: ref_mint_sdk_def ref_sdk_def ref_supply_of_add)
next
  case (2 x m cs x' a d)
  then obtain r where r: "ref_sub (ref_row x (bytes_of m)) cs = Some r" "x' = ref_supply_add (- 1) cs (ref_put x (bytes_of m) r)"
    by (auto simp: ref_mint_sdk_def ref_burn_def split: option.splits)
  with ref_sub_law [OF r(1) ref_row_ok] show ?case
    by (auto simp: ref_mint_sdk_def ref_sdk_def ref_supply_of_add)
next
  case (3 x m t cs x' a d)
  then have "ref_send x (bytes_of m) t cs = Some x'" by (simp add: ref_mint_sdk_def)
  then show ?case using ref_send_law [OF _ 3(2)] ref_supply_send by (simp add: ref_mint_sdk_def ref_sdk_def)
next
  case (4 x f m cs x' a d)
  then have "ref_send x f (bytes_of m) cs = Some x'" by (simp add: ref_mint_sdk_def)
  then show ?case using ref_send_law [OF _ 4(2)] ref_supply_send by (simp add: ref_mint_sdk_def ref_sdk_def)
qed

section \<open>What the messages do\<close>

lemma payoutPairsLoop_iff:
  "payoutPairsLoop E seen ps = Ok () \<longleftrightarrow>
   (\<forall>p \<in> set ps. AccAddressFromBech32 E (pp_Address p) \<noteq> None \<and> Amount (pp_Coin p) \<noteq> 0 \<and> CoinIsValid E (pp_Coin p)) \<and>
   distinct (map pp_Address ps) \<and> set (map pp_Address ps) \<inter> set seen = {}"
  by (induction E seen ps rule: payoutPairsLoop.induct) (auto simp: Let_def)

lemma MsgPayout_Validate_iff:
  "MsgPayout_Validate E msg = Ok () \<longleftrightarrow>
   AccAddressFromBech32 E (payout_Authority msg) \<noteq> None \<and> PayoutPairs msg \<noteq> [] \<and> distinct (map pp_Address (PayoutPairs msg)) \<and>
   (\<forall>p \<in> set (PayoutPairs msg). AccAddressFromBech32 E (pp_Address p) \<noteq> None \<and> Amount (pp_Coin p) \<noteq> 0 \<and>
      CoinIsValid E (pp_Coin p))"
  by (auto simp: MsgPayout_Validate_def payoutPairsLoop_iff)

definition paid_to :: "'x sdk \<Rightarrow> PayoutPair list \<Rightarrow> addr \<Rightarrow> string \<Rightarrow> int" where
  \<comment> \<open>what a list of payouts assigns to an address\<close>
  "paid_to E ps a d = (\<Sum>p\<leftarrow>ps. if AccAddressFromBech32 E (pp_Address p) = Some a then amt [pp_Coin p] d else 0)"

context mint_laws
begin

lemma mintCoinsToAccount_law:
  assumes "mintCoinsToAccount E B k t c = Ok k'" and "0 < Amount c"
  shows "mk_authority k' = mk_authority k"
    and "bal E (mk_bank k') a d = bal E (mk_bank k) a d + (if a = t then amt [c] d else 0)"
    and "GetSupply B (mk_bank k') d = GetSupply B (mk_bank k) d + amt [c] d"
proof -
  from assms obtain x x' where c: "coins_ok [c]" and x: "MintCoins B (mk_bank k) manifest_ModuleName [c] = Ok x"
    and x': "SendCoinsFromModuleToAccount B x manifest_ModuleName t [c] = Ok x'" and k': "k' = k\<lparr>mk_bank := x'\<rparr>"
    by (auto simp: mintCoinsToAccount_def dest: NewCoins_single)
  show "mk_authority k' = mk_authority k"
    "bal E (mk_bank k') a d = bal E (mk_bank k) a d + (if a = t then amt [c] d else 0)"
    "GetSupply B (mk_bank k') d = GetSupply B (mk_bank k) d + amt [c] d"
    using MintCoins_law [OF x c] SendFromModule_law [OF x' c] k' by simp_all
qed

lemma keeper_Payout_law:
  assumes "keeper_Payout E B k ps = Ok k'" and "\<forall>p \<in> set ps. 0 < Amount (pp_Coin p)"
  shows "mk_authority k' = mk_authority k \<and>
     (\<forall>a d. bal E (mk_bank k') a d = bal E (mk_bank k) a d + paid_to E ps a d) \<and>
     (\<forall>d. GetSupply B (mk_bank k') d = GetSupply B (mk_bank k) d + amt (map pp_Coin ps) d)"
  using assms
proof (induction ps arbitrary: k)
  case Nil
  then show ?case by (simp add: paid_to_def)
next
  case (Cons p ps)
  then obtain t k1 where t: "AccAddressFromBech32 E (pp_Address p) = Some t"
    and k1: "mintCoinsToAccount E B k t (pp_Coin p) = Ok k1" and run: "keeper_Payout E B k1 ps = Ok k'"
    by (auto split: if_split_asm)
  from Cons.prems have "0 < Amount (pp_Coin p)" by simp
  note one = mintCoinsToAccount_law [OF k1 this]
  from Cons.IH [OF run] Cons.prems(2) one show ?case by (auto simp: paid_to_def t)
qed

lemma valid_payout_positive:
  assumes "MsgPayout_Validate E msg = Ok ()"
  shows "\<forall>p \<in> set (PayoutPairs msg). 0 < Amount (pp_Coin p)"
  using assms CoinIsValid_nonneg by (fastforce simp: MsgPayout_Validate_iff order_less_le)

lemma BurnHeldBalance_law:
  assumes run: "BurnHeldBalance E B k req = Ok k'"
  shows "burn_Authority req = mk_authority k \<and> mk_authority k' = mk_authority k \<and> coins_ok (msg_BurnCoins req) \<and>
     msg_BurnCoins req \<noteq> [] \<and>
     (\<exists>h. AccAddressFromBech32 E (mk_authority k) = Some h \<and>
        (\<forall>d. amt (msg_BurnCoins req) d \<le> bal E (mk_bank k) h d) \<and>
        (\<forall>a d. bal E (mk_bank k') a d = bal E (mk_bank k) a d - (if a = h then amt (msg_BurnCoins req) d else 0))) \<and>
     (\<forall>d. GetSupply B (mk_bank k') d = GetSupply B (mk_bank k) d - amt (msg_BurnCoins req) d)"
proof -
  let ?c = "msg_BurnCoins req"
  from run obtain h x x' where auth: "burn_Authority req = mk_authority k" and h: "AccAddressFromBech32 E (mk_authority k) = Some h"
    and ne: "?c \<noteq> []" and c: "coins_ok ?c" and x: "SendCoinsFromAccountToModule B (mk_bank k) h manifest_ModuleName ?c = Ok x"
    and x': "BurnCoins B x manifest_ModuleName ?c = Ok x'" and k': "k' = k\<lparr>mk_bank := x'\<rparr>"
    by (auto simp: BurnHeldBalance_def MsgBurnHeldBalance_Validate_def dest: CoinsIsValid_law split: if_split_asm)
  have b: "bal E (mk_bank k') a d = bal E (mk_bank k) a d - (if a = h then amt ?c d else 0)" for a d
    using SendToModule_law [OF x c] BurnCoins_law [OF x' c] k' by simp
  have "amt ?c d \<le> bal E (mk_bank k) h d" for d using b [of h d] GetBalance_nonneg [of "mk_bank k'" h d] by simp
  with auth h ne c k' b SendToModule_law [OF x c] BurnCoins_law [OF x' c] show ?thesis by auto
qed

end

text \<open>
  Claim C28.  A successful payout was requested by the authority with a non-empty list of
  distinct, decodable recipients and valid positive coins; it gives every address exactly
  what the list assigns to it, raises the supply by exactly the sum, and touches no other
  balance (the module account ends as it began).
\<close>

theorem payout_exact:
  assumes "mint_laws E B" and "msgServer_Payout E B k req = Ok k'"
  shows "payout_Authority req = mk_authority k \<and> mk_authority k' = mk_authority k \<and>
     PayoutPairs req \<noteq> [] \<and> distinct (map pp_Address (PayoutPairs req)) \<and>
     (\<forall>p \<in> set (PayoutPairs req). AccAddressFromBech32 E (pp_Address p) \<noteq> None \<and> 0 < Amount (pp_Coin p)) \<and>
     (\<forall>a d. bal E (mk_bank k') a d = bal E (mk_bank k) a d + paid_to E (PayoutPairs req) a d) \<and>
     (\<forall>d. GetSupply B (mk_bank k') d = GetSupply B (mk_bank k) d + amt (map pp_Coin (PayoutPairs req)) d)"
proof -
  from assms(2) have auth: "payout_Authority req = mk_authority k" and val: "MsgPayout_Validate E req = Ok ()"
    and run: "keeper_Payout E B k (PayoutPairs req) = Ok k'"
    by (auto simp: msgServer_Payout_def split: if_split_asm)
  note pos = mint_laws.valid_payout_positive [OF assms(1) val]
  show ?thesis
    using mint_laws.keeper_Payout_law [OF assms(1) run pos] auth pos val by (auto simp: MsgPayout_Validate_iff)
qed

definition sample_manifest :: "ref_bank manifest_keeper" where
  "sample_manifest = \<lparr>mk_authority = ''manifest1gov'', mk_bank =
     \<lparr>ref_tab = [(bytes_of ''gov'', [\<lparr>Denom = ''umfx'', Amount = 100\<rparr>])], ref_accs = [], ref_supply = [(''umfx'', 100)]\<rparr>\<rparr>"

definition sample_payout :: MsgPayout where
  "sample_payout = \<lparr>payout_Authority = ''manifest1gov'', PayoutPairs =
     [\<lparr>pp_Address = ''manifest1ann'', pp_Coin = \<lparr>Denom = ''umfx'', Amount = 50\<rparr>\<rparr>,
      \<lparr>pp_Address = ''manifest1bob'', pp_Coin = \<lparr>Denom = ''umfx'', Amount = 20\<rparr>\<rparr>]\<rparr>"

lemmas manifest_eval = sample_manifest_def sample_payout_def msgServer_Payout_def MsgPayout_Validate_def
  mintCoinsToAccount_def ref_mint_sdk_def ref_sdk_def ref_decode_def ref_hrp_def manifest_ModuleName_def Let_def
  ref_mint_def ref_add_def ref_row_def ref_put_def ref_send_def ref_sub_def ref_supply_add_def ref_supply_of_def
  bytes_of_def coins_ok_def kv_get_def BurnHeldBalance_def MsgBurnHeldBalance_Validate_def ref_burn_def

theorem payout_exact_witness:
  "\<exists>k'. msgServer_Payout ref_sdk ref_mint_sdk sample_manifest sample_payout = Ok k' \<and>
     bal ref_sdk (mk_bank k') (bytes_of ''ann'') ''umfx'' = 50 \<and> GetSupply ref_mint_sdk (mk_bank k') ''umfx'' = 170"
proof -
  have "isOk (msgServer_Payout ref_sdk ref_mint_sdk sample_manifest sample_payout)" by (simp add: manifest_eval)
  then obtain k' where k': "msgServer_Payout ref_sdk ref_mint_sdk sample_manifest sample_payout = Ok k'" by (rule isOkE)
  note ex = payout_exact [OF ref_bank.mint_laws_axioms k']
  have "bal ref_sdk (mk_bank k') (bytes_of ''ann'') ''umfx'' =
      bal ref_sdk (mk_bank sample_manifest) (bytes_of ''ann'') ''umfx'' + paid_to ref_sdk (PayoutPairs sample_payout) (bytes_of ''ann'') ''umfx''"
    "GetSupply ref_mint_sdk (mk_bank k') ''umfx'' =
      GetSupply ref_mint_sdk (mk_bank sample_manifest) ''umfx'' + amt (map pp_Coin (PayoutPairs sample_payout)) ''umfx''"
    using ex by blast+
  with k' show ?thesis by (simp add: manifest_eval paid_to_def)
qed

text \<open>
  Claim C29.  A successful burn was requested by the authority with valid non-empty coins it
  holds; exactly these coins leave its balance and the supply, and no other balance
  changes.
\<close>

theorem burn_exact:
  assumes "mint_laws E B" and "BurnHeldBalance E B k req = Ok k'"
  shows "burn_Authority req = mk_authority k \<and> mk_authority k' = mk_authority k \<and> coins_ok (msg_BurnCoins req) \<and>
     msg_BurnCoins req \<noteq> [] \<and>
     (\<exists>h. AccAddressFromBech32 E (mk_authority k) = Some h \<and>
        (\<forall>d. amt (msg_BurnCoins req) d \<le> bal E (mk_bank k) h d) \<and>
        (\<forall>a d. bal E (mk_bank k') a d = bal E (mk_bank k) a d - (if a = h then amt (msg_BurnCoins req) d else 0))) \<and>
     (\<forall>d. GetSupply B (mk_bank k') d = GetSupply B (mk_bank k) d - amt (msg_BurnCoins req) d)"
  by (rule mint_laws.BurnHeldBalance_law [OF assms])

theorem burn_exact_witness:
  "\<exists>k'. BurnHeldBalance ref_sdk ref_mint_sdk sample_manifest
       \<lparr>burn_Authority = ''manifest1gov'', msg_BurnCoins = [\<lparr>Denom = ''umfx'', Amount = 30\<rparr>]\<rparr> = Ok k' \<and>
     GetSupply ref_mint_sdk (mk_bank k') ''umfx'' = 70"
proof -
  let ?m = "\<lparr>burn_Authority = ''manifest1gov'', msg_BurnCoins = [\<lparr>Denom = ''umfx'', Amount = 30\<rparr>]\<rparr>"
  have "isOk (BurnHeldBalance ref_sdk ref_mint_sdk sample_manifest ?m)" by (simp add: manifest_eval)
  then obtain k' where k': "BurnHeldBalance ref_sdk ref_mint_sdk sample_manifest ?m = Ok k'" by (rule isOkE)
  have "GetSupply ref_mint_sdk (mk_bank k') ''umfx'' =
      GetSupply ref_mint_sdk (mk_bank sample_manifest) ''umfx'' - amt (msg_BurnCoins ?m) ''umfx''"
    using burn_exact [OF ref_bank.mint_laws_axioms k'] by blast
  with k' show ?thesis by (simp add: manifest_eval)
qed

end
