(* ===== verification/Client.thy ===== *)
theory Client
  imports Billing_Queries Manifest Samples
begin

text \<open>
  The command line of the modules (\<open>x/*/client/cli\<close>): how a transaction command turns its
  arguments and flags into the message it broadcasts.  A command is its \<open>RunE\<close> function with
  the sender's address, the positional arguments (as many as the command's \<open>Args\<close> admits) and
  the flag values as arguments; its result is the message handed to the transaction
  machinery of the SDK.  \<open>sdk.ParseCoinNormalized\<close> and \<open>sdk.ParseCoinsNormalized\<close> are the
  parameters \<open>pc\<close> and \<open>pcs\<close>.
\<close>

section \<open>Go's \<open>strings\<close>, \<open>strconv\<close> and \<open>encoding/hex\<close>\<close>

fun SplitN :: "char \<Rightarrow> nat \<Rightarrow> string \<Rightarrow> string list" where
  \<comment> \<open>\<open>strings.SplitN\<close> for a positive limit: the last of at most \<open>n\<close> parts is the unsplit rest\<close>
  "SplitN x n [] = [[]]"
| "SplitN x n (c # cs) =
     (if n \<le> 1 then [c # cs]
      else if c = x then [] # SplitN x (n - 1) cs
      else (case SplitN x n cs of [] \<Rightarrow> [[c]] | l # ls \<Rightarrow> (c # l) # ls))"

definition digitVal :: "char \<Rightarrow> int option" where
  "digitVal c = (if isDigitByte c then Some (int (of_char c) - 48) else None)"

fun uintLoop :: "nat \<Rightarrow> int \<Rightarrow> string \<Rightarrow> int option" where
  "uintLoop bits n [] = Some n"
| "uintLoop bits n (c # cs) =
     (case digitVal c of
        None \<Rightarrow> None
      | Some d \<Rightarrow> if n * 10 + d \<ge> 2 ^ bits then None else uintLoop bits (n * 10 + d) cs)"

definition ParseUint :: "nat \<Rightarrow> string \<Rightarrow> int option" where
  \<comment> \<open>\<open>strconv.ParseUint(s, 10, bits)\<close>; a syntax or a range error is \<open>None\<close>\<close>
  "ParseUint bits s = (if s = [] then None else uintLoop bits 0 s)"

definition ParseUint64 :: "string \<Rightarrow> u64 option" where
  "ParseUint64 s = map_option word_of_int (ParseUint 64 s)"

definition ParseInt :: "nat \<Rightarrow> string \<Rightarrow> int option" where
  \<comment> \<open>\<open>strconv.ParseInt(s, 10, bits)\<close>\<close>
  "ParseInt bits s =
     (if s = [] then None
      else
        (let neg = hd s = CHR ''-'';
             digits = (if hd s = CHR ''+'' \<or> hd s = CHR ''-'' then tl s else s)
         in case ParseUint bits digits of
              None \<Rightarrow> None
            | Some un \<Rightarrow>
                if \<not> neg \<and> un \<ge> 2 ^ (bits - 1) then None
                else if neg \<and> un > 2 ^ (bits - 1) then None
                else Some (if neg then - un else un)))"

definition ParseBool :: "string \<Rightarrow> bool option" where
  "ParseBool s =
     (if s \<in> {''1'', ''t'', ''T'', ''true'', ''TRUE'', ''True''} then Some True
      else if s \<in> {''0'', ''f'', ''F'', ''false'', ''FALSE'', ''False''} then Some False
      else None)"

definition fromHexChar :: "char \<Rightarrow> byte option" where
  "fromHexChar c =
     (if isDigitByte c then Some (word_of_int (int (of_char c) - 48))
      else if CHR ''a'' \<le> c \<and> c \<le> CHR ''f'' then Some (word_of_int (int (of_char c) - 87))
      else if CHR ''A'' \<le> c \<and> c \<le> CHR ''F'' then Some (word_of_int (int (of_char c) - 55))
      else None)"

fun hexDecodeString :: "string \<Rightarrow> byte list option" where
  "hexDecodeString [] = Some []"
| "hexDecodeString [c] = None"
| "hexDecodeString (a # b # cs) =
     (case (fromHexChar a, fromHexChar b) of
        (Some x, Some y) \<Rightarrow> map_option (\<lambda>bs. (x * 16 + y) # bs) (hexDecodeString cs)
      | _ \<Rightarrow> None)"

section \<open>Argument parsers\<close>

datatype cli_error =
    BadMetaHash | MetaHashTooLong | BadItemFormat | BadUUID | BadQuantity | EmptyServiceName
  | BadTenant | BadAmount | BadNumber | BadModes | TooManyLeases | QueryFailed | BadUnit | BadActive
  | BadPairing | BadAddress | BadCoin | UnknownState | MessageInvalid

definition parseMetaHashFlag :: "string \<Rightarrow> (cli_error, byte list) result" where
  "parseMetaHashFlag metaHashStr =
     (if metaHashStr = [] then Ok []
      else if length metaHashStr > MaxMetaHashLength * 2 then Err MetaHashTooLong
      else andThen (okOr (hexDecodeString metaHashStr) BadMetaHash) (\<lambda>metaHash.
        if length metaHash > MaxMetaHashLength then Err MetaHashTooLong else Ok metaHash))"

definition parseLeaseItem :: "string \<Rightarrow> (cli_error, LeaseItemInput) result" where
  \<comment> \<open>one round of the loop of \<open>parseLeaseItemInputs\<close>\<close>
  "parseLeaseItem arg =
     (let parts = SplitN (CHR '':'') 3 arg
      in if length parts < 2 then Err BadItemFormat
         else if \<not> IsValidUUID (parts ! 0) then Err BadUUID
         else andThen (okOr (ParseUint64 (parts ! 1)) BadQuantity) (\<lambda>quantity.
           if length parts = 3 then
             (if parts ! 2 = [] then Err EmptyServiceName
              else Ok \<lparr>in_SkuUuid = parts ! 0, in_Quantity = quantity, in_ServiceName = parts ! 2\<rparr>)
           else Ok \<lparr>in_SkuUuid = parts ! 0, in_Quantity = quantity, in_ServiceName = []\<rparr>))"

fun parseLeaseItemInputs :: "string list \<Rightarrow> (cli_error, LeaseItemInput list) result" where
  "parseLeaseItemInputs [] = Ok []"
| "parseLeaseItemInputs (arg # args) =
     andThen (parseLeaseItem arg) (\<lambda>item.
     andThen (parseLeaseItemInputs args) (\<lambda>items. Ok (item # items)))"

definition splitAndTrim :: "string \<Rightarrow> string list" where
  "splitAndTrim s = (if s = [] then [] else filter (\<lambda>t. t \<noteq> []) (map TrimSpace (Split (CHR '','') s)))"

definition splitAddresses :: "string \<Rightarrow> string list" where
  "splitAddresses s = (if s = [] then [] else filter (\<lambda>t. t \<noteq> []) (map TrimSpace (Split (CHR '','') s)))"

definition parseMetaHash :: "string \<Rightarrow> (cli_error, byte list) result" where
  "parseMetaHash metaHashStr = (if metaHashStr = [] then Ok [] else okOr (hexDecodeString metaHashStr) BadMetaHash)"

definition parseLeaseState :: "string \<Rightarrow> (cli_error, LeaseState) result" where
  "parseLeaseState s =
     (let t = ToLower s
      in if t = [] then Ok LEASE_STATE_UNSPECIFIED
         else if t = ''pending'' then Ok LEASE_STATE_PENDING
         else if t = ''active'' then Ok LEASE_STATE_ACTIVE
         else if t = ''closed'' then Ok LEASE_STATE_CLOSED
         else if t = ''rejected'' then Ok LEASE_STATE_REJECTED
         else if t = ''expired'' then Ok LEASE_STATE_EXPIRED
         else Err UnknownState)"

definition parsePairing :: "'x sdk \<Rightarrow> (string \<Rightarrow> coin option) \<Rightarrow> string \<Rightarrow> (cli_error, PayoutPair) result" where
  \<comment> \<open>one round of the loop of \<open>fromStrToPayout\<close>\<close>
  "parsePairing E pc pairing =
     (case Split (CHR '':'') pairing of
        [strAddr, strCoin] \<Rightarrow>
          if AccAddressFromBech32 E strAddr = None then Err BadAddress
          else andThen (okOr (pc strCoin) BadCoin) (\<lambda>coin.
            if \<not> CoinIsValid E coin then Err BadCoin else Ok \<lparr>pp_Address = strAddr, pp_Coin = coin\<rparr>)
      | _ \<Rightarrow> Err BadPairing)"

fun payoutLoop :: "'x sdk \<Rightarrow> (string \<Rightarrow> coin option) \<Rightarrow> string list \<Rightarrow> (cli_error, PayoutPair list) result" where
  "payoutLoop E pc [] = Ok []"
| "payoutLoop E pc (p # ps) =
     andThen (parsePairing E pc p) (\<lambda>pair. andThen (payoutLoop E pc ps) (\<lambda>pairs. Ok (pair # pairs)))"

definition fromStrToPayout ::
  "'x sdk \<Rightarrow> (string \<Rightarrow> coin option) \<Rightarrow> string \<Rightarrow> (cli_error, PayoutPair list) result" where
  "fromStrToPayout E pc s = payoutLoop E pc (Split (CHR '','') (filter (\<lambda>c. c \<noteq> CHR ''_'') s))"

section \<open>Commands of the billing module\<close>

definition NewFundCreditCmd ::
  "'x sdk \<Rightarrow> (string \<Rightarrow> coin option) \<Rightarrow> addr \<Rightarrow> string \<Rightarrow> string \<Rightarrow> (cli_error, billing_msg) result" where
  "NewFundCreditCmd E pc from tenant amount =
     (if AccAddressFromBech32 E tenant = None then Err BadTenant
      else andThen (okOr (pc amount) BadAmount) (\<lambda>c.
        Ok (FundCreditMsg \<lparr>fc_Sender = AccAddressString E from, fc_Tenant = tenant, fc_Amount = c\<rparr>)))"

definition NewCreateLeaseCmd :: "'x sdk \<Rightarrow> addr \<Rightarrow> string list \<Rightarrow> string \<Rightarrow> (cli_error, billing_msg) result" where
  "NewCreateLeaseCmd E from args metaHashStr =
     andThen (parseLeaseItemInputs args) (\<lambda>items.
     andThen (parseMetaHashFlag metaHashStr) (\<lambda>metaHash.
     Ok (CreateLeaseMsg \<lparr>cl_Tenant = AccAddressString E from, cl_Items = items, cl_MetaHash = metaHash\<rparr>)))"

definition NewCreateLeaseForTenantCmd ::
  "'x sdk \<Rightarrow> addr \<Rightarrow> string \<Rightarrow> string list \<Rightarrow> string \<Rightarrow> (cli_error, billing_msg) result" where
  "NewCreateLeaseForTenantCmd E from tenant args metaHashStr =
     (if AccAddressFromBech32 E tenant = None then Err BadTenant
      else
        andThen (parseLeaseItemInputs args) (\<lambda>items.
        andThen (parseMetaHashFlag metaHashStr) (\<lambda>metaHash.
        Ok (CreateLeaseForTenantMsg \<lparr>clt_Authority = AccAddressString E from, clt_Tenant = tenant,
          clt_Items = items, clt_MetaHash = metaHash\<rparr>))))"

definition checkLeaseUUIDs :: "string list \<Rightarrow> cli_error checked" where
  \<comment> \<open>the loop over the lease identifiers the batch commands share\<close>
  "checkLeaseUUIDs args = (if list_all IsValidUUID args then Ok () else Err BadUUID)"

definition NewCloseLeaseCmd :: "'x sdk \<Rightarrow> addr \<Rightarrow> string list \<Rightarrow> string \<Rightarrow> (cli_error, billing_msg) result" where
  "NewCloseLeaseCmd E from args reason =
     andThen (checkLeaseUUIDs args) (\<lambda>_.
     Ok (CloseLeaseMsg \<lparr>close_Sender = AccAddressString E from, close_LeaseUuids = args, close_Reason = reason\<rparr>))"

definition NewWithdrawCmd ::
  "'x sdk \<Rightarrow> addr \<Rightarrow> string list \<Rightarrow> string \<Rightarrow> u64 \<Rightarrow> (cli_error, billing_msg) result" where
  "NewWithdrawCmd E from args providerUUID limit =
     (if args \<noteq> [] \<and> providerUUID \<noteq> [] then Err BadModes
      else if args = [] \<and> providerUUID = [] then Err BadModes
      else if args \<noteq> [] then
        (if length args > MaxBatchLeaseSize then Err TooManyLeases
         else andThen (checkLeaseUUIDs args) (\<lambda>_.
           Ok (WithdrawMsg \<lparr>w_Sender = AccAddressString E from, w_LeaseUuids = args, w_ProviderUuid = [], w_Limit = 0\<rparr>)))
      else if \<not> IsValidUUID providerUUID then Err BadUUID
      else Ok (WithdrawMsg \<lparr>w_Sender = AccAddressString E from, w_LeaseUuids = [], w_ProviderUuid = providerUUID,
        w_Limit = limit\<rparr>))"

definition listFlag :: "string option \<Rightarrow> Params option \<Rightarrow> (Params \<Rightarrow> string list) \<Rightarrow> (cli_error, string list) result" where
  \<comment> \<open>a list flag: absent keeps the value of the queried parameters, present replaces it, empty
    clears it; reading parameters that were not queried is a nil dereference\<close>
  "listFlag flag preserved field =
     (case flag of
        None \<Rightarrow> andThen (must preserved) (\<lambda>p. Ok (field p))
      | Some s \<Rightarrow> Ok (if s \<noteq> [] then splitAndTrim s else []))"

definition NewUpdateParamsCmd ::
  "'x sdk \<Rightarrow> Params option \<Rightarrow> addr \<Rightarrow> string \<Rightarrow> string \<Rightarrow> string \<Rightarrow> string \<Rightarrow> string \<Rightarrow> string option \<Rightarrow> string option \<Rightarrow>
     (cli_error, billing_msg) result" where
  \<comment> \<open>\<open>query\<close> is the answer of the parameter query, \<open>None\<close> when it fails; a flag is \<open>None\<close> unless
    it was changed on the command line\<close>
  "NewUpdateParamsCmd E query from a0 a1 a2 a3 a4 allowedFlag suffixFlag =
     andThen (okOr (ParseUint64 a0) BadNumber) (\<lambda>maxLeasesPerTenant.
     andThen (okOr (ParseUint64 a1) BadNumber) (\<lambda>maxItemsPerLease.
     andThen (okOr (ParseUint64 a2) BadNumber) (\<lambda>minLeaseDuration.
     andThen (okOr (ParseUint64 a3) BadNumber) (\<lambda>maxPendingLeasesPerTenant.
     andThen (okOr (ParseUint64 a4) BadNumber) (\<lambda>pendingTimeout.
     andThen (if allowedFlag = None \<or> suffixFlag = None then andThen (okOr query QueryFailed) (\<lambda>p. Ok (Some p)) else Ok None)
       (\<lambda>preserved.
     andThen (listFlag allowedFlag preserved AllowedList) (\<lambda>allowedList.
     andThen (listFlag suffixFlag preserved ReservedDomainSuffixes) (\<lambda>reservedSuffixes.
     Ok (UpdateParamsMsg \<lparr>upd_Authority = AccAddressString E from,
       upd_Params = \<lparr>MaxLeasesPerTenant = maxLeasesPerTenant, AllowedList = allowedList,
         MaxItemsPerLease = maxItemsPerLease, MinLeaseDuration = minLeaseDuration,
         MaxPendingLeasesPerTenant = maxPendingLeasesPerTenant, PendingTimeout = pendingTimeout,
         ReservedDomainSuffixes = reservedSuffixes\<rparr>\<rparr>)))))))))"

definition NewAcknowledgeLeaseCmd :: "'x sdk \<Rightarrow> addr \<Rightarrow> string list \<Rightarrow> (cli_error, billing_msg) result" where
  "NewAcknowledgeLeaseCmd E from args =
     andThen (checkLeaseUUIDs args) (\<lambda>_.
     Ok (AcknowledgeLeaseMsg \<lparr>ack_Sender = AccAddressString E from, ack_LeaseUuids = args\<rparr>))"

definition NewRejectLeaseCmd :: "'x sdk \<Rightarrow> addr \<Rightarrow> string list \<Rightarrow> string \<Rightarrow> (cli_error, billing_msg) result" where
  "NewRejectLeaseCmd E from args reason =
     andThen (checkLeaseUUIDs args) (\<lambda>_.
     Ok (RejectLeaseMsg \<lparr>rej_Sender = AccAddressString E from, rej_LeaseUuids = args, rej_Reason = reason\<rparr>))"

definition NewCancelLeaseCmd :: "'x sdk \<Rightarrow> addr \<Rightarrow> string list \<Rightarrow> (cli_error, billing_msg) result" where
  "NewCancelLeaseCmd E from args =
     andThen (checkLeaseUUIDs args) (\<lambda>_.
     Ok (CancelLeaseMsg \<lparr>can_Tenant = AccAddressString E from, can_LeaseUuids = args\<rparr>))"

definition NewSetItemCustomDomainCmd ::
  "'x sdk \<Rightarrow> addr \<Rightarrow> string \<Rightarrow> string \<Rightarrow> string \<Rightarrow> (cli_error, billing_msg) result" where
  "NewSetItemCustomDomainCmd E from leaseUUID serviceName domain =
     (if \<not> IsValidUUID leaseUUID then Err BadUUID
      else Ok (SetItemCustomDomainMsg \<lparr>scd_Sender = AccAddressString E from, scd_LeaseUuid = leaseUUID,
        scd_ServiceName = serviceName, scd_CustomDomain = domain\<rparr>))"

section \<open>Commands of the SKU module\<close>

definition unitOf :: "int \<Rightarrow> Unit" where
  \<comment> \<open>the conversion \<open>types.Unit(unitInt)\<close>\<close>
  "unitOf n = (if n = 0 then UNIT_UNSPECIFIED else if n = 1 then UNIT_PER_HOUR
     else if n = 2 then UNIT_PER_DAY else UNIT_OTHER n)"

definition validated :: "'e checked \<Rightarrow> 'm \<Rightarrow> (cli_error, 'm) result" where
  \<comment> \<open>\<open>msg.Validate()\<close> before the message is broadcast\<close>
  "validated v m = andThen (orErr v MessageInvalid) (\<lambda>_. Ok m)"

definition cli_MsgCreateProvider ::
  "'x sdk \<Rightarrow> addr \<Rightarrow> string \<Rightarrow> string \<Rightarrow> string \<Rightarrow> string \<Rightarrow> (cli_error, sku_msg) result" where
  "cli_MsgCreateProvider E from address payoutAddress metaHashStr apiURL =
     andThen (parseMetaHash metaHashStr) (\<lambda>metaHash.
     let msg = \<lparr>cp_Authority = AccAddressString E from, cp_Address = address, cp_PayoutAddress = payoutAddress,
           cp_MetaHash = metaHash, cp_ApiUrl = apiURL\<rparr>
     in validated (MsgCreateProvider_Validate E msg) (CreateProviderMsg msg))"

definition cli_MsgUpdateProvider ::
  "'x sdk \<Rightarrow> addr \<Rightarrow> string \<Rightarrow> string \<Rightarrow> string \<Rightarrow> string \<Rightarrow> string \<Rightarrow> string \<Rightarrow> (cli_error, sku_msg) result" where
  "cli_MsgUpdateProvider E from uuid address payoutAddress activeStr metaHashStr apiURL =
     andThen (okOr (ParseBool activeStr) BadActive) (\<lambda>active.
     andThen (parseMetaHash metaHashStr) (\<lambda>metaHash.
     let msg = \<lparr>up_Authority = AccAddressString E from, up_Uuid = uuid, up_Address = address,
           up_PayoutAddress = payoutAddress, up_MetaHash = metaHash, up_Active = active, up_ApiUrl = apiURL\<rparr>
     in validated (MsgUpdateProvider_Validate E msg) (UpdateProviderMsg msg)))"

definition cli_MsgDeactivateProvider :: "'x sdk \<Rightarrow> addr \<Rightarrow> string \<Rightarrow> u64 \<Rightarrow> (cli_error, sku_msg) result" where
  "cli_MsgDeactivateProvider E from uuid limit =
     (let msg = \<lparr>dp_Authority = AccAddressString E from, dp_Uuid = uuid, dp_Limit = limit\<rparr>
      in validated (MsgDeactivateProvider_Validate E msg) (DeactivateProviderMsg msg))"

definition cli_MsgCreateSKU ::
  "'x sdk \<Rightarrow> (string \<Rightarrow> coin option) \<Rightarrow> addr \<Rightarrow> string \<Rightarrow> string \<Rightarrow> string \<Rightarrow> string \<Rightarrow> string \<Rightarrow> (cli_error, sku_msg) result" where
  "cli_MsgCreateSKU E pc from providerUUID name unitStr priceStr metaHashStr =
     andThen (okOr (ParseInt 32 unitStr) BadUnit) (\<lambda>unitInt.
     andThen (okOr (pc priceStr) BadAmount) (\<lambda>basePrice.
     andThen (parseMetaHash metaHashStr) (\<lambda>metaHash.
     let msg = \<lparr>cs_Authority = AccAddressString E from, cs_ProviderUuid = providerUUID, cs_Name = name,
           cs_Unit = unitOf unitInt, cs_BasePrice = basePrice, cs_MetaHash = metaHash\<rparr>
     in validated (MsgCreateSKU_Validate E msg) (CreateSKUMsg msg))))"

definition cli_MsgUpdateSKU ::
  "'x sdk \<Rightarrow> (string \<Rightarrow> coin option) \<Rightarrow> addr \<Rightarrow> string \<Rightarrow> string \<Rightarrow> string \<Rightarrow> string \<Rightarrow> string \<Rightarrow> string \<Rightarrow> string \<Rightarrow>
     (cli_error, sku_msg) result" where
  "cli_MsgUpdateSKU E pc from uuid providerUUID name unitStr priceStr activeStr metaHashStr =
     andThen (okOr (ParseInt 32 unitStr) BadUnit) (\<lambda>unitInt.
     andThen (okOr (pc priceStr) BadAmount) (\<lambda>basePrice.
     andThen (okOr (ParseBool activeStr) BadActive) (\<lambda>active.
     andThen (parseMetaHash metaHashStr) (\<lambda>metaHash.
     let msg = \<lparr>us_Authority = AccAddressString E from, us_Uuid = uuid, us_ProviderUuid = providerUUID,
           us_Name = name, us_Unit = unitOf unitInt, us_BasePrice = basePrice, us_MetaHash = metaHash, us_Active = active\<rparr>
     in validated (MsgUpdateSKU_Validate E msg) (UpdateSKUMsg msg)))))"

definition cli_MsgDeactivateSKU :: "'x sdk \<Rightarrow> addr \<Rightarrow> string \<Rightarrow> (cli_error, sku_msg) result" where
  "cli_MsgDeactivateSKU E from uuid =
     (let msg = \<lparr>ds_Authority = AccAddressString E from, ds_Uuid = uuid\<rparr>
      in validated (MsgDeactivateSKU_Validate E msg) (DeactivateSKUMsg msg))"

definition cli_MsgUpdateParams :: "'x sdk \<Rightarrow> addr \<Rightarrow> string \<Rightarrow> (cli_error, sku_msg) result" where
  "cli_MsgUpdateParams E from allowedListStr =
     (let msg = \<lparr>sup_Authority = AccAddressString E from,
            sup_Params = \<lparr>sku_AllowedList = (if allowedListStr \<noteq> [] then splitAddresses allowedListStr else [])\<rparr>\<rparr>
      in validated (SkuMsgUpdateParams_Validate E msg) (SkuUpdateParamsMsg msg))"

section \<open>Commands of the manifest module\<close>

definition cli_MsgPayout :: "'x sdk \<Rightarrow> (string \<Rightarrow> coin option) \<Rightarrow> addr \<Rightarrow> string \<Rightarrow> (cli_error, MsgPayout) result" where
  "cli_MsgPayout E pc from arg =
     andThen (fromStrToPayout E pc arg) (\<lambda>payoutPairs.
     let msg = NewMsgPayout E from payoutPairs in validated (MsgPayout_Validate E msg) msg)"

definition cli_MsgBurnCoins ::
  "'x sdk \<Rightarrow> (string \<Rightarrow> coins option) \<Rightarrow> addr \<Rightarrow> string \<Rightarrow> (cli_error, MsgBurnHeldBalance) result" where
  "cli_MsgBurnCoins E pcs from arg =
     andThen (okOr (pcs arg) BadCoin) (\<lambda>coins.
     let msg = NewMsgBurnHeldBalance E from coins in validated (MsgBurnHeldBalance_Validate E msg) msg)"

section \<open>Printing arguments\<close>

definition decimalDigit :: "nat \<Rightarrow> char" where
  "decimalDigit n = char_of (48 + n)"

function decimal :: "nat \<Rightarrow> string" where
  "decimal n = (if n < 10 then [decimalDigit n] else decimal (n div 10) @ [decimalDigit (n mod 10)])"
  by pat_completeness auto
termination by (relation "measure id") auto

declare decimal.simps [simp del]

definition itemArg :: "LeaseItemInput \<Rightarrow> string" where
  \<comment> \<open>the documented form \<open>sku_uuid:quantity[:service_name]\<close> of a lease item\<close>
  "itemArg i = in_SkuUuid i @ CHR '':'' # decimal (unat (in_Quantity i)) @
     (if in_ServiceName i = [] then [] else CHR '':'' # in_ServiceName i)"

lemma decimalDigit_code: "n < 10 \<Longrightarrow> (of_char (decimalDigit n) :: nat) = 48 + n"
  by (simp add: decimalDigit_def)

lemma decimalDigit_byte: "n < 10 \<Longrightarrow> isDigitByte (decimalDigit n)"
  by (simp add: isDigitByte_def less_eq_char_def decimalDigit_code)

lemma decimalDigit_val: "n < 10 \<Longrightarrow> digitVal (decimalDigit n) = Some (int n)"
  by (simp add: digitVal_def decimalDigit_byte decimalDigit_code)

lemma decimal_bytes: "c \<in> set (decimal n) \<Longrightarrow> isDigitByte c"
proof (induction n rule: decimal.induct)
  case (1 n)
  then show ?case by (subst (asm) decimal.simps) (auto simp: decimalDigit_byte split: if_split_asm)
qed

lemma decimal_nonempty [simp]: "decimal n \<noteq> []"
  by (subst decimal.simps) simp

lemma uintLoop_append:
  "uintLoop b n (s @ t) = (case uintLoop b n s of None \<Rightarrow> None | Some m \<Rightarrow> uintLoop b m t)"
  by (induction s arbitrary: n) (auto split: option.splits)

lemma uintLoop_decimal: "n < 2 ^ b \<Longrightarrow> uintLoop b 0 (decimal n) = Some (int n)"
proof (induction n rule: decimal.induct)
  case (1 n)
  have b: "\<not> int n \<ge> 2 ^ b" using "1.prems" by (metis not_le of_nat_less_iff of_nat_numeral of_nat_power)
  show ?case
  proof (cases "n < 10")
    case True
    with b show ?thesis by (subst decimal.simps) (simp add: decimalDigit_val)
  next
    case False
    have n: "int (n div 10) * 10 + int (n mod 10) = int n" by presburger
    have "uintLoop b 0 (decimal (n div 10)) = Some (int (n div 10))"
      using False "1.prems" by (intro "1.IH") auto
    then show ?thesis using False b
      by (subst decimal.simps) (simp add: uintLoop_append decimalDigit_val n)
  qed
qed

lemma ParseUint64_decimal: "ParseUint64 (decimal (unat (q :: u64))) = Some q"
proof -
  have "unat q < 2 ^ 64" using unsigned_less [of q] by simp
  then show ?thesis
    by (simp add: ParseUint64_def ParseUint_def uintLoop_decimal)
qed

lemma SplitN_one [simp]: "SplitN x (Suc 0) s = [s]"
  by (cases s) auto

lemma SplitN_none: "x \<notin> set l \<Longrightarrow> SplitN x n l = [l]"
  by (induction l) auto

lemma SplitN_first: "x \<notin> set l \<Longrightarrow> SplitN x (Suc (Suc n)) (l @ x # s) = l # SplitN x (Suc n) s"
  by (induction l) auto

lemma colon_not_digit: "\<not> isDigitByte (CHR '':'')"
  by (simp add: isDigitByte_def less_eq_char_def)

lemma uuid_no_colon: "IsValidUUID s \<Longrightarrow> CHR '':'' \<notin> set s"
proof
  assume "IsValidUUID s" and "CHR '':'' \<in> set s"
  then obtain j where "j < length uuidPattern" and "(uuidPattern ! j) (CHR '':'')"
    by (force simp: IsValidUUID_def IsValidUUIDv7_def list_all2_conv_all_nth in_set_conv_nth)
  then obtain p where "p \<in> set uuidPattern" and "p (CHR '':'')" using nth_mem by blast
  then show False by (auto simp: uuidPattern_def isHex_def less_eq_char_def)
qed

lemma parseLeaseItem_itemArg:
  assumes "IsValidUUID (in_SkuUuid i)"
  shows "parseLeaseItem (itemArg i) = Ok i"
proof -
  let ?d = "decimal (unat (in_Quantity i))"
  have n: "CHR '':'' \<notin> set (in_SkuUuid i)" "CHR '':'' \<notin> set ?d"
    using uuid_no_colon [OF assms] decimal_bytes colon_not_digit by auto
  have "SplitN (CHR '':'') 3 (itemArg i) =
      (if in_ServiceName i = [] then [in_SkuUuid i, ?d] else [in_SkuUuid i, ?d, in_ServiceName i])"
    using n by (simp add: itemArg_def numeral_3_eq_3 SplitN_first SplitN_none)
  then show ?thesis using assms by (simp add: parseLeaseItem_def ParseUint64_decimal)
qed

lemma parseLeaseItemInputs_args:
  "\<forall>i \<in> set items. IsValidUUID (in_SkuUuid i) \<Longrightarrow> parseLeaseItemInputs (map itemArg items) = Ok items"
  by (induction items) (simp_all add: parseLeaseItem_itemArg)

lemma fromHexChar_hexDigit:
  assumes "n < 16"
  shows "fromHexChar (hexDigit n) = Some (of_nat n)"
proof -
  have "n \<in> {0, 1, 2, 3, 4, 5, 6, 7, 8, 9, 10, 11, 12, 13, 14, 15}" using assms by (simp, presburger)
  then show ?thesis by (auto simp: fromHexChar_def hexDigit_def isDigitByte_def less_eq_char_def)
qed

lemma hexDecodeString_hexBytes: "hexDecodeString (hexBytes bs) = Some bs"
proof (induction bs)
  case (Cons b bs)
  have "unat b < 256" using unsigned_less [of b] by simp
  then have h: "fromHexChar (hexDigit (unat b div 16)) = Some (of_nat (unat b div 16))"
    "fromHexChar (hexDigit (unat b mod 16)) = Some (of_nat (unat b mod 16))"
    by (auto intro!: fromHexChar_hexDigit)
  have "of_nat (unat b div 16) * 16 + of_nat (unat b mod 16) = (of_nat (unat b div 16 * 16 + unat b mod 16) :: byte)"
    by (simp only: of_nat_add of_nat_mult of_nat_numeral)
  then have "of_nat (unat b div 16) * 16 + of_nat (unat b mod 16) = b" unfolding div_mult_mod_eq by simp
  with h Cons show ?case by (simp add: hexBytes_def hexByte_def)
qed (simp add: hexBytes_def)

lemma length_hexBytes: "length (hexBytes bs) = 2 * length bs"
  by (induction bs) (simp_all add: hexBytes_def hexByte_def)

lemma parseMetaHashFlag_hex: "length mh \<le> MaxMetaHashLength \<Longrightarrow> parseMetaHashFlag (hexBytes mh) = Ok mh"
  using length_hexBytes [of mh] by (auto simp: parseMetaHashFlag_def hexDecodeString_hexBytes)

lemma validItems_uuid:
  "ValidateLeaseItems items = Ok () \<Longrightarrow> \<forall>i \<in> set items. IsValidUUID (in_SkuUuid i)"
  by (auto simp: ValidateLeaseItems_def itemFieldsLoop_ok split: if_split_asm)

section \<open>Theorems\<close>

text \<open>
  Claim C25.  Every lease the chain would accept can be requested from the command line: its
  items written as \<open>sku_uuid:quantity\<close> or \<open>sku_uuid:quantity:service_name\<close> and its meta hash
  written in hexadecimal are parsed back to exactly that message, by both creation commands.
\<close>

theorem lease_args_roundtrip:
  assumes "ValidateLeaseItems items = Ok ()" and "length mh \<le> MaxMetaHashLength"
    and "AccAddressFromBech32 E tenant \<noteq> None"
  shows "NewCreateLeaseCmd E from (map itemArg items) (hexBytes mh) =
      Ok (CreateLeaseMsg \<lparr>cl_Tenant = AccAddressString E from, cl_Items = items, cl_MetaHash = mh\<rparr>) \<and>
    NewCreateLeaseForTenantCmd E from tenant (map itemArg items) (hexBytes mh) =
      Ok (CreateLeaseForTenantMsg \<lparr>clt_Authority = AccAddressString E from, clt_Tenant = tenant,
        clt_Items = items, clt_MetaHash = mh\<rparr>)"
  using parseLeaseItemInputs_args [OF validItems_uuid [OF assms(1)]] parseMetaHashFlag_hex [OF assms(2)] assms(3)
  by (simp add: NewCreateLeaseCmd_def NewCreateLeaseForTenantCmd_def)

definition sample_inputs :: "LeaseItemInput list" where
  "sample_inputs = [\<lparr>in_SkuUuid = ''01890000-0000-7000-8000-0000000000b1'', in_Quantity = 12, in_ServiceName = ''web''\<rparr>,
     \<lparr>in_SkuUuid = ''01890000-0000-7000-8000-0000000000b1'', in_Quantity = 1, in_ServiceName = ''db''\<rparr>]"

lemma sample_inputs_valid: "ValidateLeaseItems sample_inputs = Ok ()"
  unfolding sample_inputs_def by code_simp

theorem lease_args_roundtrip_witness:
  "NewCreateLeaseCmd ref_sdk (bytes_of ''ten'') (map itemArg sample_inputs) (hexBytes [161, 178]) =
    Ok (CreateLeaseMsg \<lparr>cl_Tenant = AccAddressString ref_sdk (bytes_of ''ten''), cl_Items = sample_inputs, cl_MetaHash = [161, 178]\<rparr>)"
  by (rule lease_args_roundtrip [where tenant = "''manifest1ten''", THEN conjunct1])
    (simp_all add: sample_inputs_valid ref_eval MaxMetaHashLength_def)

text \<open>
  Claim C26.  Updating the billing parameters from the command line does not touch a list whose
  flag is omitted: delivering the message the command builds from the current parameters sets
  the five numbers, keeps each list whose flag is absent, replaces each list whose flag is
  given by its trimmed entries (an empty value clears it), and changes no lease or account.
\<close>

theorem update_params_cmd_preserves:
  assumes "lg_Params st = Some p"
    and "NewUpdateParamsCmd E (case Query_Params st of Ok q \<Rightarrow> Some q | _ \<Rightarrow> None) from a0 a1 a2 a3 a4 allowedFlag suffixFlag = Ok m"
    and "billing_handle E ctx st m = Ok (st', r)"
  shows "\<exists>p'. lg_Params st' = Some p' \<and>
     AllowedList p' = (case allowedFlag of None \<Rightarrow> AllowedList p | Some s \<Rightarrow> splitAndTrim s) \<and>
     ReservedDomainSuffixes p' = (case suffixFlag of None \<Rightarrow> ReservedDomainSuffixes p | Some s \<Rightarrow> splitAndTrim s) \<and>
     map ParseUint64 [a0, a1, a2, a3, a4] = map Some [MaxLeasesPerTenant p', MaxItemsPerLease p', MinLeaseDuration p',
       MaxPendingLeasesPerTenant p', PendingTimeout p'] \<and>
     Leases st' = Leases st \<and> CreditAccounts st' = CreditAccounts st \<and> bank st' = bank st"
  using assms
  by (auto simp: Query_Params_def GetParams_def NewUpdateParamsCmd_def listFlag_def UpdateParams_def SetParams_def splitAndTrim_def
      split: if_split_asm option.splits)

theorem update_params_cmd_preserves_witness:
  "\<exists>m st' r p'. NewUpdateParamsCmd ref_sdk (case Query_Params sample_ledger of Ok q \<Rightarrow> Some q | _ \<Rightarrow> None)
       (bytes_of ''gov'') ''100'' ''20'' ''7200'' ''10'' ''1800'' None (Some '' .corp.net,,.x.lan '') = Ok m \<and>
     billing_handle ref_sdk sample_ctx sample_ledger m = Ok (st', r) \<and> lg_Params st' = Some p' \<and>
     AllowedList p' = AllowedList DefaultParams \<and> ReservedDomainSuffixes p' = [''.corp.net'', ''.x.lan'']"
proof -
  let ?p = "DefaultParams\<lparr>MinLeaseDuration := 7200, ReservedDomainSuffixes := [''.corp.net'', ''.x.lan'']\<rparr>"
  let ?m = "UpdateParamsMsg \<lparr>upd_Authority = ''manifest1gov'', upd_Params = ?p\<rparr>"
  have p: "lg_Params sample_ledger = Some DefaultParams" by (simp add: sample_ledger_def)
  have t: "splitAndTrim '' .corp.net,,.x.lan '' = [''.corp.net'', ''.x.lan'']" by code_simp
  have n: "ParseUint64 ''100'' = Some 100" "ParseUint64 ''20'' = Some 20" "ParseUint64 ''7200'' = Some 7200"
    "ParseUint64 ''10'' = Some 10" "ParseUint64 ''1800'' = Some 1800" by code_simp+
  have a: "AccAddressString ref_sdk (bytes_of ''gov'') = ''manifest1gov''"
    by (simp add: ref_sdk_def ref_encode_def ref_hrp_def bytes_of_def) code_simp
  have m: "NewUpdateParamsCmd ref_sdk (case Query_Params sample_ledger of Ok q \<Rightarrow> Some q | _ \<Rightarrow> None)
       (bytes_of ''gov'') ''100'' ''20'' ''7200'' ''10'' ''1800'' None (Some '' .corp.net,,.x.lan '') = Ok ?m"
    using p by (simp add: NewUpdateParamsCmd_def Query_Params_def GetParams_def n listFlag_def t a DefaultParams_def)
  have v: "Params_Validate ref_sdk ?p = Ok ()" by code_simp
  then obtain st' r where h: "billing_handle ref_sdk sample_ctx sample_ledger ?m = Ok (st', r)"
    by (simp add: UpdateParams_def MsgUpdateParams_ValidateBasic_def ref_eval) (simp add: sample_ledger_def)
  from update_params_cmd_preserves [OF p m h] m h t show ?thesis by auto
qed

end
