(* ===== verification/Client_Queries.thy ===== *)
theory Client_Queries
  imports Client Query_Props Sku_Queries
begin

text \<open>
  The query commands of the modules (\<open>x/billing/client/cli/query.go\<close>,
  \<open>x/sku/client/cli/query.go\<close>): how a command turns its arguments and flags into a request, and
  what it prints.  A command is its \<open>RunE\<close> function with the state the queried node holds; its
  result is the response it prints.  The helpers of the SDK that read the pagination flags are
  the parameters \<open>rp\<close> (\<open>client.ReadPageRequest\<close>) and \<open>dk\<close> (\<open>client.FlagSetWithPageKeyDecoded\<close>).
\<close>

section \<open>Pagination flags\<close>

record pageFlags =
  \<comment> \<open>the flags \<open>flags.AddPaginationFlagsToCmd\<close> adds to a command\<close>
  pf_PageKey :: string
  pf_Offset :: u64
  pf_Limit :: u64
  pf_CountTotal :: bool
  pf_Page :: u64
  pf_Reverse :: bool

type_synonym read_page = "pageFlags \<Rightarrow> PageRequest option"
type_synonym decode_key = "pageFlags \<Rightarrow> pageFlags option"

definition asked :: "(status, 'a) result \<Rightarrow> (cli_error, 'a) result" where
  \<comment> \<open>what the query client returns: the node answers a failed or panicking query with an error\<close>
  "asked r = (case r of Ok res \<Rightarrow> Ok res | _ \<Rightarrow> Err QueryFailed)"

section \<open>Billing\<close>

definition GetParamsCmd :: "'x ledger \<Rightarrow> (cli_error, Params) result" where
  "GetParamsCmd st = asked (Query_Params st)"

definition GetLeaseCmd :: "'x ledger \<Rightarrow> string \<Rightarrow> (cli_error, Lease) result" where
  "GetLeaseCmd st leaseUUID =
     (if \<not> IsValidUUID leaseUUID then Err BadUUID else asked (Query_Lease st (Some leaseUUID)))"

definition GetLeasesCmd ::
  "u64 \<Rightarrow> ((string, Lease) kv \<Rightarrow> PageRequest option \<Rightarrow> (get_error, Lease list \<times> PageResponse) result)
   \<Rightarrow> read_page \<Rightarrow> 'x ledger \<Rightarrow> string \<Rightarrow> pageFlags \<Rightarrow> (cli_error, Lease list \<times> PageResponse) result" where
  "GetLeasesCmd dl cp rp st stateStr flags =
     andThen (parseLeaseState stateStr) (\<lambda>stateFilter.
     andThen (okOr (rp flags) BadNumber) (\<lambda>pageReq.
     asked (Query_Leases dl cp st (Some \<lparr>ql_Pagination = Some pageReq, ql_StateFilter = stateFilter\<rparr>))))"

definition GetLeasesByTenantCmd ::
  "'x sdk \<Rightarrow> u64 \<Rightarrow> read_page \<Rightarrow> 'x ledger \<Rightarrow> string \<Rightarrow> string \<Rightarrow> pageFlags
   \<Rightarrow> (cli_error, Lease list \<times> PageResponse) result" where
  "GetLeasesByTenantCmd E dl rp st tenant stateStr flags =
     andThen (parseLeaseState stateStr) (\<lambda>stateFilter.
     andThen (okOr (rp flags) BadNumber) (\<lambda>pageReq.
     asked (Query_LeasesByTenant E dl st
       (Some \<lparr>qlb_Of = tenant, qlb_Pagination = Some pageReq, qlb_StateFilter = stateFilter\<rparr>))))"

definition GetLeasesByProviderCmd ::
  "u64 \<Rightarrow> read_page \<Rightarrow> 'x ledger \<Rightarrow> string \<Rightarrow> string \<Rightarrow> pageFlags
   \<Rightarrow> (cli_error, Lease list \<times> PageResponse) result" where
  "GetLeasesByProviderCmd dl rp st providerUUID stateStr flags =
     (if \<not> IsValidUUID providerUUID then Err BadUUID
      else
        andThen (parseLeaseState stateStr) (\<lambda>stateFilter.
        andThen (okOr (rp flags) BadNumber) (\<lambda>pageReq.
        asked (Query_LeasesByProvider dl st
          (Some \<lparr>qlb_Of = providerUUID, qlb_Pagination = Some pageReq, qlb_StateFilter = stateFilter\<rparr>)))))"

definition GetCreditAccountCmd :: "'x sdk \<Rightarrow> 'x ledger \<Rightarrow> string \<Rightarrow> (cli_error, QueryCreditAccountResponse) result" where
  "GetCreditAccountCmd E st tenant = asked (Query_CreditAccount E st (Some tenant))"

definition GetCreditAddressCmd :: "'x sdk \<Rightarrow> string \<Rightarrow> (cli_error, string) result" where
  "GetCreditAddressCmd E tenant = asked (Query_CreditAddress E (Some tenant))"

definition GetWithdrawableAmountCmd :: "'x sdk \<Rightarrow> block_ctx \<Rightarrow> 'x ledger \<Rightarrow> string \<Rightarrow> (cli_error, coins) result" where
  "GetWithdrawableAmountCmd E ctx st leaseUUID =
     (if \<not> IsValidUUID leaseUUID then Err BadUUID else asked (Query_WithdrawableAmount E ctx st (Some leaseUUID)))"

definition GetProviderWithdrawableCmd ::
  "'x sdk \<Rightarrow> block_ctx \<Rightarrow> 'x ledger \<Rightarrow> string \<Rightarrow> u64 \<Rightarrow> (cli_error, QueryProviderWithdrawableResponse) result" where
  "GetProviderWithdrawableCmd E ctx st providerUUID limit =
     (if \<not> IsValidUUID providerUUID then Err BadUUID
      else asked (Query_ProviderWithdrawable E ctx st (Some (providerUUID, limit))))"

definition GetCreditAccountsCmd ::
  "((addr, CreditAccount) kv \<Rightarrow> PageRequest option \<Rightarrow> (get_error, CreditAccount list \<times> PageResponse) result)
   \<Rightarrow> read_page \<Rightarrow> 'x ledger \<Rightarrow> pageFlags \<Rightarrow> (cli_error, CreditAccount list \<times> PageResponse) result" where
  "GetCreditAccountsCmd cp rp st flags =
     andThen (okOr (rp flags) BadNumber) (\<lambda>pageReq.
     asked (Query_CreditAccounts cp st (Some (Some pageReq))))"

definition GetLeasesBySKUCmd ::
  "u64 \<Rightarrow> read_page \<Rightarrow> 'x ledger \<Rightarrow> string \<Rightarrow> string \<Rightarrow> pageFlags
   \<Rightarrow> (cli_error, Lease list \<times> PageResponse) result" where
  "GetLeasesBySKUCmd dl rp st skuUUID stateStr flags =
     (if \<not> IsValidUUID skuUUID then Err BadUUID
      else
        andThen (parseLeaseState stateStr) (\<lambda>stateFilter.
        andThen (okOr (rp flags) BadNumber) (\<lambda>pageReq.
        asked (Query_LeasesBySKU dl st
          (Some \<lparr>qlb_Of = skuUUID, qlb_Pagination = Some pageReq, qlb_StateFilter = stateFilter\<rparr>)))))"

definition GetCreditEstimateCmd :: "'x sdk \<Rightarrow> 'x ledger \<Rightarrow> string \<Rightarrow> (cli_error, QueryCreditEstimateResponse) result" where
  "GetCreditEstimateCmd E st tenant = asked (Query_CreditEstimate E st (Some tenant))"

definition GetLeaseByCustomDomainCmd :: "'x ledger \<Rightarrow> string \<Rightarrow> (cli_error, Lease \<times> string) result" where
  "GetLeaseByCustomDomainCmd st domain = asked (Query_LeaseByCustomDomain st (Some domain))"

section \<open>SKU\<close>

definition GetCmdQueryParams :: "sku_state \<Rightarrow> (cli_error, SkuParams) result" where
  "GetCmdQueryParams st = asked (sku_Query_Params st (Some ()))"

definition GetCmdQueryProvider :: "sku_state \<Rightarrow> string \<Rightarrow> (cli_error, Provider) result" where
  "GetCmdQueryProvider st uuid = asked (Query_Provider st (Some uuid))"

definition decodedPage :: "decode_key \<Rightarrow> read_page \<Rightarrow> pageFlags \<Rightarrow> (cli_error, PageRequest) result" where
  "decodedPage dk rp flags = andThen (okOr (dk flags) BadNumber) (\<lambda>flagSet. okOr (rp flagSet) BadNumber)"

definition GetCmdQueryProviders ::
  "u64 \<Rightarrow> Provider collection_paginate \<Rightarrow> decode_key \<Rightarrow> read_page \<Rightarrow> sku_state \<Rightarrow> bool \<Rightarrow> pageFlags
   \<Rightarrow> (cli_error, Provider list \<times> PageResponse) result" where
  "GetCmdQueryProviders dl cp dk rp st activeOnly flags =
     andThen (decodedPage dk rp flags) (\<lambda>pageReq.
     asked (Query_Providers dl cp st (Some \<lparr>qps_Pagination = Some pageReq, qps_ActiveOnly = activeOnly\<rparr>)))"

definition GetCmdQuerySKU :: "sku_state \<Rightarrow> string \<Rightarrow> (cli_error, SKU) result" where
  "GetCmdQuerySKU st uuid = asked (Query_SKU st (Some uuid))"

definition GetCmdQuerySKUs ::
  "u64 \<Rightarrow> SKU collection_paginate \<Rightarrow> decode_key \<Rightarrow> read_page \<Rightarrow> sku_state \<Rightarrow> bool \<Rightarrow> pageFlags
   \<Rightarrow> (cli_error, SKU list \<times> PageResponse) result" where
  "GetCmdQuerySKUs dl cp dk rp st activeOnly flags =
     andThen (decodedPage dk rp flags) (\<lambda>pageReq.
     asked (Query_SKUs dl cp st (Some \<lparr>qps_Pagination = Some pageReq, qps_ActiveOnly = activeOnly\<rparr>)))"

definition GetCmdQuerySKUsByProvider ::
  "u64 \<Rightarrow> decode_key \<Rightarrow> read_page \<Rightarrow> sku_state \<Rightarrow> string \<Rightarrow> bool \<Rightarrow> pageFlags
   \<Rightarrow> (cli_error, SKU list \<times> PageResponse) result" where
  "GetCmdQuerySKUsByProvider dl dk rp st providerUUID activeOnly flags =
     andThen (decodedPage dk rp flags) (\<lambda>pageReq.
     asked (Query_SKUsByProvider dl st
       (Some \<lparr>qsp_ProviderUuid = providerUUID, qsp_Pagination = Some pageReq, qsp_ActiveOnly = activeOnly\<rparr>)))"

definition GetCmdQueryProviderByAddress ::
  "'x sdk \<Rightarrow> u64 \<Rightarrow> decode_key \<Rightarrow> read_page \<Rightarrow> sku_state \<Rightarrow> string \<Rightarrow> bool \<Rightarrow> pageFlags
   \<Rightarrow> (cli_error, Provider list \<times> PageResponse) result" where
  "GetCmdQueryProviderByAddress E dl dk rp st address activeOnly flags =
     andThen (decodedPage dk rp flags) (\<lambda>pageReq.
     asked (Query_ProviderByAddress E dl st
       (Some \<lparr>qpa_Address = address, qpa_Pagination = Some pageReq, qpa_ActiveOnly = activeOnly\<rparr>)))"

section \<open>The flag helpers of the SDK\<close>

text \<open>
  What the SDK documents: \<open>ReadPageRequest\<close> takes the page key as it is and the other values
  from their flags, \<open>FlagSetWithPageKeyDecoded\<close> replaces a page key in base64 (\<open>b64\<close>) by the
  bytes it stands for, and refuses anything else.
\<close>

locale page_flags =
  fixes rp :: read_page and dk :: decode_key and b64 :: "string \<Rightarrow> string"
  assumes rp_key: "rp (f\<lparr>pf_PageKey := k\<rparr>) = map_option (\<lambda>r. r\<lparr>pr_Key := k\<rparr>) (rp f)"
    and dk_key: "dk (f\<lparr>pf_PageKey := b64 k\<rparr>) = Some (f\<lparr>pf_PageKey := k\<rparr>)"
    and b64_length: "length (b64 k) = 4 * ((length k + 2) div 3)"
begin

lemma rp_pageKey: "rp f = Some r \<Longrightarrow> pr_Key r = pf_PageKey f"
  using rp_key [where f = f and k = "pf_PageKey f"] by (cases "rp f") (auto dest: arg_cong [where f = pr_Key])

lemma b64_Nil: "b64 [] = []"
  using b64_length [of "[]"] by simp

lemma decoded_key:
  "rp f = Some r \<Longrightarrow> decodedPage dk rp (f\<lparr>pf_PageKey := b64 k\<rparr>) = Ok (r\<lparr>pr_Key := k\<rparr>)"
  by (simp add: decodedPage_def dk_key rp_key)

end

text \<open>A reference implementation: base64 with padding and the two helpers.\<close>

definition b64_alphabet :: string where
  "b64_alphabet = ''ABCDEFGHIJKLMNOPQRSTUVWXYZabcdefghijklmnopqrstuvwxyz0123456789+/''"

definition sextet :: "nat \<Rightarrow> char" where
  "sextet n = b64_alphabet ! n"

definition unsextet :: "char \<Rightarrow> nat option" where
  "unsextet c = find (\<lambda>n. sextet n = c) [0..<64]"

fun ref_b64 :: "string \<Rightarrow> string" where
  "ref_b64 [] = []"
| "ref_b64 [a] = (let x = of_char a in [sextet (x div 4), sextet (x mod 4 * 16), CHR ''='', CHR ''=''])"
| "ref_b64 [a, b] =
     (let x = of_char a; y = of_char b
      in [sextet (x div 4), sextet (x mod 4 * 16 + y div 16), sextet (y mod 16 * 4), CHR ''=''])"
| "ref_b64 (a # b # c # cs) =
     (let x = of_char a; y = of_char b; z = of_char c
      in sextet (x div 4) # sextet (x mod 4 * 16 + y div 16) # sextet (y mod 16 * 4 + z div 64) #
           sextet (z mod 64) # ref_b64 cs)"

fun ref_unb64 :: "string \<Rightarrow> string option" where
  "ref_unb64 [] = Some []"
| "ref_unb64 (p # q # r # s # cs) =
     (case (unsextet p, unsextet q, unsextet r, unsextet s) of
        (Some i, Some j, Some k, Some l) \<Rightarrow>
          map_option (\<lambda>ds. char_of (i * 4 + j div 16) # char_of (j mod 16 * 16 + k div 4) #
            char_of (k mod 4 * 64 + l) # ds) (ref_unb64 cs)
      | (Some i, Some j, Some k, None) \<Rightarrow>
          if s = CHR ''='' \<and> cs = [] then Some [char_of (i * 4 + j div 16), char_of (j mod 16 * 16 + k div 4)] else None
      | (Some i, Some j, None, None) \<Rightarrow>
          if r = CHR ''='' \<and> s = CHR ''='' \<and> cs = [] then Some [char_of (i * 4 + j div 16)] else None
      | _ \<Rightarrow> None)"
| "ref_unb64 _ = None"

definition ref_read_page :: read_page where
  "ref_read_page f =
     (if pf_Page f > 1 \<and> pf_Offset f > 0 then None
      else Some \<lparr>pr_Key = pf_PageKey f, pr_Offset = (if pf_Page f > 1 then (pf_Page f - 1) * pf_Limit f else pf_Offset f),
        pr_Limit = pf_Limit f, pr_CountTotal = pf_CountTotal f, pr_Reverse = pf_Reverse f\<rparr>)"

definition ref_decode_key :: decode_key where
  "ref_decode_key f = map_option (\<lambda>k. f\<lparr>pf_PageKey := k\<rparr>) (ref_unb64 (pf_PageKey f))"

lemma unsextet_sextet [simp]: "n < 64 \<Longrightarrow> unsextet (sextet n) = Some n"
proof -
  have "list_all (\<lambda>n. unsextet (sextet n) = Some n) [0..<64]" by code_simp
  then show "n < 64 \<Longrightarrow> unsextet (sextet n) = Some n" by (simp add: list_all_iff)
qed

lemma unsextet_pad [simp]: "unsextet (CHR ''='') = None"
  by code_simp

lemma split_join: "q < m \<Longrightarrow> (p * m + q) div m = p" "q < m \<Longrightarrow> (p * m + q) mod m = (q :: nat)"
  by simp_all

lemma sextets:
  fixes x y z :: nat
  assumes "x < 256" and "y < 256" and "z < 256"
  shows "x div 4 < 64" "x mod 4 * 16 + y div 16 < 64" "y mod 16 * 4 + z div 64 < 64" "z mod 64 < 64"
    and "x div 4 * 4 + (x mod 4 * 16 + y div 16) div 16 = x"
    and "(x mod 4 * 16 + y div 16) mod 16 * 16 + (y mod 16 * 4 + z div 64) div 4 = y"
    and "(y mod 16 * 4 + z div 64) mod 4 * 64 + z mod 64 = z"
proof -
  have d: "x div 4 < 64" "y div 16 < 16" "z div 64 < 4"
    using assms by (auto intro!: less_mult_imp_div_less)
  moreover have "x mod 4 < 4" "y mod 16 < 16" by simp_all
  ultimately show "x div 4 < 64" "x mod 4 * 16 + y div 16 < 64" "y mod 16 * 4 + z div 64 < 64" "z mod 64 < 64"
    by linarith+
  show "x div 4 * 4 + (x mod 4 * 16 + y div 16) div 16 = x"
    "(x mod 4 * 16 + y div 16) mod 16 * 16 + (y mod 16 * 4 + z div 64) div 4 = y"
    "(y mod 16 * 4 + z div 64) mod 4 * 64 + z mod 64 = z"
    unfolding split_join [OF d(2)] split_join [OF d(3)] by (rule div_mult_mod_eq)+
qed

lemma unb64_block:
  "x div 4 < 64 \<Longrightarrow> x' < 64 \<Longrightarrow> y' < 64 \<Longrightarrow> z' < 64 \<Longrightarrow>
   ref_unb64 (sextet (x div 4) # sextet x' # sextet y' # sextet z' # cs) =
     map_option (\<lambda>ds. char_of (x div 4 * 4 + x' div 16) # char_of (x' mod 16 * 16 + y' div 4) #
       char_of (y' mod 4 * 64 + z') # ds) (ref_unb64 cs)"
  by simp

lemma unb64_pads:
  "i < 64 \<Longrightarrow> j < 64 \<Longrightarrow> k < 64 \<Longrightarrow> ref_unb64 [sextet i, sextet j, sextet k, CHR ''=''] =
     Some [char_of (i * 4 + j div 16), char_of (j mod 16 * 16 + k div 4)]"
  "i < 64 \<Longrightarrow> j < 64 \<Longrightarrow> ref_unb64 [sextet i, sextet j, CHR ''='', CHR ''=''] = Some [char_of (i * 4 + j div 16)]"
  by simp_all

lemma ref_unb64_b64: "ref_unb64 (ref_b64 s) = Some s"
proof (induction s rule: ref_b64.induct)
  case (2 a)
  have "(of_char a :: nat) < 256" by simp
  from sextets [OF this, of 0 0] show ?case unfolding ref_b64.simps Let_def by (subst unb64_pads(2)) simp_all
next
  case (3 a b)
  have "(of_char a :: nat) < 256" "(of_char b :: nat) < 256" by simp_all
  note b = sextets [OF this, of 0, unfolded div_0 add_0_right]
  have z: "(0 :: nat) < 256" by simp
  note b = b [OF z]
  show ?case unfolding ref_b64.simps Let_def
    by (subst unb64_pads(1) [OF b(1,2,3)]) (simp only: b char_of_char)
next
  case (4 a b c cs)
  have "(of_char a :: nat) < 256" "(of_char b :: nat) < 256" "(of_char c :: nat) < 256" by simp_all
  note b = sextets [OF this]
  show ?case unfolding ref_b64.simps Let_def
    by (subst unb64_block [OF b(1,2,3,4)]) (simp only: b char_of_char 4 option.map)
qed simp

lemma ref_b64_length: "length (ref_b64 s) = 4 * ((length s + 2) div 3)"
proof (induction s rule: ref_b64.induct)
  case (4 a b c cs)
  have "(length (a # b # c # cs) + 2) div 3 = Suc ((length cs + 2) div 3)" by simp
  with 4 show ?case by (simp add: Let_def)
qed (simp_all add: Let_def)

interpretation cli_flags: page_flags ref_read_page ref_decode_key ref_b64
  by unfold_locales (auto simp: ref_read_page_def ref_decode_key_def ref_unb64_b64 ref_b64_length)

section \<open>Following a next key on the command line\<close>

lemma dropWhile_key:
  "distinct (map fst es) \<Longrightarrow> drop n es = e # rest \<Longrightarrow> dropWhile (\<lambda>x. fst x \<noteq> fst e) es = drop n es"
proof (induction es arbitrary: n)
  case (Cons x es)
  show ?case
  proof (cases n)
    case (Suc m)
    with Cons.prems have "e \<in> set es" by (metis drop_Suc_Cons in_set_dropD list.set_intros(1))
    with Cons.prems(1) have "fst x \<noteq> fst e" by auto
    with Cons Suc show ?thesis by simp
  qed (use Cons.prems in simp)
qed simp

lemma dropWhile_absent: "k \<notin> fst ` set es \<Longrightarrow> dropWhile (\<lambda>x. fst x \<noteq> k) es = []"
  by (auto simp: dropWhile_eq_Nil_conv)

lemma ordered_keys:
  "distinct (map fst (ordered r es)) = distinct (map fst es)" "set (ordered r es) = set es"
  by (auto simp: ordered_def rev_map [symmetric] split: option.splits)

lemma page_list_next:
  assumes "distinct (map fst es)" and "drop n (ordered (Some r) es) = e # rest" and "fst e \<noteq> []"
  shows "fst (page_list dl None (Some (r\<lparr>pr_Key := fst e\<rparr>)) es) =
     map snd (take (page_limit dl r) (drop n (ordered (Some r) es)))"
proof -
  have o: "ordered (Some (r\<lparr>pr_Key := fst e\<rparr>)) es = ordered (Some r) es" by (simp add: ordered_def)
  have "dropWhile (\<lambda>x. fst x \<noteq> fst e) (ordered (Some r) es) = drop n (ordered (Some r) es)"
    using assms(1,2) by (intro dropWhile_key) (simp_all add: ordered_keys)
  then show ?thesis unfolding page_list_def o using assms(3) by (simp add: Let_def passes_def page_limit_def)
qed

lemma page_list_absent:
  "k \<noteq> [] \<Longrightarrow> k \<notin> fst ` set es \<Longrightarrow> page_list dl None (Some (r\<lparr>pr_Key := k\<rparr>)) es = ([], \<lparr>NextKey = [], Total = 0\<rparr>)"
  by (simp add: page_list_def Let_def dropWhile_absent ordered_keys)

lemma length_uuid: "IsValidUUID u \<Longrightarrow> length u = 36"
  by (auto simp: IsValidUUID_def IsValidUUIDv7_def uuidPattern_eq dest: list_all2_lengthD)

context page_flags
begin

lemma page_list_start:
  "rp f = Some r \<Longrightarrow> pf_PageKey f = [] \<Longrightarrow> pr_Offset r = 0 \<Longrightarrow> page_list dl None (Some r) es =
     (map snd (take (page_limit dl r) (ordered (Some r) es)),
      \<lparr>NextKey = (case drop (page_limit dl r) (ordered (Some r) es) of [] \<Rightarrow> [] | e # _ \<Rightarrow> fst e),
       Total = (if pr_CountTotal r then of_nat (length es) else 0)\<rparr>)"
  by (simp add: page_list_def Let_def rp_pageKey passes_def ordered_def)

lemma follow:
  assumes "rp f = Some r" and "pf_PageKey f = []" and "pr_Offset r = 0"
    and es: "distinct (map fst es)" "\<forall>e \<in> set es. fst e \<noteq> []"
  obtains p where "page_list dl None (Some r) es = (map snd (take (page_limit dl r) (ordered (Some r) es)), p)"
    and "page_limit dl r < length es \<Longrightarrow> NextKey p \<in> fst ` set es \<and> NextKey p \<noteq> [] \<and>
      fst (page_list dl None (Some (r\<lparr>pr_Key := NextKey p\<rparr>)) es) =
        map snd (take (page_limit dl r) (drop (page_limit dl r) (ordered (Some r) es)))"
proof -
  let ?n = "page_limit dl r" and ?os = "ordered (Some r) es"
  obtain p where p: "page_list dl None (Some r) es = (map snd (take ?n ?os), p)"
    "NextKey p = (case drop ?n ?os of [] \<Rightarrow> [] | e # _ \<Rightarrow> fst e)"
    using page_list_start [OF assms(1-3), of dl es] by simp
  have "NextKey p \<in> fst ` set es \<and> NextKey p \<noteq> [] \<and>
      fst (page_list dl None (Some (r\<lparr>pr_Key := NextKey p\<rparr>)) es) = map snd (take ?n (drop ?n ?os))"
    if "?n < length es"
  proof -
    have "length ?os = length es" by (simp add: ordered_def)
    with that obtain e rest where d: "drop ?n ?os = e # rest" by (cases "drop ?n ?os") auto
    have "e \<in> set ?os" by (rule in_set_dropD [of _ ?n]) (simp add: d)
    then have e: "e \<in> set es" by (simp add: ordered_keys)
    with es page_list_next [OF es(1) d, of dl] p(2) d show ?thesis by simp
  qed
  with p(1) show thesis by (rule that)
qed

lemma encoded_absent:
  assumes "\<forall>e \<in> set es. IsValidUUID (fst e)" and "k \<in> fst ` set es"
  shows "b64 k \<noteq> []" and "b64 k \<notin> fst ` set es"
proof -
  have "length (b64 k) = 48" using assms length_uuid by (auto simp: b64_length)
  then show "b64 k \<noteq> []" "b64 k \<notin> fst ` set es" using assms(1) length_uuid by fastforce+
qed

lemma decoded_start: "rp f = Some r \<Longrightarrow> pf_PageKey f = [] \<Longrightarrow> decodedPage dk rp f = Ok r"
  using decoded_key [of f r "[]"] rp_pageKey [of f r] by (cases f; cases r) (simp add: b64_Nil)

end

lemma LeasesByTenantCmd_page:
  assumes "billing_inv E st" and "tenant \<noteq> []" and "AccAddressFromBech32 E tenant = Some a"
    and "parseLeaseState s = Ok flt" and "rp f = Some r"
  shows "GetLeasesByTenantCmd E dl rp st tenant s f = Ok (page_list dl None (Some r)
    (filter (\<lambda>e. tenantAddr E (snd e) = Some a \<and> (flt \<noteq> LEASE_STATE_UNSPECIFIED \<longrightarrow> State (snd e) = flt)) (Leases st)))"
  using assms(2-5) lease_page [OF assms(1)]
  by (simp add: GetLeasesByTenantCmd_def Query_LeasesByTenant_def asked_def)

lemma SKUsByProvider_page:
  assumes "sku_inv E st" and "pu \<noteq> []" and "decodedPage dk rp f = Ok r"
  shows "GetCmdQuerySKUsByProvider dl dk rp st pu act f = Ok (page_list dl None (Some r)
    (filter (\<lambda>e. sku_ProviderUuid (snd e) = pu \<and> (act \<longrightarrow> sku_Active (snd e))) (SKUs st)))"
proof -
  note sku = index_page [OF sku_stores_paged(3,4) [OF assms(1)]]
  show ?thesis
    using sku [of dl "\<lambda>s. sku_ProviderUuid s = pu \<and> sku_Active s"] sku [of dl "\<lambda>s. sku_ProviderUuid s = pu"] assms(2,3)
    by (simp add: GetCmdQuerySKUsByProvider_def Query_SKUsByProvider_def asked_def SKUsProviderActiveIndex_def SKUsProviderIndex_def)
qed

lemma store_entries:
  assumes "kv_ok m" and "kv_get m [] = None"
  shows "distinct (map fst (filter P m))" and "\<forall>e \<in> set (filter P m). fst e \<noteq> []"
proof -
  have "distinct (map fst m)" using assms(1) by (simp add: kv_ok_def strict_sorted_iff)
  then show "distinct (map fst (filter P m))" by (rule distinct_map_filter)
  show "\<forall>e \<in> set (filter P m). fst e \<noteq> []" using assms(2) by (force simp: kv_get_None)
qed

text \<open>
  Claim C24.  The page key that a listing prints is in base64.  Passed back to \<open>--page-key\<close> it makes
  the SKU listing of a provider continue exactly where the first page ended.  The lease listing of a
  tenant continues only from the raw key: given the key as it was printed it reports an empty
  last page, without an error, although leases remain.
\<close>

theorem cli_page_keys:
  assumes "page_flags rp dk b64" and "rp f = Some r" and "pf_PageKey f = []" and "pr_Offset r = 0"
    and "billing_inv E st" and "kv_all (\<lambda>u _. IsValidUUID u) (Leases st)"
    and "tenant \<noteq> []" and "AccAddressFromBech32 E tenant = Some a" and "parseLeaseState s = Ok flt"
    and "sku_inv E sk" and "pu \<noteq> []"
    and ls: "ls = ordered (Some r) (filter (\<lambda>e. tenantAddr E (snd e) = Some a \<and>
          (flt \<noteq> LEASE_STATE_UNSPECIFIED \<longrightarrow> State (snd e) = flt)) (Leases st))"
    and ss: "ss = ordered (Some r) (filter (\<lambda>e. sku_ProviderUuid (snd e) = pu \<and> (act \<longrightarrow> sku_Active (snd e))) (SKUs sk))"
    and n: "n = page_limit dl r"
  shows "(\<exists>p. GetCmdQuerySKUsByProvider dl dk rp sk pu act f = Ok (map snd (take n ss), p) \<and>
       (n < length ss \<longrightarrow> (\<exists>p'. GetCmdQuerySKUsByProvider dl dk rp sk pu act (f\<lparr>pf_PageKey := b64 (NextKey p)\<rparr>) =
          Ok (map snd (take n (drop n ss)), p')))) \<and>
     (\<exists>p. GetLeasesByTenantCmd E dl rp st tenant s f = Ok (map snd (take n ls), p) \<and>
       (n < length ls \<longrightarrow>
          (\<exists>p'. GetLeasesByTenantCmd E dl rp st tenant s (f\<lparr>pf_PageKey := NextKey p\<rparr>) = Ok (map snd (take n (drop n ls)), p')) \<and>
          GetLeasesByTenantCmd E dl rp st tenant s (f\<lparr>pf_PageKey := b64 (NextKey p)\<rparr>) =
            Ok ([], \<lparr>NextKey = [], Total = 0\<rparr>)))"
proof -
  let ?ss = "filter (\<lambda>e. sku_ProviderUuid (snd e) = pu \<and> (act \<longrightarrow> sku_Active (snd e))) (SKUs sk)"
  let ?ls = "filter (\<lambda>e. tenantAddr E (snd e) = Some a \<and> (flt \<noteq> LEASE_STATE_UNSPECIFIED \<longrightarrow> State (snd e) = flt)) (Leases st)"
  have len: "length ss = length ?ss" "length ls = length ?ls" by (simp_all add: ls ss ordered_def)
  note key = page_flags.rp_key [OF assms(1), where f = f, unfolded assms(2) option.map]
  obtain p where p: "page_list dl None (Some r) ?ss = (map snd (take n ss), p)"
    "n < length ?ss \<Longrightarrow> fst (page_list dl None (Some (r\<lparr>pr_Key := NextKey p\<rparr>)) ?ss) = map snd (take n (drop n ss))"
    unfolding ss n by (rule page_flags.follow [OF assms(1-4) store_entries [OF sku_stores_paged(3,4) [OF assms(10)]]]) blast
  obtain q where q: "page_list dl None (Some r) ?ls = (map snd (take n ls), q)"
    "n < length ?ls \<Longrightarrow> NextKey q \<in> fst ` set ?ls \<and>
      fst (page_list dl None (Some (r\<lparr>pr_Key := NextKey q\<rparr>)) ?ls) = map snd (take n (drop n ls))"
    unfolding ls n by (rule page_flags.follow [OF assms(1-4) store_entries [OF leases_paged [OF assms(5)]]]) blast
  have u: "\<forall>e \<in> set ?ls. IsValidUUID (fst e)" using assms(6) by (auto simp: kv_all_def)
  note sku = SKUsByProvider_page [OF assms(10,11)] and lease = LeasesByTenantCmd_page [OF assms(5,7-9), where rp = rp]
  have "GetCmdQuerySKUsByProvider dl dk rp sk pu act (f\<lparr>pf_PageKey := b64 (NextKey p)\<rparr>) =
      Ok (map snd (take n (drop n ss)), snd (page_list dl None (Some (r\<lparr>pr_Key := NextKey p\<rparr>)) ?ss))" if "n < length ss"
    using sku [OF page_flags.decoded_key [OF assms(1,2)]] p(2) that len by (simp add: prod_eq_iff)
  moreover have "GetLeasesByTenantCmd E dl rp st tenant s (f\<lparr>pf_PageKey := NextKey q\<rparr>) =
      Ok (map snd (take n (drop n ls)), snd (page_list dl None (Some (r\<lparr>pr_Key := NextKey q\<rparr>)) ?ls))" if "n < length ls"
    using lease [OF key] q(2) that len by (simp add: prod_eq_iff)
  moreover have "GetLeasesByTenantCmd E dl rp st tenant s (f\<lparr>pf_PageKey := b64 (NextKey q)\<rparr>) =
      Ok ([], \<lparr>NextKey = [], Total = 0\<rparr>)" if "n < length ls"
    using lease [OF key] page_list_absent [OF page_flags.encoded_absent [OF assms(1) u]] q(2) that len by simp
  ultimately show ?thesis
    using sku [OF page_flags.decoded_start [OF assms(1-3)]] lease [OF assms(2)] p(1) q(1) by auto
qed

definition sample_flags :: pageFlags where
  "sample_flags = \<lparr>pf_PageKey = [], pf_Offset = 0, pf_Limit = 1, pf_CountTotal = False, pf_Page = 1, pf_Reverse = False\<rparr>"

theorem cli_page_keys_witness:
  "\<exists>p. GetLeasesByTenantCmd ref_sdk 100 ref_read_page sample_ledger ''manifest1ten'' [] sample_flags = Ok ([sample_active], p) \<and>
     (\<exists>p'. GetLeasesByTenantCmd ref_sdk 100 ref_read_page sample_ledger ''manifest1ten'' []
        (sample_flags\<lparr>pf_PageKey := NextKey p\<rparr>) = Ok ([sample_pending], p')) \<and>
     GetLeasesByTenantCmd ref_sdk 100 ref_read_page sample_ledger ''manifest1ten'' []
        (sample_flags\<lparr>pf_PageKey := ref_b64 (NextKey p)\<rparr>) = Ok ([], \<lparr>NextKey = [], Total = 0\<rparr>)"
proof -
  let ?r = "\<lparr>pr_Key = [], pr_Offset = 0, pr_Limit = 1, pr_CountTotal = False, pr_Reverse = False\<rparr>"
  have r: "ref_read_page sample_flags = Some ?r" "pf_PageKey sample_flags = []" "pr_Offset ?r = 0"
    by (simp_all add: ref_read_page_def sample_flags_def)
  have v: "kv_all (\<lambda>u _. IsValidUUID u) (Leases sample_ledger)"
    by (simp add: sample_ledger_def kv_all_def IsValidUUID_def)
  have d: "''manifest1ten'' \<noteq> []" "AccAddressFromBech32 ref_sdk ''manifest1ten'' = Some (bytes_of ''ten'')"
    "parseLeaseState [] = Ok LEASE_STATE_UNSPECIFIED" "sample_puuid \<noteq> []"
    by (simp_all add: sample_decode parseLeaseState_def ToLower_def sample_puuid_def)
  have ls: "ordered (Some ?r) (filter (\<lambda>e. tenantAddr ref_sdk (snd e) = Some (bytes_of ''ten'') \<and>
      (LEASE_STATE_UNSPECIFIED \<noteq> LEASE_STATE_UNSPECIFIED \<longrightarrow> State (snd e) = LEASE_STATE_UNSPECIFIED)) (Leases sample_ledger)) =
      [(sample_l1, sample_active), (sample_l2, sample_pending)]" "page_limit 100 ?r = 1"
    by (simp_all add: ordered_def page_limit_def sample_data tenantAddr_def)
  from cli_page_keys [OF cli_flags.page_flags_axioms r sample_billing_inv v d(1-3) sample_sku_inv d(4) refl refl refl,
      of 100 False, unfolded ls, THEN conjunct2]
  show ?thesis by simp
qed

end
