(* ===== verification/Msg_Filter.thy ===== *)
theory Msg_Filter
  imports Prelude
begin

text \<open>
  The ante decorator \<open>app/decorators/msg_filter.go\<close>, which rejects transactions that carry a
  blocked message type, also when it is wrapped in \<open>authz.MsgExec\<close> messages.  Of a message
  the filter sees its protobuf name and, for a \<open>MsgExec\<close>, what \<open>GetMessages\<close> returns:
  the wrapped messages or an error (\<open>None\<close>).
\<close>

section \<open>The decorator\<close>

datatype sdk_msg = SdkMsg string | MsgExec string "sdk_msg list option"

fun MessageName :: "sdk_msg \<Rightarrow> string" where
  "MessageName (SdkMsg n) = n"
| "MessageName (MsgExec n ms) = n"

record MsgFilterDecorator =
  blockedTypes :: "sdk_msg list"

definition FilterDecorator :: "sdk_msg list \<Rightarrow> MsgFilterDecorator" where
  "FilterDecorator blockedMsgTypes = \<lparr>blockedTypes = blockedMsgTypes\<rparr>"

fun blockedLoop :: "sdk_msg \<Rightarrow> sdk_msg list \<Rightarrow> bool" where
  "blockedLoop msg [] = False"
| "blockedLoop msg (blockedType # rest) =
     (if MessageName msg = MessageName blockedType then True else blockedLoop msg rest)"

function HasDisallowedMessage :: "MsgFilterDecorator \<Rightarrow> sdk_msg list \<Rightarrow> bool" where
  "HasDisallowedMessage mfd [] = False"
| "HasDisallowedMessage mfd (SdkMsg n # rest) =
     (if blockedLoop (SdkMsg n) (blockedTypes mfd) then True else HasDisallowedMessage mfd rest)"
| "HasDisallowedMessage mfd (MsgExec n None # rest) = True"
| "HasDisallowedMessage mfd (MsgExec n (Some msgs) # rest) =
     (if HasDisallowedMessage mfd msgs then True
      else if blockedLoop (MsgExec n (Some msgs)) (blockedTypes mfd) then True
      else HasDisallowedMessage mfd rest)"
  by pat_completeness auto
termination by (relation "measure (\<lambda>(_, ms). size_list size ms)") auto

definition AnteHandle ::
  "MsgFilterDecorator \<Rightarrow> int \<Rightarrow> (sdk_msg list \<Rightarrow> bool \<Rightarrow> (int, 'c) result) \<Rightarrow> sdk_msg list \<Rightarrow> bool \<Rightarrow> (int, 'c) result" where
  \<comment> \<open>the error carries the block height; \<open>next\<close> is the rest of the decorator chain\<close>
  "AnteHandle mfd blockHeight next tx simulate =
     (if HasDisallowedMessage mfd tx then Err blockHeight else next tx simulate)"

section \<open>Blocked at every depth\<close>

text \<open>A message occurs in a list when it is an element or wrapped, at any depth, in an
  execution message of the list.\<close>

inductive occurs :: "sdk_msg \<Rightarrow> sdk_msg list \<Rightarrow> bool" where
  here: "m \<in> set ms \<Longrightarrow> occurs m ms"
| wrapped: "MsgExec n (Some inner) \<in> set ms \<Longrightarrow> occurs m inner \<Longrightarrow> occurs m ms"

inductive_simps occurs_Nil [simp]: "occurs m []"

definition offends :: "MsgFilterDecorator \<Rightarrow> sdk_msg \<Rightarrow> bool" where
  "offends mfd m \<longleftrightarrow> MessageName m \<in> MessageName ` set (blockedTypes mfd) \<or> (\<exists>n. m = MsgExec n None)"

lemma blockedLoop_iff: "blockedLoop m bs \<longleftrightarrow> MessageName m \<in> MessageName ` set bs"
  by (induction bs) auto

lemma occurs_Cons:
  "occurs m (x # xs) \<longleftrightarrow> m = x \<or> (\<exists>n inner. x = MsgExec n (Some inner) \<and> occurs m inner) \<or> occurs m xs"
  using occurs.simps [of m "x # xs"] occurs.simps [of m xs] by auto

lemma disallowed_iff: "HasDisallowedMessage mfd ms \<longleftrightarrow> (\<exists>m. occurs m ms \<and> offends mfd m)"
  by (induction mfd ms rule: HasDisallowedMessage.induct)
    (auto simp: occurs_Cons blockedLoop_iff offends_def)

text \<open>
  Claim C30.  The filter passes a transaction on exactly when no message in it, wrapped at
  whatever depth in execution messages, has a blocked type, and every execution message
  in it can be unpacked; otherwise it fails with the height of the block and the rest of
  the chain is not run.
\<close>

theorem AnteHandle_filters:
  "AnteHandle (FilterDecorator bs) h next tx sim =
   (if \<exists>m. occurs m tx \<and> (MessageName m \<in> MessageName ` set bs \<or> (\<exists>n. m = MsgExec n None))
    then Err h else next tx sim)"
  by (simp add: AnteHandle_def FilterDecorator_def disallowed_iff offends_def)

end
