(* ===== verification/Lease_Board.thy ===== *)
theory Lease_Board
  imports Handlers_Props
begin

text \<open>
  An abstract specification of the message server of \<open>x/billing\<close>: a board that shows, for
  every lease identifier, the tenant, the provider and the state.  Each message has a
  specification as a step of the board, and every handler implements its step.
\<close>

section \<open>The board and its steps\<close>

type_synonym board = "string \<Rightarrow> (string \<times> string \<times> LeaseState) option"

definition board_of :: "'x ledger \<Rightarrow> board" where
  "board_of st = (\<lambda>u. map_option (\<lambda>l. (Tenant l, lease_ProviderUuid l, State l)) (kv_get (Leases st) u))"

definition advance :: "string set \<Rightarrow> LeaseState \<Rightarrow> board \<Rightarrow> board" where
  "advance us s b = (\<lambda>u. if u \<in> us then map_option (\<lambda>(t, p, _). (t, p, s)) (b u) else b u)"

definition moves :: "string set \<Rightarrow> LeaseState \<Rightarrow> LeaseState \<Rightarrow> board \<Rightarrow> board \<Rightarrow> bool" where
  \<comment> \<open>exactly the leases of \<open>us\<close>, all in state \<open>s\<close>, go to state \<open>s'\<close>\<close>
  "moves us s s' b b' \<longleftrightarrow> (\<forall>u \<in> us. \<exists>t p. b u = Some (t, p, s)) \<and> b' = advance us s' b"

definition closes :: "(string \<Rightarrow> string \<Rightarrow> bool) \<Rightarrow> board \<Rightarrow> board \<Rightarrow> bool" where
  \<comment> \<open>some active leases whose identifier and provider satisfy \<open>P\<close> are closed\<close>
  "closes P b b' \<longleftrightarrow> (\<forall>u. b' u = b u \<or> (\<exists>t p. b u = Some (t, p, LEASE_STATE_ACTIVE) \<and> P u p \<and>
     b' u = Some (t, p, LEASE_STATE_CLOSED)))"

fun board_step :: "billing_msg \<Rightarrow> board \<Rightarrow> board \<Rightarrow> bool" where
  "board_step (FundCreditMsg m) b b' = (b' = b)"
| "board_step (UpdateParamsMsg m) b b' = (b' = b)"
| "board_step (SetItemCustomDomainMsg m) b b' = (b' = b)"
| "board_step (CreateLeaseMsg m) b b' =
     (\<exists>u p. b u = None \<and> b' = b(u \<mapsto> (cl_Tenant m, p, LEASE_STATE_PENDING)))"
| "board_step (CreateLeaseForTenantMsg m) b b' =
     (\<exists>u p. b u = None \<and> b' = b(u \<mapsto> (clt_Tenant m, p, LEASE_STATE_PENDING)))"
| "board_step (AcknowledgeLeaseMsg m) b b' = moves (set (ack_LeaseUuids m)) LEASE_STATE_PENDING LEASE_STATE_ACTIVE b b'"
| "board_step (RejectLeaseMsg m) b b' = moves (set (rej_LeaseUuids m)) LEASE_STATE_PENDING LEASE_STATE_REJECTED b b'"
| "board_step (CancelLeaseMsg m) b b' = moves (set (can_LeaseUuids m)) LEASE_STATE_PENDING LEASE_STATE_REJECTED b b'"
| "board_step (CloseLeaseMsg m) b b' = moves (set (close_LeaseUuids m)) LEASE_STATE_ACTIVE LEASE_STATE_CLOSED b b'"
| "board_step (WithdrawMsg m) b b' =
     closes (\<lambda>u p. if w_ProviderUuid m = [] then u \<in> set (w_LeaseUuids m) else p = w_ProviderUuid m) b b'"

section \<open>Lemmas on boards\<close>

lemma board_cong: "Leases st' = Leases st \<Longrightarrow> board_of st' = board_of st"
  by (simp add: board_of_def)

lemma board_emit [simp]: "board_of (emit evs st) = board_of st"
  by (simp add: board_of_def)

lemma advance_empty [simp]: "advance {} s b = b"
  by (simp add: advance_def)

lemma advance_insert: "advance us s (advance {u} s b) = advance (insert u us) s b"
proof (rule ext)
  fix v
  show "advance us s (advance {u} s b) v = advance (insert u us) s b v" by (cases "b v") (auto simp: advance_def)
qed

lemma board_set:
  assumes "Leases st' = kv_set (lease_Uuid l) l' (Leases st)" and "kv_get (Leases st) (lease_Uuid l) = Some l"
    and "Tenant l' = Tenant l" and "lease_ProviderUuid l' = lease_ProviderUuid l"
  shows "board_of st' = advance {lease_Uuid l} (State l') (board_of st)"
  using assms by (auto simp: board_of_def advance_def fun_eq_iff)

lemma board_same:
  assumes "Leases st' = kv_set (lease_Uuid l) l' (Leases st)" and "kv_get (Leases st) (lease_Uuid l) = Some l"
    and "Tenant l' = Tenant l" and "lease_ProviderUuid l' = lease_ProviderUuid l" and "State l' = State l"
  shows "board_of st' = board_of st"
  using assms by (auto simp: board_of_def fun_eq_iff)

lemma moves_batch:
  assumes "stored st ls" and "\<forall>l \<in> set ls. State l = s" and "map lease_Uuid ls = us"
    and "b' = advance (lease_Uuid ` set ls) s' (board_of st)"
  shows "moves (set us) s s' (board_of st) b'"
proof -
  have us: "set us = lease_Uuid ` set ls" using assms(3) by auto
  from assms show ?thesis unfolding moves_def us by (auto simp: board_of_def stored_def)
qed

lemma persist_leases: "persistAccounts E st cas order = Ok st' \<Longrightarrow> Leases st' = Leases st"
proof (induction order arbitrary: st)
  case (Cons t order)
  then obtain st1 where "SetCreditAccount E st (account_of cas t) = Ok st1" "persistAccounts E st1 cas order = Ok st'"
    by auto
  with Cons.IH [of st1] SetCreditAccount_sel show ?case by fastforce
qed simp

lemma closes_refl [simp]: "closes P b b"
  by (simp add: closes_def)

lemma closes_trans: "closes P b b1 \<Longrightarrow> closes P b1 b2 \<Longrightarrow> closes P b b2"
  unfolding closes_def
proof
  fix u
  assume "\<forall>u. b1 u = b u \<or> (\<exists>t p. b u = Some (t, p, LEASE_STATE_ACTIVE) \<and> P u p \<and> b1 u = Some (t, p, LEASE_STATE_CLOSED))"
    and "\<forall>u. b2 u = b1 u \<or> (\<exists>t p. b1 u = Some (t, p, LEASE_STATE_ACTIVE) \<and> P u p \<and> b2 u = Some (t, p, LEASE_STATE_CLOSED))"
  from this [THEN spec, of u]
  show "b2 u = b u \<or> (\<exists>t p. b u = Some (t, p, LEASE_STATE_ACTIVE) \<and> P u p \<and> b2 u = Some (t, p, LEASE_STATE_CLOSED))"
    by auto
qed

lemma closes_weaken: "closes P b b' \<Longrightarrow> (\<And>u p. P u p \<Longrightarrow> Q u p) \<Longrightarrow> closes Q b b'"
  unfolding closes_def by blast

lemma closes_one:
  assumes "kv_get (Leases st) (lease_Uuid l) = Some l" and "State l = LEASE_STATE_ACTIVE"
    and "P (lease_Uuid l) (lease_ProviderUuid l)"
  shows "closes P (board_of st) (advance {lease_Uuid l} LEASE_STATE_CLOSED (board_of st))"
  using assms by (simp add: closes_def advance_def board_of_def)

section \<open>Batches\<close>

lemma acknowledgeLoop_board:
  assumes "acknowledgeLoop E t st cas ls = Ok (st', cas')" and "stored st ls" and "distinct (map lease_Uuid ls)"
  shows "board_of st' = advance (lease_Uuid ` set ls) LEASE_STATE_ACTIVE (board_of st)"
  using assms
proof (induction ls arbitrary: st cas)
  case (Cons l ls)
  let ?l = "l\<lparr>State := LEASE_STATE_ACTIVE, AcknowledgedAt := Some t, LastSettledAt := t\<rparr>"
  from Cons.prems(1) obtain st1 cas1 where st1: "SetLease E st ?l = Ok st1"
    and rest: "acknowledgeLoop E t st1 cas1 ls = Ok (st', cas')" by (auto simp: Let_def)
  from SetLease_sel(1) [OF st1] have s: "Leases st1 = kv_set (lease_Uuid l) ?l (Leases st)" by simp
  have "board_of st1 = advance {lease_Uuid l} LEASE_STATE_ACTIVE (board_of st)"
    using board_set [OF s] Cons.prems(2) by (simp add: stored_def)
  with Cons.IH [OF rest] stored_step [OF Cons.prems(2,3) disjI2 [OF s]] Cons.prems(3) show ?case
    by (simp add: advance_insert)
qed simp

lemma rejectLoop_board:
  assumes "rejectLoop E t reason md st cas ls = Ok (st', cas')" and "stored st ls" and "distinct (map lease_Uuid ls)"
  shows "board_of st' = advance (lease_Uuid ` set ls) LEASE_STATE_REJECTED (board_of st)"
  using assms
proof (induction ls arbitrary: st cas)
  case (Cons l ls)
  let ?l = "l\<lparr>State := LEASE_STATE_REJECTED, RejectedAt := Some t, RejectionReason := reason\<rparr>"
  from Cons.prems(1) obtain st1 cas1 where st1: "SetLease E st ?l = Ok st1"
    and rest: "rejectLoop E t reason md st1 cas1 ls = Ok (st', cas')" by (auto simp: Let_def)
  from SetLease_sel(1) [OF st1] have s: "Leases st1 = kv_set (lease_Uuid l) ?l (Leases st)" by simp
  have "board_of st1 = advance {lease_Uuid l} LEASE_STATE_REJECTED (board_of st)"
    using board_set [OF s] Cons.prems(2) by (simp add: stored_def)
  with Cons.IH [OF rest] stored_step [OF Cons.prems(2,3) disjI2 [OF s]] Cons.prems(3) show ?case
    by (simp add: advance_insert)
qed simp

lemma settleForClose_lease:
  assumes "settleForClose E ctx reason by' st l = Ok (st', l', cs, role, dur)"
  shows "Leases st' = Leases st" and "lease_Uuid l' = lease_Uuid l" and "Tenant l' = Tenant l"
    and "lease_ProviderUuid l' = lease_ProviderUuid l" and "State l' = LEASE_STATE_CLOSED"
  using assms settled_inv(2)
  by (fastforce simp: settleForClose_def settleLease_def PerformSettlement_def PerformSettlementSilent_def Let_def
      split: if_split_asm)+

lemma closeLoop_board:
  assumes "closeLoop E ctx reason by' md st cas tot evs ls = Ok (st', cas', x)"
    and "stored st ls" and "distinct (map lease_Uuid ls)"
  shows "board_of st' = advance (lease_Uuid ` set ls) LEASE_STATE_CLOSED (board_of st)"
  using assms
proof (induction ls arbitrary: st cas tot evs)
  case (Cons l ls)
  from Cons.prems(1) obtain st1 l' cs role dur st2 cas1 tot1 evs1
    where sc: "settleForClose E ctx reason by' st l = Ok (st1, l', cs, role, dur)"
      and st2: "SetLease E st1 l' = Ok st2"
      and rest: "closeLoop E ctx reason by' md st2 cas1 tot1 evs1 ls = Ok (st', cas', x)"
    by (auto simp: Let_def)
  note c = settleForClose_lease [OF sc]
  from SetLease_sel(1) [OF st2] c have s: "Leases st2 = kv_set (lease_Uuid l) l' (Leases st)" by simp
  have "board_of st2 = advance {lease_Uuid l} LEASE_STATE_CLOSED (board_of st)"
    using board_set [OF s] Cons.prems(2) c by (simp add: stored_def)
  with Cons.IH [OF rest] stored_step [OF Cons.prems(2,3) disjI2 [OF s]] Cons.prems(3) show ?case
    by (simp add: advance_insert)
qed simp

lemma AcknowledgeLease_board:
  assumes run: "AcknowledgeLease E ctx st msg = Ok (st', r)" and k: "keyed st"
  shows "board_step (AcknowledgeLeaseMsg msg) (board_of st) (board_of st')"
proof -
  from run obtain v cas st1 st2 evs where d: "distinct (ack_LeaseUuids msg)"
    and v: "validatePendingLeaseBatch E st (ack_LeaseUuids msg) = Ok v"
    and l: "acknowledgeLoop E (BlockTime ctx) st (plb_creditAccounts v) (plb_leases v) = Ok (st1, cas)"
    and p: "persistAccounts E st1 cas (plb_tenantOrder v) = Ok st2" and st': "st' = emit evs st2"
    by (auto simp: AcknowledgeLease_def Let_def MsgAcknowledgeLease_ValidateBasic_def ValidateBatchLeaseUUIDs_ok
        split: if_split_asm)
  note b = pending_batch_leases [OF v k]
  have "board_of st' = advance (lease_Uuid ` set (plb_leases v)) LEASE_STATE_ACTIVE (board_of st)"
    using acknowledgeLoop_board [OF l] b(1,2) d board_cong [OF persist_leases [OF p]] by (simp add: st')
  then show ?thesis using b by (simp add: moves_batch)
qed

lemma RejectLease_board:
  assumes run: "RejectLease E ctx st msg = Ok (st', r)" and k: "keyed st"
  shows "board_step (RejectLeaseMsg msg) (board_of st) (board_of st')"
proof -
  from run obtain md v cas st1 st2 evs where d: "distinct (rej_LeaseUuids msg)"
    and v: "validatePendingLeaseBatch E st (rej_LeaseUuids msg) = Ok v"
    and l: "rejectLoop E (BlockTime ctx) (rej_Reason msg) md st (plb_creditAccounts v) (plb_leases v) = Ok (st1, cas)"
    and p: "persistAccounts E st1 cas (plb_tenantOrder v) = Ok st2" and st': "st' = emit evs st2"
    by (auto simp: RejectLease_def Let_def MsgRejectLease_ValidateBasic_def ValidateBatchLeaseUUIDs_ok
        split: if_split_asm)
  note b = pending_batch_leases [OF v k]
  have "board_of st' = advance (lease_Uuid ` set (plb_leases v)) LEASE_STATE_REJECTED (board_of st)"
    using rejectLoop_board [OF l] b(1,2) d board_cong [OF persist_leases [OF p]] by (simp add: st')
  then show ?thesis using b by (simp add: moves_batch)
qed

context sdk_laws
begin

lemma CancelLease_board:
  assumes run: "CancelLease E ctx st msg = Ok (st', r)" and k: "keyed st"
  shows "board_step (CancelLeaseMsg msg) (board_of st) (board_of st')"
proof -
  from run obtain md ls ca ca' st1 st2 evs where us: "distinct (can_LeaseUuids msg)"
    and v: "validateCancelLoop st (can_Tenant msg) [] (can_LeaseUuids msg) = Ok ls"
    and l: "cancelLoop E (BlockTime ctx) md st ca ls = Ok (st1, ca')"
    and p: "SetCreditAccount E st1 ca' = Ok st2" and st': "st' = emit evs st2"
    by (auto simp: CancelLease_def Let_def MsgCancelLease_ValidateBasic_def ValidateBatchLeaseUUIDs_ok
        split: if_split_asm)
  from validateCancel_keyed [OF v k] have ls: "map lease_Uuid ls = can_LeaseUuids msg" "stored st ls"
    "\<forall>l \<in> set ls. State l = LEASE_STATE_PENDING \<and> Tenant l = can_Tenant msg" by auto
  have "rejectLoop E (BlockTime ctx) RejectionReasonCancelledByTenant md st [(can_Tenant msg, ca)] ls =
      Ok (st1, [(can_Tenant msg, ca')])"
    using cancelLoop_reject [OF l] ls(3) by simp
  from rejectLoop_board [OF this] ls us
  have "board_of st1 = advance (lease_Uuid ` set ls) LEASE_STATE_REJECTED (board_of st)" by simp
  moreover have "Leases st2 = Leases st1" using SetCreditAccount_sel [OF p] by auto
  ultimately show ?thesis using ls board_cong [of st2 st1] by (simp add: moves_batch st')
qed

end

lemma CloseLease_board:
  assumes run: "CloseLease E ctx st msg = Ok (st', r)" and k: "keyed st"
  shows "board_step (CloseLeaseMsg msg) (board_of st) (board_of st')"
proof -
  from run obtain v md st1 cas tot evs st2 evs2 where d: "distinct (close_LeaseUuids msg)"
    and v: "validateCloseLoop E st (close_Sender msg) \<lparr>cb_leases = [], cb_creditAccounts = [],
                cb_tenantOrder = [], cb_providerCache = [], cb_closedBy = []\<rparr> (close_LeaseUuids msg) = Ok v"
    and l: "closeLoop E ctx (close_Reason msg) (cb_closedBy v) md st (cb_creditAccounts v) [] [] (cb_leases v) =
       Ok (st1, cas, tot, evs)"
    and p: "persistAccounts E st1 cas (cb_tenantOrder v) = Ok st2" and st': "st' = emit evs2 st2"
    by (auto simp: CloseLease_def Let_def MsgCloseLease_ValidateBasic_def ValidateBatchLeaseUUIDs_ok
        split: if_split_asm)
  from validateClose_leases [OF v k] have b: "map lease_Uuid (cb_leases v) = close_LeaseUuids msg" "stored st (cb_leases v)"
    "\<forall>l \<in> set (cb_leases v). State l = LEASE_STATE_ACTIVE" by auto
  have "board_of st' = advance (lease_Uuid ` set (cb_leases v)) LEASE_STATE_CLOSED (board_of st)"
    using closeLoop_board [OF l] b d board_cong [OF persist_leases [OF p]] by (simp add: st')
  then show ?thesis using b by (simp add: moves_batch)
qed

section \<open>Withdrawals\<close>

lemma AutoCloseLease_board:
  assumes "AutoCloseLease E st l t md = Ok (st', l', cs)" and "kv_get (Leases st) (lease_Uuid l) = Some l"
    and "State l = LEASE_STATE_ACTIVE" and "P (lease_Uuid l) (lease_ProviderUuid l)"
  shows "closes P (board_of st) (board_of st')"
proof -
  note ac = AutoCloseLease_leases [OF assms(1)]
  have "board_of st' = advance {lease_Uuid l} LEASE_STATE_CLOSED (board_of st)"
    using board_set [OF ac(1) assms(2)] ac(2) by simp
  then show ?thesis using closes_one [OF assms(2,3), of P] assms(4) by simp
qed

lemma settled_board:
  assumes "performSettlementCore E st l t silent = Ok (st1, r)" and "kv_get (Leases st) (lease_Uuid l) = Some l"
    and "SetLease E st1 (l\<lparr>LastSettledAt := t\<rparr>) = Ok st'"
  shows "board_of st' = board_of st"
    and "Leases st' = kv_set (lease_Uuid l) (l\<lparr>LastSettledAt := t\<rparr>) (Leases st)"
proof -
  show l: "Leases st' = kv_set (lease_Uuid l) (l\<lparr>LastSettledAt := t\<rparr>) (Leases st)"
    using SetLease_sel(1) [OF assms(3)] settled_inv(2) [OF assms(1)] by simp
  show "board_of st' = board_of st" by (rule board_same [OF l assms(2)]) simp_all
qed

lemma withdrawLoop_board:
  assumes "withdrawLoop E ctx md st acc ls = Ok (st', acc')" and "stored st ls" and "distinct (map lease_Uuid ls)"
  shows "closes (\<lambda>u p. u \<in> lease_Uuid ` set ls) (board_of st) (board_of st')"
  using assms
proof (induction ls arbitrary: st acc)
  case (Cons l ls)
  let ?P = "\<lambda>u (p :: string). u \<in> lease_Uuid ` set (l # ls)"
  have l: "kv_get (Leases st) (lease_Uuid l) = Some l" using Cons.prems(2) by (simp add: stored_def)
  have next_: "closes ?P (board_of st) (board_of st')" if "withdrawLoop E ctx md st1 acc1 ls = Ok (st', acc')"
    "closes ?P (board_of st) (board_of st1)"
    "Leases st1 = Leases st \<or> Leases st1 = kv_set (lease_Uuid l) l' (Leases st)" for st1 acc1 l'
  proof -
    have "closes (\<lambda>u p. u \<in> lease_Uuid ` set ls) (board_of st1) (board_of st')"
      using Cons.IH [OF that(1)] stored_step [OF Cons.prems(2,3) that(3)] Cons.prems(3) by simp
    then have "closes ?P (board_of st1) (board_of st')" by (rule closes_weaken) simp
    with that(2) show ?thesis by (rule closes_trans)
  qed
  from Cons.prems(1) obtain close t where c: "autoClose_check E ctx st l = Ok (close, t)" by auto
  show ?case
  proof (cases close)
    case True
    with Cons.prems(1) c obtain st1 l' cs acc1 where ac: "AutoCloseLease E st l t md = Ok (st1, l', cs)"
      and rest: "withdrawLoop E ctx md st1 acc1 ls = Ok (st', acc')"
      by auto
    have "State l = LEASE_STATE_ACTIVE" using c True by (auto intro: autoClose_check_active)
    from next_ [OF rest AutoCloseLease_board [OF ac l this, of ?P] disjI2 [OF AutoCloseLease_leases(1) [OF ac]]]
    show ?thesis by simp
  next
    case False
    define ts where "ts = (case withdrawSettleTime ctx l of None \<Rightarrow> LastSettledAt l | Some t \<Rightarrow> t)"
    from False Cons.prems(1) c obtain st1 r where s: "performSettlementCore E st l ts False = Ok (st1, r)"
      and or: "withdrawLoop E ctx md st1 acc ls = Ok (st', acc') \<or>
        (\<exists>st2 acc2. SetLease E st1 (l\<lparr>LastSettledAt := ts\<rparr>) = Ok st2 \<and> withdrawLoop E ctx md st2 acc2 ls = Ok (st', acc'))"
      by (auto simp: PerformSettlement_def Let_def ts_def [symmetric] split: if_split_asm)
    from or show ?thesis
    proof
      assume "withdrawLoop E ctx md st1 acc ls = Ok (st', acc')"
      then show ?thesis using next_ [of st1] settled_inv(2) [OF s] board_cong [of st1 st] by simp
    next
      assume "\<exists>st2 acc2. SetLease E st1 (l\<lparr>LastSettledAt := ts\<rparr>) = Ok st2 \<and> withdrawLoop E ctx md st2 acc2 ls = Ok (st', acc')"
      then obtain st2 acc2 where st2: "SetLease E st1 (l\<lparr>LastSettledAt := ts\<rparr>) = Ok st2"
        and rest: "withdrawLoop E ctx md st2 acc2 ls = Ok (st', acc')" by blast
      note b = settled_board [OF s l st2]
      show ?thesis using next_ [OF rest _ disjI2 [OF b(2)]] b(1) by simp
    qed
  qed
qed simp

lemma withdrawOne_board:
  assumes "withdrawOne E ctx md st l = Ok s" and l: "kv_get (Leases st) (lease_Uuid l) = Some l"
    and P: "P (lease_Uuid l) (lease_ProviderUuid l)"
  shows "s = Settled st' cs \<Longrightarrow> closes P (board_of st) (board_of st')"
    and "s = AutoClosed st' cs \<Longrightarrow> closes P (board_of st) (board_of st')"
proof -
  from assms(1) obtain close t where c: "autoClose_check E ctx st l = Ok (close, t)"
    by (auto simp: withdrawOne_def)
  show "closes P (board_of st) (board_of st')" if "s = Settled st' cs"
  proof -
    from that assms(1) c obtain ts st1 r where
      "performSettlementCore E st l ts True = Ok (st1, r)" "SetLease E st1 (l\<lparr>LastSettledAt := ts\<rparr>) = Ok st'"
      by (auto simp: withdrawOne_def PerformSettlementSilent_def split: if_split_asm option.splits)
    then show ?thesis using settled_board(1) [OF _ l] by simp
  qed
  show "closes P (board_of st) (board_of st')" if "s = AutoClosed st' cs"
  proof -
    from that assms(1) c obtain st1 l' evs where c': "autoClose_check E ctx st l = Ok (True, t)"
      and ac: "AutoCloseLease E st l t md = Ok (st1, l', cs)" and st': "st' = emit evs st1"
      by (auto simp: withdrawOne_def split: if_split_asm option.splits)
    from AutoCloseLease_board [OF ac l autoClose_check_active [OF c'], of P] P show ?thesis by (simp add: st')
  qed
qed

lemma closes_provider:
  "closes P b b' \<Longrightarrow> b' u = Some (t, p, s) \<Longrightarrow> \<exists>s. b u = Some (t, p, s)"
  unfolding closes_def by (metis option.inject prod.inject)

context sdk_laws
begin

lemma providerLoop_board:
  "providerLoop E ctx md st tot n m us = Ok (st', r) \<Longrightarrow> keyed st \<Longrightarrow>
   \<forall>u \<in> set us. \<forall>t p s. board_of st u = Some (t, p, s) \<longrightarrow> p = pu \<Longrightarrow>
   closes (\<lambda>u p. p = pu) (board_of st) (board_of st')"
proof (induction us arbitrary: st tot n m)
  case (Cons u us)
  let ?P = "\<lambda>(u :: string) p. p = pu"
  have go: "closes ?P (board_of st) (board_of st')" if "closes ?P (board_of st) (board_of st1)" "keyed st1"
    "providerLoop E ctx md st1 tot1 n1 m1 us = Ok (st', r)" for st1 tot1 n1 m1
  proof -
    have "\<forall>u \<in> set us. \<forall>t p s. board_of st1 u = Some (t, p, s) \<longrightarrow> p = pu"
      using Cons.prems(3) closes_provider [OF that(1)] by fastforce
    from closes_trans [OF that(1) Cons.IH [OF that(3,2) this]] show ?thesis .
  qed
  show ?case
  proof (cases "kv_get (Leases st) u")
    case None
    with Cons.prems(1) have "providerLoop E ctx md st tot n m us = Ok (st', r)" by (simp add: GetLease_def)
    then show ?thesis by (rule go [OF closes_refl Cons.prems(2)])
  next
    case (Some l)
    note l = keyed_get [OF Cons.prems(2) Some] and u = keyed_uuid [OF Cons.prems(2) Some]
    have P: "lease_ProviderUuid l = pu" using Cons.prems(3) Some by (auto simp: board_of_def)
    from Cons.prems(1) Some consider "providerLoop E ctx md st tot n m us = Ok (st', r)"
      | s st1 cs tot1 n1 m1 where "withdrawOne E ctx md st l = Ok s" "s = Settled st1 cs \<or> s = AutoClosed st1 cs"
        "providerLoop E ctx md st1 tot1 n1 m1 us = Ok (st', r)"
      by (auto simp: GetLease_def split: result.splits withdrawStep.splits)
    then show ?thesis
    proof cases
      case 1
      then show ?thesis by (rule go [OF closes_refl Cons.prems(2)])
    next
      case 2
      have "micros E {} ctx st st1" using 2(2) withdrawOne_micros [OF 2(1) l] by blast
      then have "keyed st1" using Cons.prems(2) by (rule micros_keyed)
      moreover have "closes ?P (board_of st) (board_of st1)" using 2(2) withdrawOne_board [OF 2(1) l, of ?P] P by blast
      ultimately show ?thesis using go 2(3) by blast
    qed
  qed
qed simp

lemma Withdraw_board:
  assumes run: "Withdraw E ctx st msg = Ok (st', r)" and k: "keyed st"
  shows "board_step (WithdrawMsg msg) (board_of st) (board_of st')"
  using run
proof (cases rule: Withdraw_run)
  case (Leases md prov ls acc st1 evs)
  from validateWithdraw_keyed [OF Leases(2) k] have ls: "map lease_Uuid ls = w_LeaseUuids msg" "stored st ls" by auto
  then have "lease_Uuid ` set ls = set (w_LeaseUuids msg)" by (metis list.set_map)
  with withdrawLoop_board [OF Leases(3)] ls Leases(1,4,5) show ?thesis by simp
next
  case (Provider md us st1 x evs limit)
  have up: "set (fst (collectUpTo lim xs ys)) \<subseteq> set xs \<union> set ys" for lim xs ys
    by (induction lim xs ys rule: collectUpTo.induct) auto
  have "set us \<subseteq> set (leaseIndex (\<lambda>l. lease_ProviderUuid l = w_ProviderUuid msg \<and> State l = LEASE_STATE_ACTIVE) st) \<union>
      set (leaseIndex (\<lambda>l. lease_ProviderUuid l = w_ProviderUuid msg \<and> State l = LEASE_STATE_CLOSED) st)"
    (is "_ \<subseteq> set ?A \<union> set ?C")
  proof -
    obtain us1 more where one: "collectUpTo limit [] ?A = (us1, more)" by fastforce
    with up [of limit "[]" ?A] have "set us1 \<subseteq> set ?A" by simp
    with up [of limit us1 ?C] show ?thesis
      by (auto simp: Provider(4) collectProviderLeases_def one)
  qed
  moreover have "p = w_ProviderUuid msg"
    if "u \<in> set (leaseIndex (\<lambda>l. lease_ProviderUuid l = w_ProviderUuid msg \<and> State l = s) st)" "board_of st u = Some (t, p, s')" for u s t p s'
  proof -
    from that(1) obtain l where "(u, l) \<in> set (Leases st)" "lease_ProviderUuid l = w_ProviderUuid msg"
      by (auto simp: leaseIndex_def)
    then have "kv_get (Leases st) u = Some l" using k by (simp add: keyed_def kv_get_eq_Some)
    with that(2) \<open>lease_ProviderUuid l = w_ProviderUuid msg\<close> show ?thesis by (simp add: board_of_def)
  qed
  ultimately have "\<forall>u \<in> set us. \<forall>t p s. board_of st u = Some (t, p, s) \<longrightarrow> p = w_ProviderUuid msg" by blast
  from providerLoop_board [OF Provider(1) k this] Provider(2,3) show ?thesis by simp
qed

end

section \<open>The other messages\<close>

lemma FundCredit_board:
  assumes "FundCredit E st msg = Ok (st', x)"
  shows "board_of st' = board_of st"
proof -
  from assms obtain a b st2 ca st3 evs where
    c: "(case GetCreditAccount E (st\<lparr>bank := b\<rparr>) (fc_Tenant msg) of
            Ok ca \<Rightarrow> Ok (st\<lparr>bank := b\<rparr>, ca)
          | Err e \<Rightarrow>
              if e \<noteq> ErrCreditAccountNotFound then Err ErrInvalidCreditOperation
              else
                Ok (if \<not> HasAccount E b a then st\<lparr>bank := b\<rparr>\<lparr>bank := RegisterAccount E b a\<rparr> else st\<lparr>bank := b\<rparr>,
                    newCreditAccount E (fc_Tenant msg) a)
          | Panic \<Rightarrow> Panic) = Ok (st2, ca)"
    and st3: "SetCreditAccount E st2 ca = Ok st3" and st': "st' = emit evs st3"
    by (auto simp: FundCredit_def Let_def DeriveCreditAddressFromBech32_def)
  from c have "Leases st2 = Leases st" by (auto split: result.splits if_split_asm)
  moreover have "Leases st3 = Leases st2" using SetCreditAccount_sel [OF st3] by auto
  ultimately show ?thesis using board_cong [of st3 st] by (simp add: st')
qed

lemma UpdateParams_board: "UpdateParams E st msg = Ok st' \<Longrightarrow> board_of st' = board_of st"
  by (rule board_cong) (auto simp: UpdateParams_def SetParams_def split: if_split_asm)

lemma SetItemCustomDomain_board:
  assumes run: "SetItemCustomDomain E st msg = Ok st'" and k: "keyed st"
  shows "board_of st' = board_of st"
proof -
  from run obtain r0 where kp: "keeper_SetItemCustomDomain E st (scd_Sender msg) (scd_LeaseUuid msg)
      (scd_ServiceName msg) (scd_CustomDomain msg) = Ok (st', r0)"
    by (auto simp: SetItemCustomDomain_def)
  then obtain l role i d where l: "kv_get (Leases st) (scd_LeaseUuid msg) = Some l"
    and r: "clearItemDomain E st l i role = Ok (st', r0) \<or>
      claimItemDomain E st l i (scd_LeaseUuid msg) d role = Ok (st', r0)"
    by (auto simp: keeper_SetItemCustomDomain_def GetLease_def Let_def split: if_split_asm)
  have go: "board_of st1 = board_of st" if "SetLease E st (setItemDomain l i d) = Ok st1" for st1 d
    using board_same [of st1 l "setItemDomain l i d" st] SetLease_sel(1) [OF that] keyed_get [OF k l]
    by (simp add: setItemDomain_def)
  from r show ?thesis
  proof
    assume "clearItemDomain E st l i role = Ok (st', r0)"
    with go show ?thesis by (auto simp: clearItemDomain_def Let_def split: if_split_asm)
  next
    assume "claimItemDomain E st l i (scd_LeaseUuid msg) d role = Ok (st', r0)"
    with go show ?thesis by (auto simp: claimItemDomain_def Let_def split: if_split_asm option.splits)
  qed
qed

context sdk_laws
begin

lemma createLeaseInternal_board:
  assumes "createLeaseInternal E ctx st t ins mh = Ok (st', res)" and "kv_get (Leases st) (next_uuid ctx st) = None"
  shows "\<exists>u p. board_of st u = None \<and> board_of st' = (board_of st)(u \<mapsto> (t, p, LEASE_STATE_PENDING))"
proof (rule createLeaseInternal_run [OF assms(1)])
  fix p ca prov items rates ca' st2 and l :: Lease
  assume l: "l = \<lparr>lease_Uuid = next_uuid ctx st, Tenant = t, lease_ProviderUuid = (case prov of None \<Rightarrow> [] | Some p \<Rightarrow> p),
            Items = items, State = LEASE_STATE_PENDING, CreatedAt = BlockTime ctx, ClosedAt = None,
            LastSettledAt = BlockTime ctx, AcknowledgedAt = None, RejectedAt = None, RejectionReason = [],
            ExpiredAt = None, ClosureReason = [], lease_MetaHash = mh,
            MinLeaseDurationAtCreation = MinLeaseDuration p\<rparr>"
    and st2: "SetLease E (st\<lparr>LeaseSequence := LeaseSequence st + 1\<rparr>) l = Ok st2"
    and st3: "SetCreditAccount E st2 (ca'\<lparr>PendingLeaseCount := PendingLeaseCount ca' + 1\<rparr>) = Ok st'"
  have "Leases st' = kv_set (next_uuid ctx st) l (Leases st)"
    using SetLease_sel(1) [OF st2] SetCreditAccount_sel [OF st3] by (auto simp: l)
  then have "board_of st' = (board_of st)(next_uuid ctx st \<mapsto> (t, lease_ProviderUuid l, LEASE_STATE_PENDING))"
    by (auto simp: board_of_def fun_eq_iff l)
  with assms(2) show ?thesis by (auto simp: board_of_def)
qed

lemma billing_handle_board:
  assumes run: "billing_handle E ctx st m = Ok (st', r)" and k: "keyed st" and adm: "billing_adm E ctx st m"
  shows "board_step m (board_of st) (board_of st')"
proof (cases m)
  case (CreateLeaseMsg x)
  with run obtain st1 res where "createLeaseInternal E ctx st (cl_Tenant x) (cl_Items x) (cl_MetaHash x) = Ok (st1, res)"
    "board_of st' = board_of st1" by (auto simp: CreateLease_def emitLeaseCreatedEvent_def)
  with createLeaseInternal_board adm CreateLeaseMsg show ?thesis by (auto simp: billing_adm_def simp del: fun_upd_apply)
next
  case (CreateLeaseForTenantMsg x)
  with run obtain st1 res where "createLeaseInternal E ctx st (clt_Tenant x) (clt_Items x) (clt_MetaHash x) = Ok (st1, res)"
    "board_of st' = board_of st1" by (auto simp: CreateLeaseForTenant_def emitLeaseCreatedEvent_def split: if_split_asm)
  with createLeaseInternal_board adm CreateLeaseForTenantMsg show ?thesis
    by (auto simp: billing_adm_def simp del: fun_upd_apply)
next
  case (WithdrawMsg x)
  with run obtain w where "Withdraw E ctx st x = Ok (st', w)" by auto
  then show ?thesis unfolding WithdrawMsg using k by (rule Withdraw_board)
next
  case (CancelLeaseMsg x)
  with run k show ?thesis using CancelLease_board by auto
next
  case (AcknowledgeLeaseMsg x)
  with run k show ?thesis using AcknowledgeLease_board by auto
next
  case (RejectLeaseMsg x)
  with run k show ?thesis using RejectLease_board by auto
next
  case (CloseLeaseMsg x)
  with run k show ?thesis using CloseLease_board by auto
qed (use run k in \<open>auto dest: FundCredit_board UpdateParams_board SetItemCustomDomain_board\<close>)

end

text \<open>
  Claim C4.  Every message the billing module accepts is a step of the abstract board: it
  acknowledges, rejects, cancels or closes exactly the listed leases, all of which were in
  the right state; it adds one pending lease of the named tenant under an unused
  identifier; a withdrawal at most closes active leases among those listed, or of the
  named provider; every other message leaves the board as it was.
\<close>

theorem billing_refines_board:
  assumes "sdk_laws E" and "billing_inv E st" and "billing_adm E ctx st m"
    and "billing_handle E ctx st m = Ok (st', r)"
  shows "board_step m (board_of st) (board_of st')"
  using assms(2) by (intro sdk_laws.billing_handle_board [OF assms(1,4) _ assms(3)]) (simp add: billing_inv_def domain_inv_def)

theorem billing_refines_board_witness:
  "\<exists>st' r. billing_handle ref_sdk sample_ctx sample_ledger (AcknowledgeLeaseMsg sample_ack) = Ok (st', r) \<and>
     board_of st' sample_l2 = Some (''manifest1ten'', sample_puuid, LEASE_STATE_ACTIVE) \<and>
     board_of st' sample_l1 = board_of sample_ledger sample_l1"
proof -
  obtain st' r where run: "billing_handle ref_sdk sample_ctx sample_ledger (AcknowledgeLeaseMsg sample_ack) = Ok (st', r)"
    using sample_ack_ok by (auto elim: isOkE)
  have "billing_adm ref_sdk sample_ctx sample_ledger (AcknowledgeLeaseMsg sample_ack)" by (simp add: billing_adm_def)
  from billing_refines_board [OF ref.sdk_laws_axioms sample_billing_inv this run]
  have "board_of st' = advance {sample_l2} LEASE_STATE_ACTIVE (board_of sample_ledger)"
    by (simp add: moves_def sample_ack_def)
  moreover have "board_of sample_ledger sample_l2 = Some (''manifest1ten'', sample_puuid, LEASE_STATE_PENDING)"
    by (simp add: board_of_def sample_data kv_get_Cons)
  ultimately have "board_of st' sample_l2 = Some (''manifest1ten'', sample_puuid, LEASE_STATE_ACTIVE)"
    "board_of st' sample_l1 = board_of sample_ledger sample_l1" by (simp_all add: advance_def)
  with run show ?thesis by blast
qed

end
