(* ===== verification/Billing_Genesis.thy ===== *)
theory Billing_Genesis
  imports Billing_Inv Samples
begin

text \<open>
  Genesis of the billing module (\<open>types/genesis.go\<close>, \<open>InitGenesis\<close> and \<open>ExportGenesis\<close>
  of \<open>keeper.go\<close>): validation of a genesis file, its import into empty stores, and the
  export of the stores.
\<close>

section \<open>Validation (genesis.go)\<close>

record GenesisState =
  gs_Params :: Params
  gs_Leases :: "Lease list"
  gs_CreditAccounts :: "CreditAccount list"
  gs_LeaseSequence :: u64

definition DefaultGenesis :: GenesisState where
  "DefaultGenesis = \<lparr>gs_Params = DefaultParams, gs_Leases = [], gs_CreditAccounts = [], gs_LeaseSequence = 0\<rparr>"

definition NewGenesisState :: "Params \<Rightarrow> Lease list \<Rightarrow> CreditAccount list \<Rightarrow> u64 \<Rightarrow> GenesisState" where
  "NewGenesisState params leases creditAccounts leaseSequence =
     \<lparr>gs_Params = params, gs_Leases = leases, gs_CreditAccounts = creditAccounts, gs_LeaseSequence = leaseSequence\<rparr>"

fun genesisItemsLoop :: "'x sdk \<Rightarrow> nat \<Rightarrow> LeaseItem list \<Rightarrow> (billing_error, nat) result" where
  \<comment> \<open>the fields of every item, counting the service names\<close>
  "genesisItemsLoop E hasServiceName [] = Ok hasServiceName"
| "genesisItemsLoop E hasServiceName (item # items) =
     (if SkuUuid item = [] then Err ErrInvalidLease
      else if \<not> IsValidUUID (SkuUuid item) then Err ErrInvalidLease
      else if Quantity item = 0 then Err ErrInvalidLease
      else if \<not> CoinIsValid E (LockedPrice item) \<or> Amount (LockedPrice item) = 0 then Err ErrInvalidLease
      else genesisItemsLoop E (if ServiceName item \<noteq> [] then hasServiceName + 1 else hasServiceName) items)"

fun genesisNamesLoop :: "string set \<Rightarrow> LeaseItem list \<Rightarrow> billing_error checked" where
  "genesisNamesLoop seenNames [] = Ok ()"
| "genesisNamesLoop seenNames (item # items) =
     (if \<not> IsValidDNSLabel (ServiceName item) then Err ErrInvalidServiceName
      else if ServiceName item \<in> seenNames then Err ErrInvalidServiceName
      else genesisNamesLoop (insert (ServiceName item) seenNames) items)"

fun genesisSKUsLoop :: "string set \<Rightarrow> LeaseItem list \<Rightarrow> billing_error checked" where
  "genesisSKUsLoop seenSKUs [] = Ok ()"
| "genesisSKUsLoop seenSKUs (item # items) =
     (if SkuUuid item \<in> seenSKUs then Err ErrDuplicateSKU
      else genesisSKUsLoop (insert (SkuUuid item) seenSKUs) items)"

fun genesisDomainsLoop :: "string list \<Rightarrow> LeaseItem list \<Rightarrow> LeaseItem list \<Rightarrow> billing_error checked" where
  \<comment> \<open>over the items still to be checked; \<open>siblings\<close> are all items of the lease\<close>
  "genesisDomainsLoop reserved siblings [] = Ok ()"
| "genesisDomainsLoop reserved siblings (item # items) =
     (if CustomDomain item = [] then genesisDomainsLoop reserved siblings items
      else
        andThen (orErr (IsValidFQDN (CustomDomain item)) ErrInvalidCustomDomain) (\<lambda>_.
        if MatchesReservedSuffix (CustomDomain item) reserved then Err ErrInvalidCustomDomain
        else if length (filter (\<lambda>candidate. ServiceName candidate = ServiceName item) siblings) \<noteq> 1
        then Err ErrAmbiguousLeaseItem
        else genesisDomainsLoop reserved siblings items))"

definition genesisLease :: "'x sdk \<Rightarrow> string list \<Rightarrow> string set \<Rightarrow> Lease \<Rightarrow> billing_error checked" where
  \<comment> \<open>the body of the loop over the leases\<close>
  "genesisLease E reserved seenLeaseUUIDs lease =
     (if lease_Uuid lease = [] then Err ErrInvalidLease
      else if \<not> IsValidUUID (lease_Uuid lease) then Err ErrInvalidLease
      else if lease_Uuid lease \<in> seenLeaseUUIDs then Err ErrInvalidLease
      else if Tenant lease = [] then Err ErrInvalidLease
      else if AccAddressFromBech32 E (Tenant lease) = None then Err ErrInvalidLease
      else if lease_ProviderUuid lease = [] then Err ErrInvalidLease
      else if \<not> IsValidUUID (lease_ProviderUuid lease) then Err ErrInvalidLease
      else if Items lease = [] then Err ErrInvalidLease
      else
        andThen (genesisItemsLoop E 0 (Items lease)) (\<lambda>hasServiceName.
        if hasServiceName > 0 \<and> hasServiceName \<noteq> length (Items lease) then Err ErrInvalidServiceName
        else
          andThen (if hasServiceName > 0 then genesisNamesLoop {} (Items lease)
                   else genesisSKUsLoop {} (Items lease)) (\<lambda>_.
          andThen (genesisDomainsLoop reserved (Items lease) (Items lease)) (\<lambda>_.
          if State lease = LEASE_STATE_UNSPECIFIED then Err ErrInvalidLease
          else if length (lease_MetaHash lease) > MaxMetaHashLength then Err ErrInvalidMetaHash
          else if State lease = LEASE_STATE_CLOSED \<and> (ClosedAt lease = None \<or> ClosedAt lease = Some zeroTime)
          then Err ErrInvalidLease
          else Ok ()))))"

fun genesisLeasesLoop :: "'x sdk \<Rightarrow> string list \<Rightarrow> string set \<Rightarrow> Lease list \<Rightarrow> billing_error checked" where
  "genesisLeasesLoop E reserved seen [] = Ok ()"
| "genesisLeasesLoop E reserved seen (lease # leases) =
     andThen (genesisLease E reserved seen lease) (\<lambda>_.
     genesisLeasesLoop E reserved (insert (lease_Uuid lease) seen) leases)"

fun genesisAccountsLoop :: "'x sdk \<Rightarrow> string set \<Rightarrow> CreditAccount list \<Rightarrow> billing_error checked" where
  "genesisAccountsLoop E seenTenants [] = Ok ()"
| "genesisAccountsLoop E seenTenants (ca # cas) =
     (if ca_Tenant ca = [] then Err ErrInvalidCreditOperation
      else if ca_Tenant ca \<in> seenTenants then Err ErrInvalidCreditOperation
      else
        andThen (okOr (AccAddressFromBech32 E (ca_Tenant ca)) ErrInvalidCreditOperation) (\<lambda>tenantAddr.
        if CreditAddress ca = [] then Err ErrInvalidCreditOperation
        else if AccAddressFromBech32 E (CreditAddress ca) = None then Err ErrInvalidCreditOperation
        else if CreditAddress ca \<noteq> AccAddressString E (DeriveCreditAddress E tenantAddr)
        then Err ErrInvalidCreditOperation
        else if \<not> CoinsIsValid E (ReservedAmounts ca) then Err ErrInvalidCreditOperation
        else genesisAccountsLoop E (insert (ca_Tenant ca) seenTenants) cas))"

fun reservationsLoop :: "'x sdk \<Rightarrow> (string, coins) kv \<Rightarrow> CreditAccount list \<Rightarrow> billing_error checked" where
  "reservationsLoop E expectedReservations [] = Ok ()"
| "reservationsLoop E expectedReservations (ca # cas) =
     (let expected = (case kv_get expectedReservations (ca_Tenant ca) of None \<Rightarrow> [] | Some e \<Rightarrow> e)
      in andThen (must (NewCoins E (ReservedAmounts ca))) (\<lambda>actualNormalized.
         andThen (must (NewCoins E expected)) (\<lambda>expectedNormalized.
         if \<not> CoinsEqual E actualNormalized expectedNormalized then Err ErrInvalidCreditOperation
         else reservationsLoop E expectedReservations cas)))"

fun leaseCountsLoop :: "(string, u64) kv \<Rightarrow> (string, u64) kv \<Rightarrow> Lease list \<Rightarrow> (string, u64) kv \<times> (string, u64) kv" where
  \<comment> \<open>the maps \<open>activeCounts\<close> and \<open>pendingCounts\<close>; an absent key reads as zero\<close>
  "leaseCountsLoop activeCounts pendingCounts [] = (activeCounts, pendingCounts)"
| "leaseCountsLoop activeCounts pendingCounts (lease # leases) =
     (let bump = (\<lambda>m. kv_set (Tenant lease) ((case kv_get m (Tenant lease) of None \<Rightarrow> 0 | Some n \<Rightarrow> n) + 1) m)
      in if State lease = LEASE_STATE_ACTIVE then leaseCountsLoop (bump activeCounts) pendingCounts leases
         else if State lease = LEASE_STATE_PENDING then leaseCountsLoop activeCounts (bump pendingCounts) leases
         else leaseCountsLoop activeCounts pendingCounts leases)"

fun countsLoop :: "(string, u64) kv \<Rightarrow> (string, u64) kv \<Rightarrow> CreditAccount list \<Rightarrow> billing_error checked" where
  "countsLoop activeCounts pendingCounts [] = Ok ()"
| "countsLoop activeCounts pendingCounts (ca # cas) =
     (let read = (\<lambda>m. case kv_get m (ca_Tenant ca) of None \<Rightarrow> 0 | Some n \<Rightarrow> n)
      in if ActiveLeaseCount ca \<noteq> read activeCounts then Err ErrInvalidCreditOperation
         else if PendingLeaseCount ca \<noteq> read pendingCounts then Err ErrInvalidCreditOperation
         else countsLoop activeCounts pendingCounts cas)"

definition GenesisState_Validate :: "'x sdk \<Rightarrow> GenesisState \<Rightarrow> billing_error checked" where
  \<comment> \<open>the loop over the map of expected reservations stops at any tenant without an account\<close>
  "GenesisState_Validate E gs =
     andThen (orErr (Params_Validate E (gs_Params gs)) ErrInvalidParams) (\<lambda>_.
     andThen (genesisLeasesLoop E (ReservedDomainSuffixes (gs_Params gs)) {} (gs_Leases gs)) (\<lambda>_.
     andThen (genesisAccountsLoop E {} (gs_CreditAccounts gs)) (\<lambda>_.
     andThen (CalculateExpectedReservationsByTenant E (gs_Leases gs) (MinLeaseDuration (gs_Params gs)))
       (\<lambda>expectedReservations.
     andThen (reservationsLoop E expectedReservations (gs_CreditAccounts gs)) (\<lambda>_.
     if list_ex (\<lambda>(tenant, expected). \<not> CoinsIsZero E expected \<and>
          tenant \<notin> ca_Tenant ` set (gs_CreditAccounts gs)) expectedReservations
     then Err ErrInvalidCreditOperation
     else
       (let (activeCounts, pendingCounts) = leaseCountsLoop [] [] (gs_Leases gs)
        in andThen (countsLoop activeCounts pendingCounts (gs_CreditAccounts gs)) (\<lambda>_.
           if of_nat (length (gs_Leases gs)) > gs_LeaseSequence gs then Err ErrInvalidLease else Ok ())))))))"

fun blockTimeLoop :: "time \<Rightarrow> Lease list \<Rightarrow> billing_error checked" where
  "blockTimeLoop blockTime [] = Ok ()"
| "blockTimeLoop blockTime (lease # leases) =
     (if LastSettledAt lease > blockTime then Err ErrInvalidLease
      else if CreatedAt lease > blockTime then Err ErrInvalidLease
      else if State lease = LEASE_STATE_CLOSED \<and> (case ClosedAt lease of None \<Rightarrow> False | Some t \<Rightarrow> t > blockTime)
      then Err ErrInvalidLease
      else blockTimeLoop blockTime leases)"

definition ValidateWithBlockTime :: "GenesisState \<Rightarrow> time \<Rightarrow> billing_error checked" where
  "ValidateWithBlockTime gs blockTime = blockTimeLoop blockTime (gs_Leases gs)"

section \<open>Import and export (keeper.go)\<close>

fun genesisSKULookup :: "sku_state \<Rightarrow> string \<Rightarrow> LeaseItem list \<Rightarrow> billing_error checked" where
  \<comment> \<open>every SKU of the lease exists and belongs to its provider\<close>
  "genesisSKULookup sk providerUUID [] = Ok ()"
| "genesisSKULookup sk providerUUID (item # items) =
     andThen (orErr (GetSKU sk (SkuUuid item)) ErrPlain) (\<lambda>sku.
     if sku_ProviderUuid sku \<noteq> providerUUID then Err ErrPlain else genesisSKULookup sk providerUUID items)"

fun initLeases :: "'x sdk \<Rightarrow> 'x ledger \<Rightarrow> Lease list \<Rightarrow> (billing_error, 'x ledger) result" where
  "initLeases E st [] = Ok st"
| "initLeases E st (lease # leases) =
     andThen (orErr (GetProvider (sku_keeper st) (lease_ProviderUuid lease)) ErrPlain) (\<lambda>_.
     andThen (genesisSKULookup (sku_keeper st) (lease_ProviderUuid lease) (Items lease)) (\<lambda>_.
     andThen (SetLease E st lease) (\<lambda>st'. initLeases E st' leases)))"

fun initAccounts :: "'x sdk \<Rightarrow> 'x ledger \<Rightarrow> CreditAccount list \<Rightarrow> (billing_error, 'x ledger) result" where
  "initAccounts E st [] = Ok st"
| "initAccounts E st (ca # cas) = andThen (SetCreditAccount E st ca) (\<lambda>st'. initAccounts E st' cas)"

definition InitGenesis :: "'x sdk \<Rightarrow> block_ctx \<Rightarrow> 'x ledger \<Rightarrow> GenesisState \<Rightarrow> (billing_error, 'x ledger) result" where
  "InitGenesis E ctx st gs =
     andThen (ValidateWithBlockTime gs (BlockTime ctx)) (\<lambda>_.
     andThen (initLeases E (SetParams st (gs_Params gs)) (gs_Leases gs)) (\<lambda>st1.
     andThen (initAccounts E st1 (gs_CreditAccounts gs)) (\<lambda>st2.
     Ok (if gs_LeaseSequence gs > 0 then st2\<lparr>LeaseSequence := gs_LeaseSequence gs\<rparr> else st2))))"

definition ExportGenesis :: "'x ledger \<Rightarrow> (billing_error, GenesisState) result" where
  "ExportGenesis st =
     (case GetParams st of
        Ok params \<Rightarrow> Ok \<lparr>gs_Params = params, gs_Leases = map snd (Leases st),
            gs_CreditAccounts = map snd (CreditAccounts st), gs_LeaseSequence = LeaseSequence st\<rparr>
      | Err _ \<Rightarrow> Panic
      | Panic \<Rightarrow> Panic)"

section \<open>What validation guarantees\<close>

lemma genesisItems_ok:
  "genesisItemsLoop E n items = Ok m \<Longrightarrow> i \<in> set items \<Longrightarrow>
   0 < Quantity i \<and> CoinIsValid E (LockedPrice i) \<and> Amount (LockedPrice i) \<noteq> 0"
  by (induction E n items rule: genesisItemsLoop.induct) (auto simp: word_gt_0 split: if_split_asm)

lemma svc_count_filter: "svc_count items s = length (filter (\<lambda>c. ServiceName c = s) items)"
  unfolding svc_count_def by (induction items) auto

lemma genesisDomains_named:
  "genesisDomainsLoop reserved siblings items = Ok () \<Longrightarrow> i \<in> set items \<Longrightarrow> CustomDomain i \<noteq> [] \<Longrightarrow>
   svc_count siblings (ServiceName i) = 1"
  by (induction items) (auto simp: svc_count_filter split: if_split_asm)

lemma genesisLease_ok:
  assumes "genesisLease E reserved seen l = Ok ()"
  shows "lease_Uuid l \<notin> seen" and "lease_Uuid l \<noteq> []" and "tenantAddr E l \<noteq> None" and "Items l \<noteq> []" and "domains_named (Items l)"
    and "\<forall>i \<in> set (Items l). 0 < Quantity i \<and> CoinIsValid E (LockedPrice i) \<and> Amount (LockedPrice i) \<noteq> 0"
proof -
  from assms obtain n where n: "genesisItemsLoop E 0 (Items l) = Ok n"
    and d: "genesisDomainsLoop reserved (Items l) (Items l) = Ok ()"
    and b: "lease_Uuid l \<notin> seen \<and> lease_Uuid l \<noteq> [] \<and> tenantAddr E l \<noteq> None \<and> Items l \<noteq> []"
    by (auto simp: genesisLease_def tenantAddr_def split: if_split_asm)
  from b show "lease_Uuid l \<notin> seen" and "lease_Uuid l \<noteq> []" and "tenantAddr E l \<noteq> None" and "Items l \<noteq> []" by simp_all
  show "domains_named (Items l)" using genesisDomains_named [OF d] by (simp add: domains_named_def list_all_iff)
  show "\<forall>i \<in> set (Items l). 0 < Quantity i \<and> CoinIsValid E (LockedPrice i) \<and> Amount (LockedPrice i) \<noteq> 0"
    using genesisItems_ok [OF n] by blast
qed

definition genesis_leases_ok :: "'x sdk \<Rightarrow> Lease list \<Rightarrow> bool" where
  "genesis_leases_ok E ls \<longleftrightarrow> distinct (map lease_Uuid ls) \<and> list_all (\<lambda>l. lease_Uuid l \<noteq> [] \<and> tenantAddr E l \<noteq> None \<and> Items l \<noteq> [] \<and>
     domains_named (Items l) \<and>
     list_all (\<lambda>i. 0 < Quantity i \<and> CoinIsValid E (LockedPrice i) \<and> Amount (LockedPrice i) \<noteq> 0) (Items l)) ls"

lemma genesisLeases_ok:
  "genesisLeasesLoop E reserved seen ls = Ok () \<Longrightarrow> genesis_leases_ok E ls \<and> lease_Uuid ` set ls \<inter> seen = {}"
proof (induction ls arbitrary: seen)
  case (Cons l ls)
  then have l: "genesisLease E reserved seen l = Ok ()"
    and rest: "genesisLeasesLoop E reserved (insert (lease_Uuid l) seen) ls = Ok ()" by auto
  from Cons.IH [OF rest] genesisLease_ok [OF l] show ?case by (auto simp: genesis_leases_ok_def list_all_iff)
qed (simp add: genesis_leases_ok_def)

lemma genesisAccounts_ok:
  "genesisAccountsLoop E seen cas = Ok () \<Longrightarrow> ca \<in> set cas \<Longrightarrow>
   (\<exists>a. AccAddressFromBech32 E (ca_Tenant ca) = Some a \<and> CreditAddress ca = AccAddressString E (DeriveCreditAddress E a)) \<and>
   CoinsIsValid E (ReservedAmounts ca)"
  by (induction cas arbitrary: seen) (auto split: if_split_asm)

section \<open>What import stores\<close>

lemma kv_sum_ones: "kv_sum (\<lambda>_. 1::int) m = int (length m)"
  by (induction m) auto

lemma SetLease_absent:
  assumes "SetLease E st l = Ok st1" and "distinct (map lease_Uuid (l # ls))"
    and "\<forall>k \<in> set (l # ls). kv_get (Leases st) (lease_Uuid k) = None"
  shows "\<forall>k \<in> set ls. kv_get (Leases st1) (lease_Uuid k) = None"
  using assms(2,3) by (auto simp: SetLease_sel(1) [OF assms(1)] image_iff)

lemma initLeases_stores:
  assumes "initLeases E st ls = Ok st'" and "kv_ok (Leases st)" and "distinct (map lease_Uuid ls)"
    and "\<forall>l \<in> set ls. kv_get (Leases st) (lease_Uuid l) = None"
  shows "kv_ok (Leases st') \<and> (\<forall>f. kv_sum f (Leases st') = kv_sum f (Leases st) + (\<Sum>l\<leftarrow>ls. f l :: int)) \<and>
     (\<forall>P. kv_all P (Leases st) \<and> (\<forall>l \<in> set ls. P (lease_Uuid l) l) \<longrightarrow> kv_all P (Leases st'))"
  using assms
proof (induction ls arbitrary: st)
  case (Cons l ls)
  from Cons.prems(1) obtain st1 where st1: "SetLease E st l = Ok st1" and rest: "initLeases E st1 ls = Ok st'" by auto
  note L = SetLease_sel(1) [OF st1]
  have "kv_ok (Leases st1)" using Cons.prems(2) by (simp add: L)
  from Cons.IH [OF rest this _ SetLease_absent [OF st1 Cons.prems(3,4)]] Cons.prems(2-4) show ?case
    by (auto simp: L kv_sum_set_old kv_all_set)
qed simp

lemma genesisSKULookup_ok:
  "genesisSKULookup sk pu items = Ok () \<Longrightarrow>
   list_all (\<lambda>i. \<exists>s \<in> set_option (kv_get (SKUs sk) (SkuUuid i)). sku_ProviderUuid s = pu) items"
  by (induction items) (auto simp: GetSKU_def split: if_split_asm)

lemma initLeases_sel:
  assumes "initLeases E st ls = Ok st'"
  shows "sku_keeper st' = sku_keeper st \<and> lg_Params st' = lg_Params st \<and> CreditAccounts st' = CreditAccounts st \<and>
     (\<forall>l \<in> set ls. catalogued (sku_keeper st) l)"
  using assms
proof (induction ls arbitrary: st)
  case (Cons l ls)
  from Cons.prems obtain p st1 where p: "GetProvider (sku_keeper st) (lease_ProviderUuid l) = Ok p"
    and s: "genesisSKULookup (sku_keeper st) (lease_ProviderUuid l) (Items l) = Ok ()"
    and st1: "SetLease E st l = Ok st1" and rest: "initLeases E st1 ls = Ok st'" by auto
  have "catalogued (sku_keeper st) l" using p genesisSKULookup_ok [OF s] by (simp add: catalogued_def)
  with Cons.IH [OF rest] SetLease_sel(2,3,4) [OF st1] show ?case by auto
qed simp

lemma initLeases_rest:
  "initLeases E st ls = Ok st' \<Longrightarrow> LeaseSequence st' = LeaseSequence st \<and> bank st' = bank st \<and>
     authority st' = authority st \<and> events st' = events st \<and> CreditAddressIndex st' = CreditAddressIndex st"
  by (induction ls arbitrary: st) (fastforce dest: SetLease_sel(5-9))+

lemma initLeases_sku_index:
  "initLeases E st ls = Ok st' \<Longrightarrow> sku_index_inv st \<Longrightarrow> distinct (map lease_Uuid ls) \<Longrightarrow>
   \<forall>l \<in> set ls. kv_get (Leases st) (lease_Uuid l) = None \<Longrightarrow> sku_index_inv st'"
proof (induction ls arbitrary: st)
  case (Cons l ls)
  then obtain st1 where st1: "SetLease E st l = Ok st1" and rest: "initLeases E st1 ls = Ok st'" by auto
  have "sku_index_inv st1" using Cons.prems(4) by (intro SetLease_sku_index [OF st1 Cons.prems(2)]) simp
  then show ?case using Cons.IH [OF rest] Cons.prems(3) SetLease_absent [OF st1 Cons.prems(3,4)] by simp
qed simp

lemma initLeases_domains:
  "initLeases E st ls = Ok st' \<Longrightarrow> domain_inv st \<Longrightarrow> \<forall>l \<in> set ls. domains_named (Items l) \<Longrightarrow> domain_inv st'"
proof (induction ls arbitrary: st)
  case (Cons l ls)
  then obtain st1 where st1: "SetLease E st l = Ok st1" and rest: "initLeases E st1 ls = Ok st'" by auto
  have "domain_inv st1" using SetLease_domain_inv [OF st1] Cons.prems(2,3) by simp
  then show ?case using Cons.IH [OF rest] Cons.prems(3) by simp
qed simp

lemma initAccounts_stores:
  assumes "initAccounts E st cas = Ok st'"
  shows "Leases st' = Leases st \<and> CustomDomainIndex st' = CustomDomainIndex st \<and>
     LeaseBySKUIndex st' = LeaseBySKUIndex st \<and> sku_keeper st' = sku_keeper st \<and>
     lg_Params st' = lg_Params st \<and>
     (kv_ok (CreditAccounts st) \<longrightarrow> kv_ok (CreditAccounts st')) \<and>
     (\<forall>a. kv_get (CreditAccounts st) a \<noteq> None \<or> (\<exists>ca \<in> set cas. AccAddressFromBech32 E (ca_Tenant ca) = Some a) \<longrightarrow>
        kv_get (CreditAccounts st') a \<noteq> None) \<and>
     (\<forall>P. kv_all P (CreditAccounts st) \<and> (\<forall>ca \<in> set cas. \<forall>a. AccAddressFromBech32 E (ca_Tenant ca) = Some a \<longrightarrow> P a ca)
        \<longrightarrow> kv_all P (CreditAccounts st'))"
  using assms
proof (induction cas arbitrary: st)
  case (Cons ca cas)
  from Cons.prems obtain st1 a where a: "AccAddressFromBech32 E (ca_Tenant ca) = Some a"
    and st1: "st1 = st\<lparr>CreditAccounts := kv_set a ca (CreditAccounts st),
            CreditAddressIndex := kv_set (DeriveCreditAddress E a) a (CreditAddressIndex st)\<rparr>"
    and rest: "initAccounts E st1 cas = Ok st'" by (auto simp: SetCreditAccount_def)
  note IH = Cons.IH [OF rest]
  have "kv_all P (CreditAccounts st1)" if "kv_all P (CreditAccounts st)" "P a ca" for P
    using that by (simp add: st1 kv_all_set)
  with IH a show ?case by (simp add: st1)
qed simp

section \<open>The cross checks of a genesis file\<close>

definition exp_amt :: "(string, coins) kv \<Rightarrow> string \<Rightarrow> string \<Rightarrow> int" where
  "exp_amt m t d = (case kv_get m t of None \<Rightarrow> 0 | Some cs \<Rightarrow> amt cs d)"

definition exp_weight :: "u64 \<Rightarrow> string \<Rightarrow> string \<Rightarrow> Lease \<Rightarrow> int" where
  "exp_weight fb t d l = (if Tenant l = t \<and> live (State l) then reservation fb d l else 0)"

definition cnt :: "(string, u64) kv \<Rightarrow> string \<Rightarrow> u64" where
  "cnt m t = (case kv_get m t of None \<Rightarrow> 0 | Some n \<Rightarrow> n)"

lemma cnt_simps [simp]: "cnt [] t = 0" "cnt (kv_set k v m) t = (if t = k then v else cnt m t)"
  by (simp_all add: cnt_def)

lemma exp_amt_simps [simp]:
  "exp_amt [] t d = 0" "exp_amt (kv_set k v m) t d = (if t = k then amt v d else exp_amt m t d)"
  by (simp_all add: exp_amt_def)

lemma leaseCounts_law:
  assumes "leaseCountsLoop act pen ls = (act', pen')"
  shows "cnt act' t = cnt act t + of_nat (length (filter (\<lambda>l. Tenant l = t \<and> State l = LEASE_STATE_ACTIVE) ls))"
    and "cnt pen' t = cnt pen t + of_nat (length (filter (\<lambda>l. Tenant l = t \<and> State l = LEASE_STATE_PENDING) ls))"
  using assms by (induction act pen ls rule: leaseCountsLoop.induct)
    (auto simp: Let_def cnt_def [symmetric] algebra_simps split: if_split_asm)

lemma countsLoop_law:
  "countsLoop act pen cas = Ok () \<Longrightarrow> ca \<in> set cas \<Longrightarrow>
   ActiveLeaseCount ca = cnt act (ca_Tenant ca) \<and> PendingLeaseCount ca = cnt pen (ca_Tenant ca)"
  by (induction cas) (auto simp: Let_def cnt_def split: if_split_asm)

context sdk_laws
begin

lemma expectedLoop_law:
  assumes "expectedLoop E fb m ls = Ok m'" and "kv_all (\<lambda>_. coins_ok) m"
  shows "kv_all (\<lambda>_. coins_ok) m' \<and> exp_amt m' t d = exp_amt m t d + (\<Sum>l\<leftarrow>ls. exp_weight fb t d l)"
  using assms
proof (induction ls arbitrary: m)
  case (Cons l ls)
  show ?case
  proof (cases "live (State l)")
    case False
    with Cons.prems have "expectedLoop E fb m ls = Ok m'" by (auto simp: live_iff split: if_split_asm)
    with Cons.IH [OF this] Cons.prems(2) False show ?thesis by (simp add: exp_weight_def)
  next
    case True
    with Cons.prems(1) obtain r where r: "GetLeaseReservationAmount E l fb = Ok r"
      by (auto simp: live_iff split: if_split_asm)
    note rl = GetLeaseReservationAmount_law [OF r]
    obtain s where s: "expectedLoop E fb (kv_set (Tenant l) s m) ls = Ok m'" and ok: "coins_ok s"
      and sum: "\<forall>d. amt s d = exp_amt m (Tenant l) d + reservation fb d l"
    proof (cases "kv_get m (Tenant l)")
      case None
      with Cons.prems(1) True r have "expectedLoop E fb (kv_set (Tenant l) r m) ls = Ok m'"
        by (auto simp: live_iff split: if_split_asm)
      then show ?thesis by (rule that) (use rl None in \<open>auto simp: exp_amt_def\<close>)
    next
      case (Some e)
      with Cons.prems(1) True r obtain s where a: "CoinsAdd E e r = Some s"
        and s: "expectedLoop E fb (kv_set (Tenant l) s m) ls = Ok m'"
        by (auto simp: live_iff split: if_split_asm)
      have "coins_ok e" using Cons.prems(2) Some by (rule kv_all_get)
      from CoinsAdd_law [OF a this] rl Some show ?thesis
        by (intro that [OF s]) (auto simp: exp_amt_def coins_ok_nn)
    qed
    from Cons.IH [OF s] kv_all_set [OF Cons.prems(2), of s "Tenant l"] ok sum True show ?thesis
      by (simp add: exp_weight_def)
  qed
qed simp

lemma reservationsLoop_law:
  "reservationsLoop E m cas = Ok () \<Longrightarrow> kv_all (\<lambda>_. coins_ok) m \<Longrightarrow> ca \<in> set cas \<Longrightarrow>
   coins_ok (ReservedAmounts ca) \<Longrightarrow> amt (ReservedAmounts ca) d = exp_amt m (ca_Tenant ca) d"
proof (induction cas)
  case (Cons c cas)
  show ?case
  proof (cases "ca = c")
    case True
    let ?e = "case kv_get m (ca_Tenant c) of None \<Rightarrow> [] | Some e \<Rightarrow> e"
    from Cons.prems(1) obtain n n' where n: "NewCoins E (ReservedAmounts c) = Some n" "NewCoins E ?e = Some n'"
      and eq: "CoinsEqual E n n'" by (auto simp: Let_def split: if_split_asm)
    have e: "coins_ok ?e" using kv_all_get [OF Cons.prems(2)] by (auto split: option.splits)
    note laws = NewCoins_law [OF n(1)] NewCoins_law [OF n(2) e]
    with Cons.prems(4) True eq have "n = n'" by (simp add: CoinsEqual_law)
    with laws Cons.prems(4) True have "amt (ReservedAmounts ca) d = amt ?e d" by simp
    then show ?thesis by (auto simp: True exp_amt_def split: option.splits)
  next
    case False
    with Cons.prems(1,3) have "reservationsLoop E m cas = Ok ()" "ca \<in> set cas"
      by (auto simp: Let_def split: if_split_asm)
    with Cons.IH Cons.prems(2,4) show ?thesis by blast
  qed
qed simp

lemma live_reserves:
  assumes "Items l \<noteq> []" and "\<forall>i \<in> set (Items l). 0 < Quantity i \<and> CoinIsValid E (LockedPrice i) \<and> Amount (LockedPrice i) \<noteq> 0"
    and "MinLeaseDurationAtCreation l \<noteq> 0"
  shows "0 < reservation fb (Denom (LockedPrice (hd (Items l)))) l"
proof -
  from assms(1) obtain i js where js: "Items l = i # js" by (cases "Items l") auto
  have pos: "0 < Amount (LockedPrice k) \<and> 0 < uint (Quantity k)" if "k \<in> set (Items l)" for k
    using assms(2) that CoinIsValid_nonneg [of "LockedPrice k"] by (auto simp: word_less_def less_le)
  have "0 \<le> items_rate js d" for d
    using pos by (intro items_rate_nonneg) (auto simp: prices_nn_def js less_imp_le)
  moreover have "0 < Amount (LockedPrice i) * uint (Quantity i)" using pos by (simp add: js)
  ultimately have "0 < items_rate (Items l) (Denom (LockedPrice i))" by (simp add: js add_pos_nonneg)
  moreover have "0 < uint (reserved_duration fb l)"
    using assms(3) by (auto simp: reserved_duration_def word_neq_0_conv word_less_def)
  ultimately show ?thesis by (simp add: reservation_def js)
qed

lemma expected_account:
  assumes exp: "expectedLoop E fb [] ls = Ok m"
    and nomiss: "\<not> list_ex (\<lambda>(t, e). \<not> CoinsIsZero E e \<and> t \<notin> T) m"
    and l: "l \<in> set ls" "live (State l)" "MinLeaseDurationAtCreation l \<noteq> 0" and ok: "genesis_leases_ok E ls"
    and md: "\<forall>l \<in> set ls. live (State l) \<longrightarrow> MinLeaseDurationAtCreation l \<noteq> 0"
  shows "Tenant l \<in> T"
proof -
  let ?d = "Denom (LockedPrice (hd (Items l)))"
  have pos: "0 < reservation fb ?d l"
    using ok l by (intro live_reserves) (auto simp: genesis_leases_ok_def list_all_iff)
  have nn: "0 \<le> exp_weight fb (Tenant l) ?d k" if "k \<in> set ls" for k
    using ok that CoinIsValid_nonneg
    by (auto simp: exp_weight_def reservation_def genesis_leases_ok_def list_all_iff prices_nn_def intro!: items_rate_nonneg mult_nonneg_nonneg)
  have "exp_weight fb (Tenant l) ?d l \<le> (\<Sum>k\<leftarrow>ls. exp_weight fb (Tenant l) ?d k)"
    using l(1) nn by (intro member_le_sum_list) auto
  then have "0 < exp_amt m (Tenant l) ?d"
    using expectedLoop_law [OF exp, of "Tenant l" ?d] pos l(2) by (simp add: exp_weight_def)
  then obtain e where e: "kv_get m (Tenant l) = Some e" "0 < amt e ?d" by (auto simp: exp_amt_def split: option.splits)
  have "coins_ok e" using expectedLoop_law [OF exp] kv_all_get [OF _ e(1)] by fastforce
  with e(2) have "\<not> CoinsIsZero E e" by (auto simp: CoinsIsZero_ok)
  with nomiss kv_get_SomeD [OF e(1)] show ?thesis by (auto simp: list_ex_iff)
qed

end

lemma billing_inv_sequence: "billing_inv E (st\<lparr>LeaseSequence := n\<rparr>) \<longleftrightarrow> billing_inv E st"
  by (simp add: billing_inv_def accounts_inv_def params_ok_def domain_inv_cong [of "st\<lparr>LeaseSequence := n\<rparr>" st]
      catalogue_inv_def sku_index_cong [of "st\<lparr>LeaseSequence := n\<rparr>" st] live_has_account_def [abs_def])

definition genesis_clean :: "'x sdk \<Rightarrow> GenesisState \<Rightarrow> bool" where
  \<comment> \<open>address strings as the SDK prints them, live leases that record their reservation
      period, and no more leases than the counters can count\<close>
  "genesis_clean E gs \<longleftrightarrow>
     list_all (\<lambda>l. canonical E (Tenant l) \<and> (live (State l) \<longrightarrow> MinLeaseDurationAtCreation l \<noteq> 0)) (gs_Leases gs) \<and>
     list_all (\<lambda>ca. canonical E (ca_Tenant ca)) (gs_CreditAccounts gs) \<and> length (gs_Leases gs) < 2 ^ 64"

definition ledger_empty :: "'x ledger \<Rightarrow> bool" where
  "ledger_empty st \<longleftrightarrow> Leases st = [] \<and> LeaseSequence st = 0 \<and> CreditAccounts st = [] \<and> CreditAddressIndex st = [] \<and>
     LeaseBySKUIndex st = [] \<and> CustomDomainIndex st = []"

lemma sum_list_count: "(\<Sum>l\<leftarrow>ls. if P l then 1 else 0 :: int) = int (length (filter P ls))"
  by (induction ls) auto

lemma count_uint: "n < 2 ^ 64 \<Longrightarrow> uint (of_nat n :: u64) = int n"
  by (simp add: unsigned_of_nat take_bit_nat_eq_self)

lemma canonical_same:
  "canonical E t \<Longrightarrow> canonical E (Tenant l) \<Longrightarrow> AccAddressFromBech32 E t = Some a \<Longrightarrow>
   tenantAddr E l = Some a \<longleftrightarrow> Tenant l = t"
  unfolding canonical_def tenantAddr_def by (metis elem_set option.inject)

context sdk_laws
begin

lemma genesis_matches:
  assumes ls: "\<forall>l \<in> set ls. canonical E (Tenant l) \<and> (live (State l) \<longrightarrow> MinLeaseDurationAtCreation l \<noteq> 0)"
    and len: "length ls < 2 ^ 64" and sums: "\<And>f. kv_sum f L = (\<Sum>l\<leftarrow>ls. f l :: int)"
    and exp: "expectedLoop E fb [] ls = Ok m" and res: "reservationsLoop E m cas = Ok ()"
    and cnts: "leaseCountsLoop [] [] ls = (act, pen)" and cl: "countsLoop act pen cas = Ok ()"
    and ca: "ca \<in> set cas" "canonical E (ca_Tenant ca)" "AccAddressFromBech32 E (ca_Tenant ca) = Some a"
      "coins_ok (ReservedAmounts ca)"
  shows "account_matches E L a ca"
proof -
  have same: "tenantAddr E l = Some a \<longleftrightarrow> Tenant l = ca_Tenant ca" if "l \<in> set ls" for l
    using canonical_same [OF ca(2) _ ca(3)] ls that by blast
  have "(\<Sum>l\<leftarrow>ls. hw E a d l) = (\<Sum>l\<leftarrow>ls. exp_weight fb (ca_Tenant ca) d l)" for d
    using same ls reservation_fallback [of _ fb d]
    by (intro arg_cong [where f = sum_list] map_cong) (auto simp: hw_def exp_weight_def)
  then have "amt (ReservedAmounts ca) d = held E L a d" for d
    using expectedLoop_law [OF exp, of "ca_Tenant ca" d] reservationsLoop_law [OF res _ ca(1,4), of d] sums
    by (simp add: held_def)
  moreover have "uint (ActiveLeaseCount ca) = actives E L a"
  proof -
    have "(\<Sum>l\<leftarrow>ls. aw E a l) = (\<Sum>l\<leftarrow>ls. if Tenant l = ca_Tenant ca \<and> State l = LEASE_STATE_ACTIVE then 1 else 0)"
      using same by (intro arg_cong [where f = sum_list] map_cong) (auto simp: aw_def)
    then show ?thesis
      using countsLoop_law [OF cl ca(1)] leaseCounts_law(1) [OF cnts, of "ca_Tenant ca"] sums len
      by (simp add: actives_def sum_list_count count_uint order.strict_trans1 [OF length_filter_le])
  qed
  moreover have "uint (PendingLeaseCount ca) = pendings E L a"
  proof -
    have "(\<Sum>l\<leftarrow>ls. pw E a l) = (\<Sum>l\<leftarrow>ls. if Tenant l = ca_Tenant ca \<and> State l = LEASE_STATE_PENDING then 1 else 0)"
      using same by (intro arg_cong [where f = sum_list] map_cong) (auto simp: pw_def)
    then show ?thesis
      using countsLoop_law [OF cl ca(1)] leaseCounts_law(2) [OF cnts, of "ca_Tenant ca"] sums len
      by (simp add: pendings_def sum_list_count count_uint order.strict_trans1 [OF length_filter_le])
  qed
  ultimately show ?thesis using ca(3,4) by (simp add: account_matches_def)
qed

lemma genesis_lease_wf:
  assumes gl: "genesis_leases_ok E ls"
    and cls: "\<forall>l \<in> set ls. canonical E (Tenant l) \<and> (live (State l) \<longrightarrow> MinLeaseDurationAtCreation l \<noteq> 0)"
  shows "\<forall>l \<in> set ls. lease_wf E (lease_Uuid l) l"
proof
  fix l assume l: "l \<in> set ls"
  obtain a where a: "tenantAddr E l = Some a" using gl l by (auto simp: genesis_leases_ok_def list_all_iff)
  have "0 \<le> Amount (LockedPrice i)" if "i \<in> set (Items l)" for i
    using gl l that CoinIsValid_nonneg by (auto simp: genesis_leases_ok_def list_all_iff)
  with a cls l show "lease_wf E (lease_Uuid l) l"
    by (auto simp: lease_wf_def canonical_def tenantAddr_def list_all_iff)
qed

lemma InitGenesis_billing_inv:
  assumes val: "GenesisState_Validate E gs = Ok ()" and clean: "genesis_clean E gs" and empty: "ledger_empty st"
    and run: "InitGenesis E ctx st gs = Ok st'"
  shows "billing_inv E st'"
proof -
  let ?ls = "gs_Leases gs" and ?cas = "gs_CreditAccounts gs" and ?fb = "MinLeaseDuration (gs_Params gs)"
  let ?st = "SetParams st (gs_Params gs)"
  from val obtain m act pen where par: "Params_Validate E (gs_Params gs) = Ok ()"
    and lv: "genesisLeasesLoop E (ReservedDomainSuffixes (gs_Params gs)) {} ?ls = Ok ()"
    and av: "genesisAccountsLoop E {} ?cas = Ok ()" and exp: "expectedLoop E ?fb [] ?ls = Ok m"
    and res: "reservationsLoop E m ?cas = Ok ()"
    and miss: "\<not> list_ex (\<lambda>(t, e). \<not> CoinsIsZero E e \<and> t \<notin> ca_Tenant ` set ?cas) m"
    and cnts: "leaseCountsLoop [] [] ?ls = (act, pen)" and cl: "countsLoop act pen ?cas = Ok ()"
    by (auto simp: GenesisState_Validate_def CalculateExpectedReservationsByTenant_def split: if_split_asm prod.splits)
  from run obtain st1 st2 where st1: "initLeases E ?st ?ls = Ok st1" and st2: "initAccounts E st1 ?cas = Ok st2"
    and st': "st' = st2 \<or> st' = st2\<lparr>LeaseSequence := gs_LeaseSequence gs\<rparr>"
    by (auto simp: InitGenesis_def split: if_split_asm)
  have gl: "genesis_leases_ok E ?ls" using genesisLeases_ok [OF lv] by simp
  then have d: "distinct (map lease_Uuid ?ls)" by (simp add: genesis_leases_ok_def)
  have e: "Leases ?st = []" "CreditAccounts ?st = []" "CustomDomainIndex ?st = []" "LeaseBySKUIndex ?st = []"
    using empty by (simp_all add: ledger_empty_def SetParams_def)
  have cls: "\<forall>l \<in> set ?ls. canonical E (Tenant l) \<and> (live (State l) \<longrightarrow> MinLeaseDurationAtCreation l \<noteq> 0)"
    and cca: "\<forall>ca \<in> set ?cas. canonical E (ca_Tenant ca)" and len: "length ?ls < 2 ^ 64"
    using clean by (auto simp: genesis_clean_def list_all_iff)
  have s1: "kv_ok (Leases st1) \<and> (\<forall>f. kv_sum f (Leases st1) = (\<Sum>l\<leftarrow>?ls. f l :: int)) \<and>
      (\<forall>P. (\<forall>l \<in> set ?ls. P (lease_Uuid l) l) \<longrightarrow> kv_all P (Leases st1))"
    using initLeases_stores [OF st1] d e(1) by simp
  note sel = initLeases_sel [OF st1] and acc = initAccounts_stores [OF st2]
  have L: "Leases st2 = Leases st1" using acc by simp
  have "int (length (Leases st1)) = int (length ?ls)"
    using s1 kv_sum_ones [of "Leases st1"] by (simp add: sum_list_triv)
  then have wf: "leases_wf E (Leases st2)" using s1 len L genesis_lease_wf [OF gl cls] by (simp add: leases_wf_def)
  have am: "account_matches E (Leases st2) a ca" if "ca \<in> set ?cas" "AccAddressFromBech32 E (ca_Tenant ca) = Some a" for a ca
    using genesisAccounts_ok [OF av that(1)] CoinsIsValid_law cca that s1 L
    by (intro genesis_matches [OF cls len _ exp res cnts cl that(1) _ that(2)]) auto
  have live: "live_has_account E st2 l" if l: "l \<in> set ?ls" for l
  proof (cases "live (State l)")
    case True
    with cls l have "MinLeaseDurationAtCreation l \<noteq> 0" by blast
    from expected_account [OF exp miss l True this gl] cls obtain ca where "ca \<in> set ?cas" "ca_Tenant ca = Tenant l" by auto
    moreover obtain a where "tenantAddr E l = Some a" using gl l by (auto simp: genesis_leases_ok_def list_all_iff)
    ultimately show ?thesis using acc unfolding live_has_account_def tenantAddr_def by (metis elem_set)
  qed (simp add: live_has_account_def)
  have "kv_all (\<lambda>a ca. account_matches E (Leases st2) a ca \<and> encodable E a ca) (CreditAccounts st2)"
    using acc sel e(2) am bech32_reencode by (simp add: encodable_def)
  moreover have "kv_ok (CreditAccounts st2)" using acc sel e(2) by simp
  moreover have "kv_all (\<lambda>_. live_has_account E st2) (Leases st2)" using s1 L live by simp
  ultimately have ai: "accounts_inv E st2" using wf by (auto simp: accounts_inv_def kv_all_def)
  have "domain_inv st1"
    using gl e by (intro initLeases_domains [OF st1])
      (auto simp: genesis_leases_ok_def list_all_iff domain_inv_def keyed_def)
  then have di: "domain_inv st2" using acc domain_inv_cong [of st2 st1] by simp
  have "sku_index_inv st1" using e d by (intro initLeases_sku_index [OF st1]) (simp_all add: sku_index_inv_def)
  then have si: "sku_index_inv st2" using acc sku_index_cong [of st2 st1] by simp
  have ci: "catalogue_inv st2"
    using sel acc s1 L gl by (simp add: catalogue_inv_def SetParams_def genesis_leases_ok_def list_all_iff)
  have "params_ok E st2" using sel acc par by (simp add: params_ok_def SetParams_def)
  with ai di si ci have "billing_inv E st2" by (simp add: billing_inv_def)
  with st' show ?thesis by (auto simp: billing_inv_sequence)
qed

end

section \<open>Import of an export\<close>

lemma catalogued_lookup:
  "list_all (\<lambda>i. \<exists>s \<in> set_option (kv_get (SKUs sk) (SkuUuid i)). sku_ProviderUuid s = pu) items \<Longrightarrow>
   genesisSKULookup sk pu items = Ok ()"
  by (induction items) (auto simp: GetSKU_def)

lemma SetLease_new_ok:
  assumes "tenantAddr E l \<noteq> None" and "kv_get (Leases st) (lease_Uuid l) = None"
    and J: "editable l \<Longrightarrow> \<forall>(s, d) \<in> set (domainsByService (Items l)). J d = Some (own l s)"
    and sub: "\<forall>d e. kv_get (CustomDomainIndex st) d = Some e \<longrightarrow> J d = Some e"
  shows "\<exists>st'. SetLease E st l = Ok st' \<and> (\<forall>d e. kv_get (CustomDomainIndex st') d = Some e \<longrightarrow> J d = Some e)"
proof (cases "editable l")
  case False
  with assms show ?thesis by (simp add: SetLease_def reconcileCustomDomainIndex_def tenantAddr_def)
next
  case True
  let ?ns = "domainsByService (Items l)" and ?idx = "CustomDomainIndex st"
  have own: "J d = Some (own l s)" if "(s, d) \<in> set ?ns" for s d using J [OF True] that by auto
  have "kv_get ?idx d = None \<or> kv_get ?idx d = Some (own l s)" if "(s, d) \<in> set ?ns" for s d
    using own [OF that] sub by (cases "kv_get ?idx d") auto
  moreover have "s' = s" if "(s, d) \<in> set ?ns" "(s', d) \<in> set ?ns" for s s' d
    using own [OF that(1)] own [OF that(2)] by (metis option.inject own_sel(2))
  ultimately have "installable l ?idx ?ns" by (auto simp: installable_def)
  then obtain idx' where i: "installLoop l ?idx ?ns = Ok idx'" using installLoop_cases [of l ?idx ?ns] by auto
  have "J d = Some e" if "kv_get idx' d = Some e" for d e
  proof (cases "\<exists>s. (s, d) \<in> set ?ns")
    case True
    then show ?thesis using own installLoop_get(1) [OF i] that by fastforce
  next
    case False
    then have "kv_get ?idx d = Some e" using installLoop_get(2) [OF i, of d] that by force
    then show ?thesis using sub by blast
  qed
  with assms(1,2) True i show ?thesis by (simp add: SetLease_def reconcileCustomDomainIndex_def tenantAddr_def)
qed

lemma initLeases_ok:
  assumes "\<forall>l \<in> set ls. tenantAddr E l \<noteq> None \<and> catalogued (sku_keeper st) l"
    and "\<forall>l \<in> set ls. editable l \<longrightarrow> (\<forall>(s, d) \<in> set (domainsByService (Items l)). J d = Some (own l s))"
    and "\<forall>d e. kv_get (CustomDomainIndex st) d = Some e \<longrightarrow> J d = Some e"
    and "distinct (map lease_Uuid ls)" and "\<forall>l \<in> set ls. kv_get (Leases st) (lease_Uuid l) = None"
  shows "\<exists>st'. initLeases E st ls = Ok st' \<and> Leases st' = foldl (\<lambda>m l. kv_set (lease_Uuid l) l m) (Leases st) ls"
  using assms
proof (induction ls arbitrary: st)
  case (Cons l ls)
  have "\<exists>st1. SetLease E st l = Ok st1 \<and> (\<forall>d e. kv_get (CustomDomainIndex st1) d = Some e \<longrightarrow> J d = Some e)"
    using Cons.prems by (intro SetLease_new_ok) auto
  then obtain st1 where st1: "SetLease E st l = Ok st1"
    and sub: "\<forall>d e. kv_get (CustomDomainIndex st1) d = Some e \<longrightarrow> J d = Some e" by blast
  have "\<exists>st'. initLeases E st1 ls = Ok st' \<and> Leases st' = foldl (\<lambda>m l. kv_set (lease_Uuid l) l m) (Leases st1) ls"
    using Cons.prems(1,2,4) SetLease_sel(4) [OF st1] SetLease_absent [OF st1 Cons.prems(4,5)]
    by (intro Cons.IH sub) simp_all
  moreover have "isOk (GetProvider (sku_keeper st) (lease_ProviderUuid l))"
    and "genesisSKULookup (sku_keeper st) (lease_ProviderUuid l) (Items l) = Ok ()"
    using Cons.prems(1) by (auto simp: catalogued_def intro: catalogued_lookup)
  ultimately show ?case using st1 SetLease_sel(1) [OF st1] by (auto elim!: isOkE)
qed simp

lemma initAccounts_ok:
  "\<forall>ca \<in> set cas. AccAddressFromBech32 E (ca_Tenant ca) = Some (key ca) \<Longrightarrow>
   \<exists>st'. initAccounts E st cas = Ok st' \<and>
     st' = st\<lparr>CreditAccounts := foldl (\<lambda>m ca. kv_set (key ca) ca m) (CreditAccounts st) cas,
       CreditAddressIndex := foldl (\<lambda>m ca. kv_set (DeriveCreditAddress E (key ca)) (key ca) m) (CreditAddressIndex st) cas\<rparr>"
proof (induction cas arbitrary: st)
  case (Cons ca cas)
  let ?st = "st\<lparr>CreditAccounts := kv_set (key ca) ca (CreditAccounts st),
     CreditAddressIndex := kv_set (DeriveCreditAddress E (key ca)) (key ca) (CreditAddressIndex st)\<rparr>"
  have "SetCreditAccount E st ca = Ok ?st" using Cons.prems by (simp add: SetCreditAccount_def)
  with Cons.IH [of ?st] Cons.prems show ?case by simp
qed simp

lemma domain_index_transfer:
  assumes "domain_inv t" and "domain_inv t'" and L: "Leases t' = Leases t" and e: "kv_get (CustomDomainIndex t) d = Some e"
  shows "kv_get (CustomDomainIndex t') d = Some e"
proof -
  have "index_sound t d e" using assms(1,4) by (auto simp: domain_inv_def intro: kv_all_get)
  then obtain l where l: "kv_get (Leases t) (tgt_LeaseUuid e) = Some l" "editable l" "claims (Items l) (tgt_ServiceName e) d"
    by (auto simp: index_sound_def)
  then have "kv_get (CustomDomainIndex t') d = Some (own l (tgt_ServiceName e))"
    using assms(2,3) by (auto simp: domain_inv_def index_complete_iff dest!: kv_all_get [of _ _ "tgt_LeaseUuid e" l])
  moreover have "lease_Uuid l = tgt_LeaseUuid e" using assms(1) l(1) by (auto simp: domain_inv_def dest: keyed_uuid)
  ultimately show ?thesis by (cases e) (simp add: own_def)
qed

lemma same_domain_index:
  assumes "domain_inv st" and "domain_inv st'" and L: "Leases st' = Leases st"
  shows "CustomDomainIndex st' = CustomDomainIndex st"
proof -
  have "kv_get (CustomDomainIndex st') d = kv_get (CustomDomainIndex st) d" for d
    using domain_index_transfer [OF assms] domain_index_transfer [OF assms(2,1) L [symmetric]]
    by (metis option.exhaust)
  then show ?thesis using assms(1,2) by (intro kvs.entries_ext) (auto simp: domain_inv_def)
qed

lemma same_sku_index:
  "sku_index_inv st \<Longrightarrow> sku_index_inv st' \<Longrightarrow> Leases st' = Leases st \<Longrightarrow> LeaseBySKUIndex st' = LeaseBySKUIndex st"
  by (intro kvs.entries_ext) (auto simp: sku_index_inv_def)

context sdk_laws
begin

lemma Export_Init:
  assumes inv: "billing_inv E st" and p: "lg_Params st = Some p" and time: "blockTimeLoop (BlockTime ctx) (map snd (Leases st)) = Ok ()"
    and st0: "ledger_empty st0" "sku_keeper st0 = sku_keeper st"
  shows "\<exists>gs st'. ExportGenesis st = Ok gs \<and> InitGenesis E ctx st0 gs = Ok st' \<and> lg_Params st' = lg_Params st \<and>
     Leases st' = Leases st \<and> CreditAccounts st' = CreditAccounts st \<and> LeaseSequence st' = LeaseSequence st \<and>
     CustomDomainIndex st' = CustomDomainIndex st \<and> LeaseBySKUIndex st' = LeaseBySKUIndex st \<and>
     sku_keeper st' = sku_keeper st \<and> bank st' = bank st0 \<and> authority st' = authority st0 \<and> events st' = events st0"
proof -
  let ?ls = "map snd (Leases st)" and ?cas = "map snd (CreditAccounts st)" and ?st = "SetParams st0 p"
  let ?gs = "\<lparr>gs_Params = p, gs_Leases = ?ls, gs_CreditAccounts = ?cas, gs_LeaseSequence = LeaseSequence st\<rparr>"
  from inv have ai: "accounts_inv E st" and di: "domain_inv st" and ci: "catalogue_inv st" and si: "sku_index_inv st"
    by (simp_all add: billing_inv_def)
  then have ok: "kv_ok (Leases st)" "kv_ok (CreditAccounts st)" by (simp_all add: accounts_inv_def leases_wf_def)
  have keys: "\<forall>e \<in> set (Leases st). lease_Uuid (snd e) = fst e"
    using di by (auto simp: domain_inv_def keyed_def kv_all_def)
  then have uu: "map lease_Uuid ?ls = map fst (Leases st)" by simp
  have mem: "kv_get (Leases st) (lease_Uuid l) = Some l" if "l \<in> set ?ls" for l
    using that keys kv_get_eq_Some [OF ok(1)] by auto
  have dom: "\<forall>(s, d) \<in> set (domainsByService (Items l)). kv_get (CustomDomainIndex st) d = Some (own l s)"
    if "l \<in> set ?ls" "editable l" for l
  proof -
    have "index_complete st (lease_Uuid l) l" using di mem [OF that(1)] by (auto simp: domain_inv_def intro: kv_all_get)
    then show ?thesis using that(2) by (auto simp: index_complete_iff domainsByService_set)
  qed
  have base: "\<forall>l \<in> set ?ls. tenantAddr E l \<noteq> None \<and> catalogued (sku_keeper ?st) l"
    using ai ci st0(2) mem by (auto simp: accounts_inv_def leases_wf_def lease_wf_def catalogue_inv_def SetParams_def kv_all_def)
  have e: "Leases ?st = []" "CustomDomainIndex ?st = []" "CreditAccounts ?st = []" "LeaseSequence ?st = 0" "LeaseBySKUIndex ?st = []"
    using st0(1) by (simp_all add: ledger_empty_def SetParams_def)
  have dd: "distinct (map lease_Uuid ?ls)" unfolding uu by (rule kv_ok_distinct [OF ok(1)])
  from initLeases_ok [OF base, of "kv_get (CustomDomainIndex st)"] dom dd e
  obtain st1 where st1: "initLeases E ?st ?ls = Ok st1" and L1: "Leases st1 = Leases st"
    using foldl_keyed [OF ok(1) keys] by auto
  have r1: "LeaseSequence st1 = 0" "bank st1 = bank st0" "authority st1 = authority st0" "events st1 = events st0"
    using initLeases_rest [OF st1] e by (simp_all add: SetParams_def)
  define key where "key ca = the (AccAddressFromBech32 E (ca_Tenant ca))" for ca :: CreditAccount
  have ks: "\<forall>e \<in> set (CreditAccounts st). AccAddressFromBech32 E (ca_Tenant (snd e)) = Some (fst e)"
    using ai by (auto simp: accounts_inv_def kv_all_def account_matches_def)
  then have k: "\<forall>e \<in> set (CreditAccounts st). key (snd e) = fst e" by (simp add: key_def)
  from ks have "\<forall>ca \<in> set ?cas. AccAddressFromBech32 E (ca_Tenant ca) = Some (key ca)" by (auto simp: key_def)
  from initAccounts_ok [OF this, of st1] obtain st2 where st2: "initAccounts E st1 ?cas = Ok st2"
    and s2: "st2 = st1\<lparr>CreditAccounts := foldl (\<lambda>m ca. kv_set (key ca) ca m) (CreditAccounts st1) ?cas,
       CreditAddressIndex := foldl (\<lambda>m ca. kv_set (DeriveCreditAddress E (key ca)) (key ca) m) (CreditAddressIndex st1) ?cas\<rparr>"
    by blast
  have "CreditAccounts st1 = []" using initLeases_sel [OF st1] e(3) by simp
  then have C2: "CreditAccounts st2 = CreditAccounts st" and r2: "LeaseSequence st2 = 0" "bank st2 = bank st0"
    "authority st2 = authority st0" "events st2 = events st0"
    using s2 foldl_keyed [OF ok(2) k] r1 by simp_all
  have "sku_keeper st2 = sku_keeper st" using initLeases_sel [OF st1] st0(2) by (simp add: s2 SetParams_def)
  have d1: "domain_inv st1"
    using di e by (intro initLeases_domains [OF st1]) (auto simp: domain_inv_def keyed_def kv_all_def index_complete_def)
  have s1: "sku_index_inv st1" using e dd by (intro initLeases_sku_index [OF st1]) (simp_all add: sku_index_inv_def)
  have "lg_Params st2 = lg_Params st"
    using initLeases_sel [OF st1] initAccounts_stores [OF st2] p by (simp add: SetParams_def)
  moreover have "Leases st2 = Leases st \<and> CustomDomainIndex st2 = CustomDomainIndex st \<and> LeaseBySKUIndex st2 = LeaseBySKUIndex st"
    using initAccounts_stores [OF st2] same_domain_index [OF di d1 L1] same_sku_index [OF si s1 L1] L1 by simp
  ultimately have "InitGenesis E ctx st0 ?gs = Ok (st2\<lparr>LeaseSequence := LeaseSequence st\<rparr>)"
    using time st1 st2 r2(1) by (auto simp: InitGenesis_def ValidateWithBlockTime_def word_gt_0)
  then show ?thesis
    using p C2 r2 \<open>sku_keeper st2 = _\<close> \<open>lg_Params st2 = lg_Params st\<close> \<open>Leases st2 = Leases st \<and> _\<close>
    by (auto simp: ExportGenesis_def GetParams_def)
qed

end

end
