(* ===== verification/Genesis_Props.thy ===== *)
theory Genesis_Props
  imports Billing_Genesis Billing_Props
begin

text \<open>
  The properties of the genesis of the billing module.
\<close>

definition sample_genesis :: GenesisState where
  "sample_genesis = \<lparr>gs_Params = DefaultParams, gs_Leases = [sample_active, sample_pending],
     gs_CreditAccounts = [sample_account], gs_LeaseSequence = 2\<rparr>"

definition sample_empty :: "ref_bank ledger" where
  "sample_empty = \<lparr>bank = sample_bank, sku_keeper = sample_sku_state, authority = ''manifest1gov'',
     lg_Params = None, Leases = [], LeaseSequence = 0, CreditAccounts = [], CreditAddressIndex = [],
     LeaseBySKUIndex = [], CustomDomainIndex = [], events = []\<rparr>"

lemma sample_genesis_times: "blockTimeLoop (BlockTime sample_ctx) [sample_active, sample_pending] = Ok ()"
  by (simp add: sample_data sample_ctx_def)

lemma sample_credit_decode: "AccAddressFromBech32 ref_sdk (ref_encode sample_credit) = Some sample_credit"
  by (simp add: sample_credit_def DeriveCreditAddress_def CreditAccountAddressPrefix_def ModuleName_def
      ref_sdk_def ref_decode_def ref_encode_def ref_hrp_def bytes_of_def char_of_def bit_0)

lemma sample_fqdn: "IsValidFQDN ''app.example.com'' = Ok ()" "IsValidDNSLabel ''web''"
  by (simp_all add: IsValidFQDN_def IsValidDNSLabel_def MaxCustomDomainLength_def MaxServiceNameLength_def
      ToLower_def lowerByte_def isUpperByte_def isLowerByte_def isDigitByte_def)

lemma sample_ids [simp]: "sample_suuid \<noteq> []" "sample_puuid \<noteq> []" "sample_l1 \<noteq> []" "sample_l2 \<noteq> []"
  by (simp_all add: sample_suuid_def sample_puuid_def sample_l1_def sample_l2_def)

lemma sample_genesis_leases:
  "genesisLease ref_sdk [] {} sample_active = Ok ()"
  "genesisLease ref_sdk [] {sample_l1} sample_pending = Ok ()"
  by (simp_all add: genesisLease_def sample_data IsValidUUID_def ref_ops sample_fqdn MaxMetaHashLength_def)

lemma sample_genesis_expected:
  "CalculateExpectedReservationsByTenant ref_sdk [sample_active, sample_pending] 3600 =
     Ok [(''manifest1ten'', [\<lparr>Denom = ''umfx'', Amount = 21600\<rparr>])]"
  by (simp add: CalculateExpectedReservationsByTenant_def GetLeaseReservationAmount_def sample_active_def
      sample_pending_def sample_price_def CalculateLeaseReservation_def ref_eval)

lemma sample_genesis_accounts:
  "genesisAccountsLoop ref_sdk {} [sample_account] = Ok ()"
  "reservationsLoop ref_sdk [(''manifest1ten'', [\<lparr>Denom = ''umfx'', Amount = 21600\<rparr>])] [sample_account] = Ok ()"
  by (simp_all add: sample_account_def sample_credit_decode ref_eval)
    (simp add: ref_sdk_def ref_encode_def ref_hrp_def)

lemma sample_genesis_counts:
  "leaseCountsLoop [] [] [sample_active, sample_pending] = ([(''manifest1ten'', 1)], [(''manifest1ten'', 1)])"
  "countsLoop [(''manifest1ten'', 1)] [(''manifest1ten'', 1)] [sample_account] = Ok ()"
  by (simp_all add: sample_active_def sample_pending_def sample_account_def kv_get_Cons)

lemma sample_genesis_valid: "GenesisState_Validate ref_sdk sample_genesis = Ok ()"
proof -
  have p: "ReservedDomainSuffixes DefaultParams = []" "MinLeaseDuration DefaultParams = 3600"
    by (simp_all add: DefaultParams_def)
  have l: "lease_Uuid sample_active = sample_l1" by (simp add: sample_active_def)
  have c: "ca_Tenant sample_account = ''manifest1ten''" by (simp add: sample_account_def)
  show ?thesis
    by (simp add: GenesisState_Validate_def sample_genesis_def sample_params_valid p l sample_genesis_leases
        sample_genesis_expected sample_genesis_accounts sample_genesis_counts del: genesisAccountsLoop.simps
        reservationsLoop.simps leaseCountsLoop.simps countsLoop.simps) (simp add: c)
qed

lemma sample_export: "ExportGenesis sample_ledger = Ok sample_genesis"
  by (simp add: ExportGenesis_def GetParams_def sample_ledger_def sample_genesis_def)

lemma sample_ledger_times: "blockTimeLoop (BlockTime sample_ctx) (map snd (Leases sample_ledger)) = Ok ()"
  using sample_genesis_times by (simp add: sample_ledger_def)

lemma sample_empty_ledger: "ledger_empty sample_empty" "sku_keeper sample_empty = sku_keeper sample_ledger"
  by (simp_all add: ledger_empty_def sample_empty_def sample_ledger_def)

lemma sample_params: "lg_Params sample_ledger = Some DefaultParams"
  by (simp add: sample_ledger_def)

section \<open>Import\<close>

definition domains_apart :: "Lease list \<Rightarrow> bool" where
  \<comment> \<open>a domain of a live lease is claimed once, by one service of that lease\<close>
  "domains_apart ls \<longleftrightarrow> list_all (\<lambda>l. list_all (\<lambda>l'. editable l \<and> editable l' \<longrightarrow>
     list_all (\<lambda>i. list_all (\<lambda>i'. CustomDomain i \<noteq> [] \<and> CustomDomain i' = CustomDomain i \<longrightarrow>
       lease_Uuid l' = lease_Uuid l \<and> ServiceName i' = ServiceName i) (Items l')) (Items l)) ls) ls"

lemma domains_apart_own:
  "domains_apart ls \<longleftrightarrow> (\<forall>l \<in> set ls. \<forall>l' \<in> set ls. \<forall>s s' d. editable l \<longrightarrow> editable l' \<longrightarrow>
     claims (Items l) s d \<longrightarrow> claims (Items l') s' d \<longrightarrow> own l' s' = own l s)"
    (is "_ \<longleftrightarrow> ?owns")
proof
  assume "domains_apart ls"
  then have "lease_Uuid l' = lease_Uuid l \<and> ServiceName i' = ServiceName i"
    if "l \<in> set ls" "l' \<in> set ls" "editable l" "editable l'" "i \<in> set (Items l)" "i' \<in> set (Items l')"
      "CustomDomain i \<noteq> []" "CustomDomain i' = CustomDomain i" for l l' i i'
    using that unfolding domains_apart_def list_all_iff by blast
  then show ?owns by (auto simp: claims_def list_ex_iff own_def)
next
  assume o: ?owns
  have "lease_Uuid l' = lease_Uuid l \<and> ServiceName i' = ServiceName i"
    if l: "l \<in> set ls" "l' \<in> set ls" "editable l" "editable l'" and i: "i \<in> set (Items l)" "i' \<in> set (Items l')"
      "CustomDomain i \<noteq> []" "CustomDomain i' = CustomDomain i" for l l' i i'
  proof -
    have "claims (Items l) (ServiceName i) (CustomDomain i)" "claims (Items l') (ServiceName i') (CustomDomain i)"
      using i by (auto simp: claims_def list_ex_iff)
    with o l have "own l' (ServiceName i') = own l (ServiceName i)" by blast
    then show ?thesis by (simp add: own_def)
  qed
  then show "domains_apart ls" unfolding domains_apart_def list_all_iff by blast
qed

lemma foldl_lookup:
  "distinct (map key vs) \<Longrightarrow> v \<in> set vs \<Longrightarrow> kv_get (foldl (\<lambda>m v. kv_set (key v) v m) m vs) (key v) = Some v"
proof (induction vs arbitrary: m)
  case (Cons w vs)
  have "kv_get (foldl (\<lambda>m v. kv_set (key v) v m) m' vs) k = kv_get m' k" if "k \<notin> key ` set vs" for m' k
    using that by (induction vs arbitrary: m') auto
  with Cons show ?case by (cases "v \<in> set vs") auto
qed simp

lemma initLeases_foldl:
  "initLeases E st ls = Ok st' \<Longrightarrow> Leases st' = foldl (\<lambda>m l. kv_set (lease_Uuid l) l m) (Leases st) ls"
  by (induction ls arbitrary: st) (auto dest: SetLease_sel(1))

lemma initLeases_iff:
  assumes gl: "genesis_leases_ok E ls" and e: "Leases st = []" "CustomDomainIndex st = []"
  shows "(\<exists>st'. initLeases E st ls = Ok st') \<longleftrightarrow> (\<forall>l \<in> set ls. catalogued (sku_keeper st) l) \<and> domains_apart ls"
proof
  have d: "distinct (map lease_Uuid ls)" and nm: "domains_named (Items l)" if "l \<in> set ls" for l
    using gl that by (auto simp: genesis_leases_ok_def list_all_iff)
  {
    assume "\<exists>st'. initLeases E st ls = Ok st'"
    then obtain st' where st': "initLeases E st ls = Ok st'" ..
    have di: "domain_inv st'"
      using gl e by (intro initLeases_domains [OF st'])
        (auto simp: genesis_leases_ok_def list_all_iff domain_inv_def keyed_def)
    have "kv_get (CustomDomainIndex st') d = Some (own l s)"
      if "l \<in> set ls" "editable l" "claims (Items l) s d" for l s d
    proof -
      have "kv_get (Leases st') (lease_Uuid l) = Some l"
        unfolding initLeases_foldl [OF st'] by (rule foldl_lookup [OF d [OF that(1)] that(1)])
      then have "index_complete st' (lease_Uuid l) l" using di by (auto simp: domain_inv_def intro: kv_all_get)
      with that show ?thesis by (simp add: index_complete_iff)
    qed
    then have "domains_apart ls" unfolding domains_apart_own by (metis option.inject)
    with initLeases_sel [OF st'] show "(\<forall>l \<in> set ls. catalogued (sku_keeper st) l) \<and> domains_apart ls" by blast
  next
    assume r: "(\<forall>l \<in> set ls. catalogued (sku_keeper st) l) \<and> domains_apart ls"
    define J where "J d = (if \<exists>l \<in> set ls. \<exists>s. editable l \<and> claims (Items l) s d
      then Some (SOME e. \<exists>l \<in> set ls. \<exists>s. editable l \<and> claims (Items l) s d \<and> e = own l s) else None)" for d
    have J: "J d = Some (own l s)" if "l \<in> set ls" "editable l" "claims (Items l) s d" for l s d
    proof -
      let ?e = "SOME e. \<exists>l \<in> set ls. \<exists>s. editable l \<and> claims (Items l) s d \<and> e = own l s"
      have "\<exists>e. \<exists>l \<in> set ls. \<exists>s. editable l \<and> claims (Items l) s d \<and> e = own l s" using that by blast
      from someI_ex [OF this] obtain l' s' where l': "l' \<in> set ls" "editable l'" "claims (Items l') s' d" "?e = own l' s'" by blast
      have "own l' s' = own l s" using r l'(1-3) that unfolding domains_apart_own by blast
      moreover have "J d = Some ?e" using that unfolding J_def by (intro if_P) blast
      ultimately show ?thesis using l'(4) by simp
    qed
    show "\<exists>st'. initLeases E st ls = Ok st'"
    proof (cases ls)
      case (Cons l0 ls')
      then have "distinct (map lease_Uuid ls)" by (intro d [of l0]) simp
      moreover have "\<forall>l \<in> set ls. tenantAddr E l \<noteq> None \<and> catalogued (sku_keeper st) l"
        using gl r by (simp add: genesis_leases_ok_def list_all_iff)
      moreover have "\<forall>l \<in> set ls. editable l \<longrightarrow> (\<forall>(s, d) \<in> set (domainsByService (Items l)). J d = Some (own l s))"
        using J nm by (auto simp: domainsByService_set)
      ultimately show ?thesis using initLeases_ok [of ls E st J] e by simp blast
    qed simp
  }
qed

lemma InitGenesis_iff:
  assumes val: "GenesisState_Validate E gs = Ok ()" and empty: "ledger_empty st"
  shows "isOk (InitGenesis E ctx st gs) \<longleftrightarrow> ValidateWithBlockTime gs (BlockTime ctx) = Ok () \<and>
     (\<forall>l \<in> set (gs_Leases gs). catalogued (sku_keeper st) l) \<and> domains_apart (gs_Leases gs)"
proof -
  let ?st = "SetParams st (gs_Params gs)" and ?cas = "gs_CreditAccounts gs"
  from val have lv: "genesisLeasesLoop E (ReservedDomainSuffixes (gs_Params gs)) {} (gs_Leases gs) = Ok ()"
    and av: "genesisAccountsLoop E {} ?cas = Ok ()" by (auto simp: GenesisState_Validate_def)
  have "\<forall>ca \<in> set ?cas. AccAddressFromBech32 E (ca_Tenant ca) = Some (the (AccAddressFromBech32 E (ca_Tenant ca)))"
    using genesisAccounts_ok [OF av] by fastforce
  from initAccounts_ok [OF this] have acc: "\<exists>st'. initAccounts E st1 ?cas = Ok st'" for st1 by blast
  have "genesis_leases_ok E (gs_Leases gs)" using genesisLeases_ok [OF lv] by simp
  from initLeases_iff [OF this, of ?st] empty have
    "(\<exists>st'. initLeases E ?st (gs_Leases gs) = Ok st') \<longleftrightarrow>
       (\<forall>l \<in> set (gs_Leases gs). catalogued (sku_keeper st) l) \<and> domains_apart (gs_Leases gs)"
    by (simp add: ledger_empty_def SetParams_def)
  with acc show ?thesis by (fastforce simp: isOk_iff InitGenesis_def)
qed


lemma sample_clean: "genesis_clean ref_sdk sample_genesis"
  by (simp add: genesis_clean_def sample_genesis_def canonical_def sample_data)


lemma genesisDomains_reserved:
  "genesisDomainsLoop reserved siblings items = Ok () \<Longrightarrow> i \<in> set items \<Longrightarrow> CustomDomain i \<noteq> [] \<Longrightarrow>
   \<not> MatchesReservedSuffix (CustomDomain i) reserved"
  by (induction items) (auto split: if_split_asm)

lemma genesisLeases_reserved:
  "genesisLeasesLoop E reserved seen ls = Ok () \<Longrightarrow> l \<in> set ls \<Longrightarrow> i \<in> set (Items l) \<Longrightarrow> CustomDomain i \<noteq> [] \<Longrightarrow>
   \<not> MatchesReservedSuffix (CustomDomain i) reserved"
proof (induction ls arbitrary: seen)
  case (Cons k ls)
  have "genesisDomainsLoop reserved (Items k) (Items k) = Ok ()"
    using Cons.prems(1) by (auto simp: genesisLease_def split: if_split_asm)
  with Cons genesisDomains_reserved show ?case by auto
qed simp

lemma export_refused:
  assumes "lg_Params st = Some p" and "kv_get (Leases st) u = Some l"
    and "i \<in> set (Items l)" and "CustomDomain i \<noteq> []"
    and "MatchesReservedSuffix (CustomDomain i) (ReservedDomainSuffixes p)"
  shows "\<exists>gs. ExportGenesis st = Ok gs \<and> GenesisState_Validate E gs \<noteq> Ok ()"
proof -
  obtain gs where gs: "ExportGenesis st = Ok gs" using assms(1) by (simp add: ExportGenesis_def GetParams_def)
  have "GenesisState_Validate E gs \<noteq> Ok ()"
  proof
    assume "GenesisState_Validate E gs = Ok ()"
    then have "genesisLeasesLoop E (ReservedDomainSuffixes p) {} (map snd (Leases st)) = Ok ()"
      using assms(1) gs by (auto simp: GenesisState_Validate_def ExportGenesis_def GetParams_def)
    moreover have "l \<in> set (map snd (Leases st))" using kv_get_SomeD [OF assms(2)] by force
    ultimately show False using genesisLeases_reserved assms(3-5) by blast
  qed
  with gs show ?thesis by blast
qed

text \<open>
  Claim C20.  When an accepted \<open>UpdateParams\<close> reserves a zone in which some stored lease has a
  domain, the domain is not released, and the export of the resulting state fails genesis
  validation.  When that lease has already ended its domain can never be cleared: after every
  further run of billing messages, as long as the parameters reserve the domain, the export
  still fails.
\<close>

theorem reserved_domain_blocks_export:
  assumes "sdk_laws E" and "billing_inv E st" and "UpdateParams E st m = Ok st1"
    and "kv_get (Leases st) u = Some l" and "i \<in> set (Items l)" and "CustomDomain i \<noteq> []"
    and "MatchesReservedSuffix (CustomDomain i) (ReservedDomainSuffixes (upd_Params m))"
  shows "(\<exists>gs. ExportGenesis st1 = Ok gs \<and> GenesisState_Validate E gs \<noteq> Ok ()) \<and>
    (\<not> live (State l) \<longrightarrow> admissible_run (billing_handle E) (billing_adm E) cms st1 \<longrightarrow>
       lg_Params (deliverAll (billing_handle E) cms st1) = Some p \<longrightarrow>
       MatchesReservedSuffix (CustomDomain i) (ReservedDomainSuffixes p) \<longrightarrow>
       (\<exists>gs. ExportGenesis (deliverAll (billing_handle E) cms st1) = Ok gs \<and> GenesisState_Validate E gs \<noteq> Ok ()))"
proof -
  have st1: "lg_Params st1 = Some (upd_Params m)" "kv_get (Leases st1) u = Some l"
    using assms(3,4) by (auto simp: UpdateParams_def SetParams_def emit_def split: if_split_asm)
  have "billing_inv E st1"
    using sdk_laws.billing_preserves [OF assms(1,2), of ctx "UpdateParamsMsg m" st1 NoResp for ctx] assms(3)
    by (simp add: billing_adm_def)
  then have "\<exists>gs. ExportGenesis (deliverAll (billing_handle E) cms st1) = Ok gs \<and> GenesisState_Validate E gs \<noteq> Ok ()"
    if r: "\<not> live (State l)" "admissible_run (billing_handle E) (billing_adm E) cms st1"
      "lg_Params (deliverAll (billing_handle E) cms st1) = Some p"
      "MatchesReservedSuffix (CustomDomain i) (ReservedDomainSuffixes p)"
  proof -
    obtain l' where l': "kv_get (Leases (deliverAll (billing_handle E) cms st1)) u = Some l'"
      "l' = l\<lparr>LastSettledAt := LastSettledAt l'\<rparr>"
      using sdk_laws.run_leases_le [OF assms(1) \<open>billing_inv E st1\<close> r(2)] st1(2) r(1)
      unfolding leases_le_def lease_le_def by blast
    then have "Items l' = Items l" by (metis Lease.select_convs(4) Lease.surjective Lease.update_convs(8))
    with assms(5) have "i \<in> set (Items l')" by simp
    from export_refused [OF r(3) l'(1) this assms(6) r(4)] show ?thesis .
  qed
  moreover have "\<exists>gs. ExportGenesis st1 = Ok gs \<and> GenesisState_Validate E gs \<noteq> Ok ()"
    by (rule export_refused [OF st1 assms(5-7)])
  ultimately show ?thesis by blast
qed

definition sample_reserve :: MsgUpdateParams where
  "sample_reserve = \<lparr>upd_Authority = ''manifest1gov'',
     upd_Params = DefaultParams\<lparr>ReservedDomainSuffixes := [''.example.com'']\<rparr>\<rparr>"

lemma sample_suffix: "MatchesReservedSuffix ''app.example.com'' [''.example.com'']" "IsValidFQDN ''example.com'' = Ok ()"
  by (simp_all add: IsValidFQDN_def IsValidDNSLabel_def MaxCustomDomainLength_def MaxServiceNameLength_def HasSuffix_def
      ToLower_def lowerByte_def isUpperByte_def isLowerByte_def isDigitByte_def Let_def)

definition sample_closed :: Lease where
  "sample_closed = sample_active\<lparr>State := LEASE_STATE_CLOSED, ClosedAt := Some 1699999900000000000\<rparr>"

definition sample_ended :: "ref_bank ledger" where
  "sample_ended = sample_empty\<lparr>lg_Params := Some DefaultParams, Leases := [(sample_l1, sample_closed)], LeaseSequence := 1,
     LeaseBySKUIndex := [((sample_suuid, sample_l1), True)]\<rparr>"

lemma sample_ended_inv: "billing_inv ref_sdk sample_ended"
proof -
  note data = sample_ended_def sample_empty_def sample_closed_def sample_active_def sample_price_def
  have "lease_wf ref_sdk sample_l1 sample_closed" by (simp add: lease_wf_def data tenantAddr_def)
  then have "accounts_inv ref_sdk sample_ended"
    by (simp add: accounts_inv_def leases_wf_def kv_ok_def kv_all_def live_has_account_def sample_ended_def sample_empty_def)
      (simp add: sample_closed_def)
  moreover have "domain_inv sample_ended"
    by (simp add: domain_inv_def keyed_def data kv_ok_def kv_all_def index_complete_def domains_named_def svc_count_def editable_def)
  moreover have "catalogue_inv sample_ended"
    by (simp add: catalogue_inv_def catalogued_def kv_all_def data GetProvider_def sample_sku_state_def kv_get_Cons sample_sku_def)
  moreover have "sku_index_inv sample_ended" by (auto simp: sku_index_inv_def data kv_get_Cons kv_ok_def)
  moreover have "params_ok ref_sdk sample_ended"
    using sample_params_valid by (simp add: params_ok_def sample_ended_def)
  ultimately show ?thesis by (simp add: billing_inv_def)
qed

theorem reserved_domain_blocks_export_witness:
  "\<exists>st1 gs. UpdateParams ref_sdk sample_ended sample_reserve = Ok st1 \<and>
     ExportGenesis (deliverAll (billing_handle ref_sdk) [(sample_ctx, UpdateParamsMsg sample_reserve)] st1) = Ok gs \<and>
     GenesisState_Validate ref_sdk gs \<noteq> Ok ()"
proof -
  let ?p = "upd_Params sample_reserve" and ?cms = "[(sample_ctx, UpdateParamsMsg sample_reserve)]"
  have "AccAddressFromBech32 ref_sdk ''manifest1gov'' \<noteq> None" by (simp add: ref_sdk_def ref_decode_def ref_hrp_def)
  then have run: "UpdateParams ref_sdk st sample_reserve = Ok (emit [Event ''params_updated'' []] (SetParams st ?p))"
    if "authority st = ''manifest1gov''" for st
    using that by (simp add: UpdateParams_def MsgUpdateParams_ValidateBasic_def sample_reserve_def
        Params_Validate_def DefaultParams_def MaxPendingTimeout_def MinPendingTimeout_def
        MaxPendingLeasesPerTenantUpperBound_def MaxMinLeaseDuration_def MaxItemsPerLeaseHardLimit_def
        MaxLeasesPerTenantUpperBound_def sample_suffix)
  define st1 where "st1 = emit [Event ''params_updated'' []] (SetParams sample_ended ?p)"
  have r1: "UpdateParams ref_sdk sample_ended sample_reserve = Ok st1"
    unfolding st1_def by (rule run) (simp add: sample_ended_def sample_empty_def)
  have p: "lg_Params (deliverAll (billing_handle ref_sdk) ?cms st1) = Some ?p"
    using run [of st1] by (simp add: deliverAll_def deliver_def st1_def emit_def SetParams_def sample_ended_def sample_empty_def)
  have l: "kv_get (Leases sample_ended) sample_l1 = Some sample_closed" "hd (Items sample_closed) \<in> set (Items sample_closed)"
    "CustomDomain (hd (Items sample_closed)) \<noteq> []" "\<not> live (State sample_closed)"
    "MatchesReservedSuffix (CustomDomain (hd (Items sample_closed))) (ReservedDomainSuffixes ?p)"
    by (simp_all add: sample_ended_def kv_get_Cons sample_closed_def sample_active_def sample_reserve_def sample_suffix
        del: MatchesReservedSuffix.simps)
  from reserved_domain_blocks_export [OF ref.sdk_laws_axioms sample_ended_inv r1 l(1-3,5), of ?cms ?p] l(4,5) p r1
  show ?thesis by (auto simp: billing_adm_def)
qed

end
