(* ===== verification/Chain.thy ===== *)
theory Chain
  imports Lease_Board Genesis_Props Manifest
begin

text \<open>
  The modules together.  The ledger of the billing module holds the bank and the SKU
  keeper it is built on, so one state carries the three modules.  A step of the chain is a
  message of one of them, the end of a block, or a change of the bank made by another
  module; the chain starts from genesis, which initialises the SKU module before the
  billing module.
\<close>

section \<open>The catalogue only grows\<close>

definition sku_keeps :: "sku_state \<Rightarrow> sku_state \<Rightarrow> bool" where
  \<comment> \<open>no provider and no SKU is lost, and a SKU stays with its provider\<close>
  "sku_keeps sk sk' \<longleftrightarrow>
     (\<forall>u. kv_get (Providers sk) u \<noteq> None \<longrightarrow> kv_get (Providers sk') u \<noteq> None) \<and>
     (\<forall>u s. kv_get (SKUs sk) u = Some s \<longrightarrow>
        (\<exists>s'. kv_get (SKUs sk') u = Some s' \<and> sku_ProviderUuid s' = sku_ProviderUuid s))"

definition sku_adm :: "block_ctx \<Rightarrow> sku_state \<Rightarrow> sku_msg \<Rightarrow> bool" where
  \<comment> \<open>a SKU is created under an identifier that is not taken\<close>
  "sku_adm ctx sk m \<longleftrightarrow>
     (case m of CreateSKUMsg _ \<Rightarrow> kv_get (SKUs sk) (fst (GenerateSKUUUID ctx sk)) = None | _ \<Rightarrow> True)"

lemma sku_keeps_set_provider:
  "SKUs sk' = SKUs sk \<Longrightarrow> Providers sk' = kv_set u p (Providers sk) \<Longrightarrow> sku_keeps sk sk'"
  by (auto simp: sku_keeps_def)

lemma sku_keeps_set_sku:
  assumes "Providers sk' = Providers sk" and "SKUs sk' = kv_set u s (SKUs sk)"
    and "\<And>s0. kv_get (SKUs sk) u = Some s0 \<Longrightarrow> sku_ProviderUuid s = sku_ProviderUuid s0"
  shows "sku_keeps sk sk'"
  using assms by (auto simp: sku_keeps_def)

lemma DeactivateProvider_keeps:
  assumes "DeactivateProvider E sk req = Ok (sk', n, hm)" and "sku_inv E sk"
  shows "sku_keeps sk sk'"
proof -
  from assms(1) have "kv_get (Providers sk) u \<noteq> None \<longrightarrow> kv_get (Providers sk') u \<noteq> None" for u
    by (auto simp: DeactivateProvider_def Let_def split: if_split_asm dest!: SetProvider_sel(2))
  then show ?thesis using DeactivateProvider_SKUs [OF assms] by (auto simp: sku_keeps_def)
qed

lemma sku_handle_keeps:
  assumes run: "sku_handle E ctx sk m = Ok (sk', r)" and inv: "sku_inv E sk" and adm: "sku_adm ctx sk m"
  shows "sku_keeps sk sk'"
proof (cases m)
  case (CreateProviderMsg x)
  with run obtain st1 st2 p where "SetProvider E st1 p = Ok st2" "SKUs st1 = SKUs sk" "Providers st1 = Providers sk"
    "SKUs sk' = SKUs st2" "Providers sk' = Providers st2"
    by (auto simp: CreateProvider_def GenerateProviderUUID_def Let_def)
  then show ?thesis using SetProvider_sel sku_keeps_set_provider by metis
next
  case (UpdateProviderMsg x)
  with run obtain st2 p where "SetProvider E sk p = Ok st2" "SKUs sk' = SKUs st2" "Providers sk' = Providers st2"
    by (auto simp: UpdateProvider_def Let_def split: if_split_asm)
  then show ?thesis using SetProvider_sel sku_keeps_set_provider by metis
next
  case (DeactivateProviderMsg x)
  with run inv show ?thesis by (auto intro: DeactivateProvider_keeps)
next
  case (CreateSKUMsg x)
  let ?u = "fst (GenerateSKUUUID ctx sk)"
  let ?s = "\<lparr>sku_Uuid = ?u, sku_ProviderUuid = cs_ProviderUuid x, sku_Name = cs_Name x, sku_Unit = cs_Unit x,
     BasePrice = cs_BasePrice x, sku_MetaHash = cs_MetaHash x, sku_Active = True\<rparr>"
  from CreateSKUMsg run have "Providers sk' = Providers sk" "SKUs sk' = kv_set ?u ?s (SKUs sk)"
    by (auto simp: CreateSKU_def GenerateSKUUUID_def Let_def split: if_split_asm)
  then show ?thesis using adm CreateSKUMsg by (intro sku_keeps_set_sku [where s = ?s]) (auto simp: sku_adm_def)
next
  case (UpdateSKUMsg x)
  let ?s = "\<lparr>sku_Uuid = us_Uuid x, sku_ProviderUuid = us_ProviderUuid x, sku_Name = us_Name x, sku_Unit = us_Unit x,
     BasePrice = us_BasePrice x, sku_MetaHash = us_MetaHash x, sku_Active = us_Active x\<rparr>"
  from UpdateSKUMsg run obtain s0 where "kv_get (SKUs sk) (us_Uuid x) = Some s0" "us_ProviderUuid x = sku_ProviderUuid s0"
    "Providers sk' = Providers sk" "SKUs sk' = kv_set (us_Uuid x) ?s (SKUs sk)"
    by (auto simp: UpdateSKU_def GetSKU_def Let_def split: if_split_asm)
  then show ?thesis by (intro sku_keeps_set_sku [where s = ?s]) auto
next
  case (DeactivateSKUMsg x)
  with run obtain s0 where s0: "kv_get (SKUs sk) (ds_Uuid x) = Some s0"
    "Providers sk' = Providers sk" "SKUs sk' = kv_set (sku_Uuid s0) (s0\<lparr>sku_Active := False\<rparr>) (SKUs sk)"
    by (auto simp: DeactivateSKU_def GetSKU_def split: if_split_asm)
  moreover have "sku_Uuid s0 = ds_Uuid x" using sku_inv_sku [OF inv s0(1)] by (auto simp: sku_wf_def)
  ultimately show ?thesis by (intro sku_keeps_set_sku) auto
next
  case (SkuUpdateParamsMsg x)
  with run show ?thesis by (auto simp: sku_UpdateParams_def sku_SetParams_def sku_keeps_def split: if_split_asm)
qed

lemma catalogued_keeps: "catalogued sk l \<Longrightarrow> sku_keeps sk sk' \<Longrightarrow> catalogued sk' l"
  by (fastforce simp: catalogued_def sku_keeps_def list_all_iff isOk_iff GetProvider_def)

lemma billing_inv_catalogue:
  assumes "billing_inv E st" and "sku_keeps (sku_keeper st) sk'"
  shows "billing_inv E (st\<lparr>sku_keeper := sk'\<rparr>)"
proof -
  have "catalogue_inv (st\<lparr>sku_keeper := sk'\<rparr>)"
    using assms catalogued_keeps by (auto simp: billing_inv_def catalogue_inv_def kv_all_def)
  moreover have "accounts_inv E (st\<lparr>sku_keeper := sk'\<rparr>)"
    using assms(1) by (simp add: billing_inv_def accounts_inv_def live_has_account_def [abs_def])
  moreover have "domain_inv (st\<lparr>sku_keeper := sk'\<rparr>)"
    using assms(1) by (simp add: billing_inv_def domain_inv_def keyed_def index_sound_def [abs_def] index_complete_def [abs_def])
  ultimately show ?thesis using assms(1) by (simp add: billing_inv_def params_ok_def sku_index_inv_def)
qed

section \<open>Steps and reachable states\<close>

inductive chain_step :: "'x sdk \<Rightarrow> 'x mint_sdk \<Rightarrow> 'x ledger \<Rightarrow> 'x ledger \<Rightarrow> bool" for E B where
  BillingMsg: "billing_adm E ctx st m \<Longrightarrow> billing_handle E ctx st m = Ok (st', r) \<Longrightarrow> chain_step E B st st'"
| SkuMsg: "sku_adm ctx (sku_keeper st) m \<Longrightarrow> sku_handle E ctx (sku_keeper st) m = Ok (sk', r) \<Longrightarrow>
    chain_step E B st (st\<lparr>sku_keeper := sk'\<rparr>)"
| PayoutMsg: "msgServer_Payout E B \<lparr>mk_authority = auth, mk_bank = bank st\<rparr> req = Ok k \<Longrightarrow>
    chain_step E B st (st\<lparr>bank := mk_bank k\<rparr>)"
| BurnMsg: "BurnHeldBalance E B \<lparr>mk_authority = auth, mk_bank = bank st\<rparr> req' = Ok k \<Longrightarrow>
    chain_step E B st (st\<lparr>bank := mk_bank k\<rparr>)"
| BlockEnd: "EndBlocker E ctx st = Ok st' \<Longrightarrow> chain_step E B st st'"
| OtherModule: "chain_step E B st (st\<lparr>bank := b\<rparr>)"

inductive chain_genesis :: "'x sdk \<Rightarrow> GenesisState \<Rightarrow> 'x ledger \<Rightarrow> bool" for E gs where
  \<comment> \<open>\<open>st\<close> is the first state of a chain whose billing genesis is the validated \<open>gs\<close>\<close>
  "SkuGenesis_Validate E sg = Ok () \<Longrightarrow> sku_InitGenesis E (sku_empty auth) sg = Ok (sku_keeper st0) \<Longrightarrow>
   GenesisState_Validate E gs = Ok () \<Longrightarrow> ledger_empty st0 \<Longrightarrow> InitGenesis E ctx st0 gs = Ok st \<Longrightarrow> chain_genesis E gs st"

inductive_cases chain_genesisE: "chain_genesis E gs st"

definition chain_inv :: "'x sdk \<Rightarrow> 'x ledger \<Rightarrow> bool" where
  "chain_inv E st \<longleftrightarrow> billing_inv E st \<and> sku_inv E (sku_keeper st)"

lemma billing_handle_sku: "micros E F ctx st st' \<Longrightarrow> sku_keeper st' = sku_keeper st"
proof (induction rule: rtranclp_induct)
  case (step st1 st2)
  from step.hyps(2) have "sku_keeper st2 = sku_keeper st1"
    by (cases rule: micro.cases) (auto simp: SetParams_def dest: SetLease_sel(4) dest!: SetCreditAccount_sel)
  with step.IH show ?case by simp
qed simp

context sdk_laws
begin

lemma chain_step_inv:
  assumes "chain_step E B st st'" and "chain_inv E st"
  shows "chain_inv E st' \<and> leases_le (Leases st) (Leases st')"
  using assms
proof (induction rule: chain_step.induct)
  case (BillingMsg ctx st m st' r)
  then have m: "micros E (funders E m) ctx st st'"
    by (intro adm_micros) (auto simp: chain_inv_def billing_inv_def domain_inv_def)
  from BillingMsg billing_preserves billing_handle_sku [OF m] micros_leases_le [OF m] show ?case
    by (auto simp: chain_inv_def)
next
  case (SkuMsg ctx st m sk' r)
  then show ?case
    using sku_handle_keeps billing_inv_catalogue sku_handle_inv by (fastforce simp: chain_inv_def)
next
  case (BlockEnd ctx st st')
  then have m: "micros E {} ctx st st'"
    by (intro EndBlocker_micros) (auto simp: chain_inv_def billing_inv_def domain_inv_def)
  from BlockEnd EndBlocker_preserves billing_handle_sku [OF m] micros_leases_le [OF m] show ?case
    by (auto simp: chain_inv_def)
qed (auto simp: chain_inv_def billing_inv_bank)

lemma chain_steps_inv:
  assumes "(chain_step E B)\<^sup>*\<^sup>* st st'" and "chain_inv E st"
  shows "chain_inv E st' \<and> leases_le (Leases st) (Leases st')"
  using assms
proof (induction rule: rtranclp_induct)
  case (step st1 st2)
  then show ?case using chain_step_inv leases_le_trans by blast
qed simp

lemma chain_genesis_inv:
  assumes "chain_genesis E gs st" and clean: "genesis_clean E gs"
  shows "chain_inv E st"
  using assms(1)
proof (rule chain_genesisE)
  fix sg auth ctx and st0 :: "'x ledger"
  assume sg: "SkuGenesis_Validate E sg = Ok ()" "sku_InitGenesis E (sku_empty auth) sg = Ok (sku_keeper st0)"
    and gs: "GenesisState_Validate E gs = Ok ()" "ledger_empty st0" "InitGenesis E ctx st0 gs = Ok st"
  have "sku_inv E (sku_keeper st0)" using InitGenesis_inv [OF sg(1), of auth] sg(2) by auto
  moreover have "sku_keeper st = sku_keeper st0"
    using gs(3) by (auto simp: InitGenesis_def SetParams_def dest!: initLeases_sel initAccounts_stores)
  ultimately show ?thesis using InitGenesis_billing_inv [OF gs(1) clean gs(2,3)] by (simp add: chain_inv_def)
qed

lemma chain_reachable_inv:
  assumes "chain_genesis E gs st0" and "genesis_clean E gs" and "(chain_step E B)\<^sup>*\<^sup>* st0 st"
  shows "chain_inv E st \<and> leases_le (Leases st0) (Leases st)"
  using chain_steps_inv [OF assms(3)] chain_genesis_inv [OF assms(1,2)] by blast

end

end
