(* ===== verification/Money_Flow.thy ===== *)
theory Money_Flow
  imports Chain
begin

text \<open>
  Where coins go.  Every message of the billing module is a list of transfers between bank
  accounts: deposits of its sender into a credit account, and payments of what a lease owes
  from the credit account of its tenant to the payout address of its provider.
\<close>

definition owed :: "'x sdk \<Rightarrow> 'x ledger \<Rightarrow> addr \<Rightarrow> addr \<Rightarrow> bool" where
  \<comment> \<open>some lease that is charged has its tenant's credit at \<open>f\<close> and its provider's payout address at \<open>t\<close>\<close>
  "owed E st f t \<longleftrightarrow> (\<exists>u l a p. kv_get (Leases st) u = Some l \<and> billable l \<and> tenantAddr E l = Some a \<and>
     f = DeriveCreditAddress E a \<and> GetProvider (sku_keeper st) (lease_ProviderUuid l) = Ok p \<and>
     AccAddressFromBech32 E (PayoutAddress p) = Some t)"

type_synonym transfer = "addr \<times> addr \<times> coins"

definition net :: "transfer list \<Rightarrow> addr \<Rightarrow> string \<Rightarrow> int" where
  \<comment> \<open>what the transfers add to the balance of an address\<close>
  "net ts a d = (\<Sum>(f, t, cs)\<leftarrow>ts. (if a = t then amt cs d else 0) - (if a = f then amt cs d else 0))"

lemma net_simps [simp]:
  "net [] a d = 0"
  "net ((f, t, cs) # ts) a d = (if a = t then amt cs d else 0) - (if a = f then amt cs d else 0) + net ts a d"
  "net (ts @ ts') a d = net ts a d + net ts' a d"
  by (simp_all add: net_def)

lemma owedI:
  "kv_get (Leases st) u = Some l \<Longrightarrow> billable l \<Longrightarrow> tenantAddr E l = Some a \<Longrightarrow>
   GetProvider (sku_keeper st) (lease_ProviderUuid l) = Ok p \<Longrightarrow> AccAddressFromBech32 E (PayoutAddress p) = Some t \<Longrightarrow>
   owed E st (DeriveCreditAddress E a) t"
  unfolding owed_def by blast

lemma lease_trans_billable: "lease_trans now l l' \<Longrightarrow> billable l \<Longrightarrow> billable l'"
  by (induction rule: lease_trans.induct) (auto simp: billable_def setItemDomain_def)

lemma lease_trans_parties:
  "lease_trans now l l' \<Longrightarrow> tenantAddr E l' = tenantAddr E l \<and> lease_ProviderUuid l' = lease_ProviderUuid l"
  using lease_trans_le by (auto simp: lease_le_def terms_def tenantAddr_def)

lemma owed_micro:
  assumes "micro E F ctx st st'" and "owed E st f t"
  shows "owed E st' f t"
proof -
  from assms(2) obtain u l a p where l: "kv_get (Leases st) u = Some l" "billable l" "tenantAddr E l = Some a"
    and f: "f = DeriveCreditAddress E a"
    and p: "GetProvider (sku_keeper st) (lease_ProviderUuid l) = Ok p" "AccAddressFromBech32 E (PayoutAddress p) = Some t"
    unfolding owed_def by blast
  have sk: "sku_keeper st' = sku_keeper st" by (rule billing_handle_sku [OF micro1 [OF assms(1)]])
  have "\<exists>l'. kv_get (Leases st') u = Some l' \<and> billable l' \<and> tenantAddr E l' = Some a \<and>
      lease_ProviderUuid l' = lease_ProviderUuid l"
    using assms(1)
  proof cases
    case (LeaseChanged k k')
    note u = lease_trans_uuid [OF LeaseChanged(2)] and tp = lease_trans_parties [OF LeaseChanged(2), of E]
    show ?thesis
    proof (cases "u = lease_Uuid k")
      case True
      with LeaseChanged(1) l have "k = l" by simp
      with l True u tp lease_trans_billable [OF LeaseChanged(2)] SetLease_sel(1) [OF LeaseChanged(3)] show ?thesis by auto
    qed (use l u SetLease_sel(1) [OF LeaseChanged(3)] in auto)
  next
    case (LeaseCreated k)
    with l SetLease_sel(1) [OF LeaseCreated(4)] show ?thesis by auto
  qed (use l in \<open>auto simp: SetParams_def dest!: SetCreditAccount_sel\<close>)
  then obtain l' where "kv_get (Leases st') u = Some l'" "billable l'" "tenantAddr E l' = Some a"
    "lease_ProviderUuid l' = lease_ProviderUuid l" by blast
  with p sk f show ?thesis by (auto intro!: owedI)
qed

lemma expireLoop_bank: "expireLoop E ctx st us = Ok st' \<Longrightarrow> bank st' = bank st"
proof (induction us arbitrary: st)
  case (Cons u us)
  have "bank st1 = bank st" if "ExpirePendingLease E ctx st l = Ok st1" for l st1
    using that by (auto simp: ExpirePendingLease_def Let_def split: if_split_asm dest: SetLease_sel(5) dest!: SetCreditAccount_sel)
  with Cons show ?case by (fastforce split: option.splits result.splits)
qed simp

context sdk_laws
begin

lemma micro_moves:
  assumes "micro E F ctx st st'"
  shows "\<exists>ts. (\<forall>a d. bal E (bank st') a d = bal E (bank st) a d + net ts a d) \<and>
     (\<forall>(f, t, cs) \<in> set ts. coins_ok cs \<and> (f \<in> F \<and> (\<exists>a. t = DeriveCreditAddress E a) \<or> owed E st' f t))"
  using assms
proof cases
  case (Paid l a p pa cs b)
  have "owed E st' (DeriveCreditAddress E a) pa" unfolding Paid(1) using Paid(2-6) by (intro owedI) auto
  with Paid SendCoins_valid [OF Paid(7)] SendCoins_law [OF Paid(7)] show ?thesis
    by (intro exI [of _ "[(DeriveCreditAddress E a, pa, cs)]"]) auto
next
  case (Funded tenant t a cs b)
  with SendCoins_valid [OF Funded(4)] SendCoins_law [OF Funded(4)] show ?thesis
    by (intro exI [of _ "[(a, DeriveCreditAddress E t, cs)]"]) auto
next
  case (Registered a)
  then show ?thesis by (intro exI [of _ "[]"]) (simp add: RegisterAccount_bal)
qed (auto intro!: exI [of _ "[]"] simp: SetParams_def dest: SetLease_sel(5) dest!: SetCreditAccount_sel)

lemma micros_moves:
  assumes "micros E F ctx st st'"
  shows "\<exists>ts. (\<forall>a d. bal E (bank st') a d = bal E (bank st) a d + net ts a d) \<and>
     (\<forall>(f, t, cs) \<in> set ts. coins_ok cs \<and> (f \<in> F \<and> (\<exists>a. t = DeriveCreditAddress E a) \<or> owed E st' f t))"
  using assms
proof (induction rule: rtranclp_induct)
  case base
  show ?case by (intro exI [of _ "[]"]) simp
next
  case (step st1 st2)
  from step.IH obtain ts where ts: "\<forall>a d. bal E (bank st1) a d = bal E (bank st) a d + net ts a d"
    "\<forall>(f, t, cs) \<in> set ts. coins_ok cs \<and> (f \<in> F \<and> (\<exists>a. t = DeriveCreditAddress E a) \<or> owed E st1 f t)" by blast
  from micro_moves [OF step.hyps(2)] obtain ts' where ts': "\<forall>a d. bal E (bank st2) a d = bal E (bank st1) a d + net ts' a d"
    "\<forall>(f, t, cs) \<in> set ts'. coins_ok cs \<and> (f \<in> F \<and> (\<exists>a. t = DeriveCreditAddress E a) \<or> owed E st2 f t)" by blast
  have "\<forall>a d. bal E (bank st2) a d = bal E (bank st) a d + net (ts @ ts') a d" using ts(1) ts'(1) by simp
  moreover have "\<forall>(f, t, cs) \<in> set (ts @ ts'). coins_ok cs \<and> (f \<in> F \<and> (\<exists>a. t = DeriveCreditAddress E a) \<or> owed E st2 f t)"
    using ts(2) ts'(2) owed_micro [OF step.hyps(2)] by fastforce
  ultimately show ?case by blast
qed

end

text \<open>
  Claim C7.  Every accepted billing message moves coins only by transfers of two kinds: from
  its sender into a credit account (deposits), and from the credit address of the tenant of a
  lease that is active or has been closed to the payout address of that lease's provider.
  Every balance changes by exactly the sum of these transfers, so no coin is created or
  destroyed and nobody else loses any; the end of a block moves no coin at all.
\<close>

theorem money_flow:
  assumes "sdk_laws E" and "billing_inv E st"
  shows "(billing_adm E ctx st m \<longrightarrow> billing_handle E ctx st m = Ok (st', r) \<longrightarrow>
     (\<exists>ts. (\<forall>a d. bal E (bank st') a d = bal E (bank st) a d + net ts a d) \<and>
        (\<forall>(f, t, cs) \<in> set ts. coins_ok cs \<and>
           (f \<in> funders E m \<and> (\<exists>a. t = DeriveCreditAddress E a) \<or> owed E st' f t)))) \<and>
   (EndBlocker E ctx st = Ok st'' \<longrightarrow> bank st'' = bank st)"
proof -
  have k: "keyed st" using assms(2) by (simp add: billing_inv_def domain_inv_def)
  have "bank st'' = bank st" if "EndBlocker E ctx st = Ok st''" for st''
    using that by (auto simp: EndBlocker_def Let_def dest: expireLoop_bank)
  with sdk_laws.micros_moves [OF assms(1) sdk_laws.adm_micros [OF assms(1) _ k]] show ?thesis by blast
qed

lemma sample_not_exhausted: "ShouldAutoCloseLease ref_sdk sample_ctx sample_ledger sample_active = Ok (False, zeroTime)"
  by (simp add: ShouldAutoCloseLease_def sample_data sample_ctx_def settle_eval ref_eval)

lemma sample_withdraw_ok: "isOk (Withdraw ref_sdk sample_ctx sample_ledger sample_withdraw)"
proof -
  have t: "withdrawSettleTime sample_ctx sample_active = Some (BlockTime sample_ctx)"
    by (simp add: withdrawSettleTime_def sample_active_def)
  have "\<exists>b r. performSettlementCore ref_sdk sample_ledger sample_active (BlockTime sample_ctx) False = Ok (sample_ledger\<lparr>bank := b\<rparr>, r) \<and>
      AccruedAmounts r = [\<lparr>Denom = ''umfx'', Amount = 400\<rparr>] \<and> TransferAmounts r = [\<lparr>Denom = ''umfx'', Amount = 400\<rparr>]"
    by (simp add: sample_data sample_ctx_def settle_eval ref_eval)
  then obtain b r where s: "performSettlementCore ref_sdk sample_ledger sample_active (BlockTime sample_ctx) False = Ok (sample_ledger\<lparr>bank := b\<rparr>, r)"
    and r: "AccruedAmounts r = [\<lparr>Denom = ''umfx'', Amount = 400\<rparr>]" "TransferAmounts r = [\<lparr>Denom = ''umfx'', Amount = 400\<rparr>]" by blast
  have "isOk (SetLease ref_sdk (sample_ledger\<lparr>bank := b\<rparr>) (sample_active\<lparr>LastSettledAt := BlockTime sample_ctx\<rparr>))"
    by (simp add: SetLease_def reconcileCustomDomainIndex_def domainsByService_def setSKUIndex_def editable_def
        installLoop.simps sample_data ref_eval)
  then obtain st2 where st2: "SetLease ref_sdk (sample_ledger\<lparr>bank := b\<rparr>) (sample_active\<lparr>LastSettledAt := BlockTime sample_ctx\<rparr>) = Ok st2"
    by (rule isOkE)
  have c: "CoinsAdd ref_sdk [] [\<lparr>Denom = ''umfx'', Amount = 400\<rparr>] = Some [\<lparr>Denom = ''umfx'', Amount = 400\<rparr>]"
    "\<not> CoinsIsZero ref_sdk [\<lparr>Denom = ''umfx'', Amount = 400\<rparr>]" by (simp_all add: ref_eval)
  have "State sample_active = LEASE_STATE_ACTIVE" by (simp add: sample_active_def)
  then have "withdrawLoop ref_sdk sample_ctx 3600 sample_ledger \<lparr>wa_total = [], wa_count = 0, wa_autoClosed = [], wa_amounts = []\<rparr>
      [sample_active] = Ok (st2, \<lparr>wa_total = [\<lparr>Denom = ''umfx'', Amount = 400\<rparr>], wa_count = 1, wa_autoClosed = [],
        wa_amounts = [(lease_Uuid sample_active, [\<lparr>Denom = ''umfx'', Amount = 400\<rparr>])]\<rparr>)"
    by (simp add: autoClose_check_def sample_not_exhausted t PerformSettlement_def s r st2 c)
  moreover have "GetParams sample_ledger = Ok DefaultParams" "MinLeaseDuration DefaultParams = 3600"
    by (simp_all add: GetParams_def sample_ledger_def DefaultParams_def)
  moreover have "w_Sender sample_withdraw = ''manifest1prov''" "w_LeaseUuids sample_withdraw = [sample_l1]"
    "w_ProviderUuid sample_withdraw = []" by (simp_all add: sample_withdraw_def)
  ultimately show ?thesis
    by (simp add: Withdraw_def sample_withdraw_valid withdrawFromLeases_def sample_withdraw_leases
        del: validateWithdrawLoop.simps withdrawLoop.simps)
qed

theorem money_flow_witness:
  "\<exists>st' r ts. billing_handle ref_sdk sample_ctx sample_ledger (WithdrawMsg sample_withdraw) = Ok (st', r) \<and>
     (\<forall>a d. bal ref_sdk (bank st') a d = bal ref_sdk sample_bank a d + net ts a d) \<and>
     (\<forall>(f, t, cs) \<in> set ts. owed ref_sdk st' f t)"
proof -
  obtain st' w where "Withdraw ref_sdk sample_ctx sample_ledger sample_withdraw = Ok (st', w)"
    using sample_withdraw_ok by (auto elim!: isOkE)
  then have h: "billing_handle ref_sdk sample_ctx sample_ledger (WithdrawMsg sample_withdraw) = Ok (st', WithdrawResp w)" by simp
  have adm: "billing_adm ref_sdk sample_ctx sample_ledger (WithdrawMsg sample_withdraw)"
    by (simp add: billing_adm_def)
  have "bank sample_ledger = sample_bank" by (simp add: sample_ledger_def)
  with money_flow [OF ref.sdk_laws_axioms sample_billing_inv, of sample_ctx "WithdrawMsg sample_withdraw" st' "WithdrawResp w"] adm h
  show ?thesis by (fastforce simp: funders_def)
qed

end
