(* ===== verification/Acknowledgement.thy ===== *)
theory Acknowledgement
  imports Handlers_Props
begin

text \<open>
  When \<open>AcknowledgeLease\<close> succeeds.  In a consistent state the handler depends on nothing but
  the documented conditions: the bookkeeping it does after its checks cannot fail.
\<close>

section \<open>Storing a lease with unchanged items\<close>

lemma SetLease_same_items:
  assumes inv: "domain_inv st" and l: "kv_get (Leases st) (lease_Uuid l) = Some l" "editable l"
    and l': "Items l' = Items l" "lease_Uuid l' = lease_Uuid l" "AccAddressFromBech32 E (Tenant l') \<noteq> None"
  shows "\<exists>st'. SetLease E st l' = Ok st'"
proof (cases "editable l'")
  case True
  let ?new = "domainsByService (Items l')" and ?idx = "CustomDomainIndex st"
  let ?rel = "releaseLoop l' ?new ?idx (domainsByService (Items l))"
  have c: "index_complete st (lease_Uuid l) l" using inv l(1) by (auto simp: domain_inv_def intro: kv_all_get)
  then have nm: "domains_named (Items l')" using l'(1) by (simp add: index_complete_def)
  have own: "kv_get ?idx d = Some (own l' s)" if "(s, d) \<in> set ?new" for s d
    using that c l(2) l' domainsByService_set [OF nm] by (simp add: index_complete_iff own_def)
  have "kv_get ?rel d = None \<or> kv_get ?rel d = Some (own l' s)" if "(s, d) \<in> set ?new" for s d
    using own [OF that] by (simp add: releaseLoop_get)
  moreover have "s' = s" if "(s, d) \<in> set ?new" "(s', d) \<in> set ?new" for s s' d
    using own [OF that(1)] own [OF that(2)] by (metis option.inject own_sel(2))
  ultimately have "installable l' ?rel ?new" by (auto simp: installable_def)
  then obtain idx' where "installLoop l' ?rel ?new = Ok idx'" using installLoop_cases [of l' ?rel ?new] by auto
  with True l l' show ?thesis by (auto simp: SetLease_def reconcileCustomDomainIndex_def Let_def)
qed (use l'(3) in \<open>simp add: SetLease_def reconcileCustomDomainIndex_def Let_def\<close>)

section \<open>The loops of the handler cannot fail\<close>

lemma persistAccounts_total:
  "\<forall>t \<in> set order. AccAddressFromBech32 E (ca_Tenant (account_of cas t)) \<noteq> None \<Longrightarrow>
   \<exists>st'. persistAccounts E st cas order = Ok st'"
  by (induction order arbitrary: st) (auto simp: SetCreditAccount_def)

lemma validatePending_total:
  assumes "accounts_inv E st" and "plb_providerUUID acc = [] \<or> plb_providerUUID acc = pu"
    and "\<forall>u \<in> set us. \<exists>l. kv_get (Leases st) u = Some l \<and> State l = LEASE_STATE_PENDING \<and> lease_ProviderUuid l = pu"
  shows "\<exists>v. validatePendingLoop E st acc us = Ok v \<and> (us \<noteq> [] \<longrightarrow> plb_providerUUID v = pu) \<and>
     (us = [] \<longrightarrow> v = acc)"
  using assms(2,3)
proof (induction us arbitrary: acc)
  case (Cons u us)
  then obtain l where l: "kv_get (Leases st) u = Some l" "State l = LEASE_STATE_PENDING" "lease_ProviderUuid l = pu" by auto
  from inv_get(3) [OF assms(1) l(1)] obtain a where a: "AccAddressFromBech32 E (Tenant l) = Some a"
    by (auto simp: tenantAddr_def)
  have "live_has_account E st l" using assms(1) l(1) by (auto simp: accounts_inv_def dest: kv_all_get)
  then obtain ca where "GetCreditAccount E st (Tenant l) = Ok ca"
    using a l(2) by (auto simp: live_has_account_def tenantAddr_def GetCreditAccount_sel)
  with l Cons.prems(1) obtain acc2 where step: "validatePendingLoop E st acc (u # us) = validatePendingLoop E st acc2 us"
    and p: "plb_providerUUID acc2 = pu"
    by (cases "kv_get (plb_creditAccounts acc) (Tenant l)"; cases "plb_providerUUID acc = []")
      (auto simp: GetLease_def Let_def)
  from Cons.IH [of acc2] p Cons.prems(2) show ?case unfolding step by auto
qed simp

context sdk_laws
begin

lemma acknowledgeLoop_total:
  assumes "batch_of E LEASE_STATE_PENDING st cas order ls" and "distinct (map lease_Uuid ls)" and "domain_inv st"
  shows "\<exists>st' cas'. acknowledgeLoop E t st cas ls = Ok (st', cas')"
  using assms
proof (induction ls arbitrary: st cas)
  case (Cons l ls)
  let ?l = "l\<lparr>State := LEASE_STATE_ACTIVE, AcknowledgedAt := Some t, LastSettledAt := t\<rparr>"
  let ?ca = "DecrementPendingLeaseCount (account_of cas (Tenant l))"
  let ?ca' = "?ca\<lparr>ActiveLeaseCount := ActiveLeaseCount ?ca + 1\<rparr>"
  obtain a where a: "tenantAddr E l = Some a" "account_matches E (Leases st) a (account_of cas (Tenant l))"
    "leases_wf E (Leases st)" "kv_get (Leases st) (lease_Uuid l) = Some l" "State l = LEASE_STATE_PENDING"
    using batch_of_account [OF Cons.prems(1)] .
  obtain st1 where st1: "SetLease E st ?l = Ok st1"
    using SetLease_same_items [OF Cons.prems(3) a(4), of ?l E] a(1,5) by (auto simp: editable_def tenantAddr_def)
  have "account_matches E (kv_set (lease_Uuid l) ?l (Leases st)) a ?ca'"
    by (rule matches_ack [OF a(3,4,5,1) _ _ a(2) refl refl]) (simp_all add: same_book_def)
  then have b: "batch_of E LEASE_STATE_PENDING st1 (kv_set (Tenant l) ?ca' cas) order ls"
    using SetLease_sel [OF st1] by (intro batch_of_step [OF Cons.prems(1,2) a(1)]) (simp_all add: same_book_def)
  have "domains_named (Items l)"
    using Cons.prems(3) a(4) by (auto simp: domain_inv_def index_complete_def dest: kv_all_get)
  then have "domain_inv st1" by (intro SetLease_domain_inv [OF st1 Cons.prems(3)]) simp
  from Cons.IH [OF b _ this] Cons.prems(2) st1 show ?case by (auto simp: Let_def)
qed simp

lemma batch_of_decodes:
  assumes "batch_of E s st cas order []" and "t \<in> set order"
  shows "AccAddressFromBech32 E (ca_Tenant (account_of cas t)) \<noteq> None"
proof -
  obtain ca where ca: "kv_get cas t = Some ca" using assms by (auto simp: batch_of_def)
  then have "cached_ok E (Leases st) t ca" using assms(1) by (auto simp: batch_of_def batch_inv_def intro: kv_all_get)
  with ca show ?thesis by (auto simp: cached_ok_def account_matches_def account_of_def)
qed

lemma acknowledge_apply:
  assumes inv: "accounts_inv E st" "domain_inv st" and d: "distinct us"
    and v: "validatePendingLeaseBatch E st us = Ok v"
  shows "\<exists>st1 cas st2. acknowledgeLoop E t st (plb_creditAccounts v) (plb_leases v) = Ok (st1, cas) \<and>
     persistAccounts E st1 cas (plb_tenantOrder v) = Ok st2"
proof -
  note b = pending_batch [OF v inv(1) d]
  obtain st1 cas where l: "acknowledgeLoop E t st (plb_creditAccounts v) (plb_leases v) = Ok (st1, cas)"
    using acknowledgeLoop_total [OF b inv(2)] by blast
  have "\<exists>st2. persistAccounts E st1 cas (plb_tenantOrder v) = Ok st2"
    using batch_of_decodes [OF acknowledgeLoop_batch [OF l b]] by (intro persistAccounts_total) blast
  with l show ?thesis by blast
qed

end

section \<open>The exact condition\<close>

definition acknowledgeable :: "'x sdk \<Rightarrow> 'x ledger \<Rightarrow> string \<Rightarrow> string list \<Rightarrow> bool" where
  \<comment> \<open>the documented conditions: one to a hundred distinct leases, all pending and all of one
      registered provider, named by that provider's address or by the authority\<close>
  "acknowledgeable E st sender us \<longleftrightarrow>
     AccAddressFromBech32 E sender \<noteq> None \<and> us \<noteq> [] \<and> length us \<le> 100 \<and> list_all IsValidUUID us \<and> distinct us \<and>
     (\<exists>(pu, p) \<in> set (Providers (sku_keeper st)). (sender = Address p \<or> sender = authority st) \<and>
        list_all (\<lambda>u. \<exists>l \<in> set_option (kv_get (Leases st) u).
          State l = LEASE_STATE_PENDING \<and> lease_ProviderUuid l = pu) us)"

lemma panic_steps [result_simps]:
  "andThen m f = Panic \<longleftrightarrow> m = Panic \<or> (\<exists>x. m = Ok x \<and> f x = Panic)"
  "orErr m e = Panic \<longleftrightarrow> m = Panic" "okOr v e \<noteq> Panic"
  by (cases m; simp)+ (cases v; simp)

lemma validatePendingLoop_no_panic: "validatePendingLoop E st acc us \<noteq> Panic"
  by (induction us arbitrary: acc) (auto simp: GetLease_def GetCreditAccount_def Let_def panic_steps)

lemma ValidateBatchLeaseUUIDs_no_panic: "ValidateBatchLeaseUUIDs us \<noteq> Panic"
proof -
  have "batchUUIDLoop seen us \<noteq> Panic" for seen by (induction seen us rule: batchUUIDLoop.induct) auto
  then show ?thesis by (simp add: ValidateBatchLeaseUUIDs_def)
qed

lemma pending_batch_provider:
  assumes "validatePendingLeaseBatch E st us = Ok v" and "keyed st" and "us \<noteq> []"
    and "kv_all (\<lambda>_ l. lease_ProviderUuid l \<noteq> []) (Leases st)"
  shows "\<forall>u \<in> set us. \<exists>l. kv_get (Leases st) u = Some l \<and> State l = LEASE_STATE_PENDING \<and>
     lease_ProviderUuid l = plb_providerUUID v"
proof -
  note b = pending_batch_leases [OF assms(1,2)]
  have "one_provider v"
    using pending_one_provider [OF assms(1) [unfolded validatePendingLeaseBatch_def] _ assms(4)]
    by (simp add: one_provider_def)
  moreover have "u \<in> lease_Uuid ` set (plb_leases v)" if "u \<in> set us" for u
    using that b(1) by (metis image_set)
  ultimately show ?thesis using b(2,3) by (fastforce simp: one_provider_def stored_def)
qed

context sdk_laws
begin

lemma acknowledge_split:
  assumes inv: "accounts_inv E st" "domain_inv st"
  shows "case AcknowledgeLease E ctx st m of
      Ok r \<Rightarrow> AccAddressFromBech32 E (ack_Sender m) \<noteq> None \<and> ValidateBatchLeaseUUIDs (ack_LeaseUuids m) = Ok () \<and>
        (\<exists>v p. validatePendingLeaseBatch E st (ack_LeaseUuids m) = Ok v \<and>
           validateProviderAuthorization st (ack_Sender m) (plb_providerUUID v) = Ok p)
    | Err e \<Rightarrow> \<not> (AccAddressFromBech32 E (ack_Sender m) \<noteq> None \<and> ValidateBatchLeaseUUIDs (ack_LeaseUuids m) = Ok () \<and>
        (\<exists>v p. validatePendingLeaseBatch E st (ack_LeaseUuids m) = Ok v \<and>
           validateProviderAuthorization st (ack_Sender m) (plb_providerUUID v) = Ok p))
    | Panic \<Rightarrow> False"
proof (cases "andThen (MsgAcknowledgeLease_ValidateBasic E m) (\<lambda>_.
    andThen (validatePendingLeaseBatch E st (ack_LeaseUuids m)) (\<lambda>v.
    andThen (validateProviderAuthorization st (ack_Sender m) (plb_providerUUID v)) (\<lambda>_. Ok v)))")
  case (Ok v)
  then have c: "MsgAcknowledgeLease_ValidateBasic E m = Ok ()" "validatePendingLeaseBatch E st (ack_LeaseUuids m) = Ok v"
    by auto
  then have b: "AccAddressFromBech32 E (ack_Sender m) \<noteq> None" "ValidateBatchLeaseUUIDs (ack_LeaseUuids m) = Ok ()"
    by (auto simp: MsgAcknowledgeLease_ValidateBasic_def split: if_split_asm)
  then have "distinct (ack_LeaseUuids m)" by (simp add: ValidateBatchLeaseUUIDs_ok)
  from acknowledge_apply [OF inv this c(2)] obtain st1 cas st2
    where "acknowledgeLoop E (BlockTime ctx) st (plb_creditAccounts v) (plb_leases v) = Ok (st1, cas)"
      "persistAccounts E st1 cas (plb_tenantOrder v) = Ok st2" by blast
  with Ok c b show ?thesis by (auto simp: AcknowledgeLease_def Let_def)
next
  case (Err e)
  then have "AcknowledgeLease E ctx st m = Err e" by (auto simp: AcknowledgeLease_def andThen_eq_Err)
  moreover have "\<not> (\<exists>v p. MsgAcknowledgeLease_ValidateBasic E m = Ok () \<and>
      validatePendingLeaseBatch E st (ack_LeaseUuids m) = Ok v \<and>
      validateProviderAuthorization st (ack_Sender m) (plb_providerUUID v) = Ok p)"
    using Err by auto
  ultimately show ?thesis by (auto simp: MsgAcknowledgeLease_ValidateBasic_def)
next
  case Panic
  then show ?thesis using validatePendingLoop_no_panic ValidateBatchLeaseUUIDs_no_panic
    by (auto simp: panic_steps MsgAcknowledgeLease_ValidateBasic_def validatePendingLeaseBatch_def
        validateProviderAuthorization_def GetProvider_def split: if_split_asm)
qed

end

lemma acknowledgeable_iff:
  assumes inv: "accounts_inv E st" "domain_inv st" "catalogue_inv st" "sku_inv E (sku_keeper st)"
    and us: "us \<noteq> []"
  shows "(\<exists>v p. validatePendingLeaseBatch E st us = Ok v \<and>
       validateProviderAuthorization st sender (plb_providerUUID v) = Ok p) \<longleftrightarrow>
     (\<exists>(pu, p) \<in> set (Providers (sku_keeper st)). (sender = Address p \<or> sender = authority st) \<and>
        list_all (\<lambda>u. \<exists>l \<in> set_option (kv_get (Leases st) u).
          State l = LEASE_STATE_PENDING \<and> lease_ProviderUuid l = pu) us)" (is "?run \<longleftrightarrow> ?spec")
proof
  have get: "kv_get (Providers (sku_keeper st)) pu = Some p \<longleftrightarrow> (pu, p) \<in> set (Providers (sku_keeper st))" for pu p
    using inv(4) by (intro kv_get_eq_Some) (simp add: sku_inv_def)
  have k: "keyed st" using inv(2) by (simp add: domain_inv_def)
  {
    assume ?run
    then obtain v p where v: "validatePendingLeaseBatch E st us = Ok v"
      and p: "validateProviderAuthorization st sender (plb_providerUUID v) = Ok p" by auto
    from p have "(plb_providerUUID v, p) \<in> set (Providers (sku_keeper st))" "sender = Address p \<or> sender = authority st"
      using get by (auto simp: validateProviderAuthorization_def GetProvider_def split: if_split_asm)
    then show ?spec using pending_batch_provider [OF v k us providers_nonempty [OF inv(3,4)]]
      by (fastforce simp: list_all_iff)
  next
    assume ?spec
    then obtain pu p where p: "(pu, p) \<in> set (Providers (sku_keeper st))" "sender = Address p \<or> sender = authority st"
      and l: "\<forall>u \<in> set us. \<exists>l. kv_get (Leases st) u = Some l \<and> State l = LEASE_STATE_PENDING \<and> lease_ProviderUuid l = pu"
      by (fastforce simp: list_all_iff)
    obtain v where "validatePendingLeaseBatch E st us = Ok v" "plb_providerUUID v = pu"
      using us validatePending_total [OF inv(1) _ l, of "\<lparr>plb_leases = [], plb_creditAccounts = [],
        plb_tenantOrder = [], plb_providerUUID = []\<rparr>"] by (auto simp: validatePendingLeaseBatch_def)
    with p get show ?run by (auto simp: validateProviderAuthorization_def GetProvider_def)
  }
qed

text \<open>
  Claim C8.  In a consistent state \<open>AcknowledgeLease\<close> succeeds exactly when its documented
  conditions hold: a valid sender, one to a hundred distinct well-formed identifiers, all of
  pending leases of one registered provider, and the sender that provider's address or the
  authority.  In every other case it returns an error; it never panics, and the bookkeeping after
  the checks (lease, indexes, credit accounts) never fails.
\<close>

theorem acknowledge_iff:
  assumes "sdk_laws E" and "billing_inv E st" and "sku_inv E (sku_keeper st)"
  shows "case AcknowledgeLease E ctx st m of
      Ok r \<Rightarrow> acknowledgeable E st (ack_Sender m) (ack_LeaseUuids m)
    | Err e \<Rightarrow> \<not> acknowledgeable E st (ack_Sender m) (ack_LeaseUuids m)
    | Panic \<Rightarrow> False"
proof -
  let ?s = "ack_Sender m" and ?us = "ack_LeaseUuids m"
  have inv: "accounts_inv E st" "domain_inv st" "catalogue_inv st" using assms(2) by (auto simp: billing_inv_def)
  have "acknowledgeable E st ?s ?us \<longleftrightarrow> AccAddressFromBech32 E ?s \<noteq> None \<and> ValidateBatchLeaseUUIDs ?us = Ok () \<and>
      (\<exists>v p. validatePendingLeaseBatch E st ?us = Ok v \<and> validateProviderAuthorization st ?s (plb_providerUUID v) = Ok p)"
    using acknowledgeable_iff [OF inv assms(3), of ?us ?s]
    by (auto simp: acknowledgeable_def ValidateBatchLeaseUUIDs_ok MaxBatchLeaseSize_def list_all_iff)
  then show ?thesis using sdk_laws.acknowledge_split [OF assms(1) inv(1,2), of m ctx] by (simp split: result.splits)
qed

theorem acknowledge_iff_witness:
  "acknowledgeable ref_sdk sample_ledger (ack_Sender sample_ack) (ack_LeaseUuids sample_ack)"
proof -
  obtain r where "AcknowledgeLease ref_sdk sample_ctx sample_ledger sample_ack = Ok r"
    using sample_ack_ok by (auto simp: isOk_iff)
  moreover have "sku_inv ref_sdk (sku_keeper sample_ledger)" using sample_sku_inv by (simp add: sample_ledger_def)
  ultimately show ?thesis using acknowledge_iff [OF ref.sdk_laws_axioms sample_billing_inv, of sample_ack sample_ctx] by simp
qed

end
