(* ===== verification/Chain_Props.thy ===== *)
theory Chain_Props
  imports Chain Acknowledgement
begin

text \<open>
  Properties of the billing module over the reachable states of the chain: the reverse index
  of credit addresses, the agreement of the stored counters with a scan, and the round trip
  of an export through an import.
\<close>

section \<open>The reverse index of credit addresses\<close>

definition credit_index :: "'x sdk \<Rightarrow> 'x ledger \<Rightarrow> bool" where
  \<comment> \<open>parameters are stored; every entry of the reverse index is the credit address of a stored
      account, and every stored account has an entry\<close>
  "credit_index E st \<longleftrightarrow> lg_Params st \<noteq> None \<and> kv_ok (CreditAddressIndex st) \<and>
     (\<forall>c t. kv_get (CreditAddressIndex st) c = Some t \<longrightarrow> kv_get (CreditAccounts st) t \<noteq> None \<and> c = DeriveCreditAddress E t) \<and>
     (\<forall>t. kv_get (CreditAccounts st) t \<noteq> None \<longrightarrow> kv_get (CreditAddressIndex st) (DeriveCreditAddress E t) \<noteq> None)"

lemma credit_index_account:
  assumes "SetCreditAccount E st ca = Ok st'" and "credit_index E st"
  shows "credit_index E st'"
proof -
  from SetCreditAccount_sel [OF assms(1)] obtain a where "st' = st\<lparr>CreditAccounts := kv_set a ca (CreditAccounts st),
      CreditAddressIndex := kv_set (DeriveCreditAddress E a) a (CreditAddressIndex st)\<rparr>" by blast
  with assms(2) show ?thesis by (auto simp: credit_index_def kv_ok_set split: if_split_asm)
qed

lemma credit_index_micro:
  assumes "micro E F ctx st st'" and "credit_index E st"
  shows "credit_index E st'"
  using assms
proof (cases rule: micro.cases)
  case (LeaseChanged l l')
  with SetLease_sel [OF LeaseChanged(3)] assms(2) show ?thesis by (simp add: credit_index_def)
next
  case (LeaseCreated l)
  with SetLease_sel [OF LeaseCreated(4)] assms(2) show ?thesis by (simp add: credit_index_def)
next
  case (AccountStored ca)
  with assms(2) show ?thesis by (blast intro: credit_index_account)
qed (auto simp: credit_index_def SetParams_def emit_def)

lemma credit_index_micros: "micros E F ctx st st' \<Longrightarrow> credit_index E st \<Longrightarrow> credit_index E st'"
  by (induction rule: rtranclp_induct) (blast intro: credit_index_micro)+

lemma credit_index_accounts: "initAccounts E st cas = Ok st' \<Longrightarrow> credit_index E st \<Longrightarrow> credit_index E st'"
  by (induction cas arbitrary: st) (auto dest: credit_index_account)

lemma credit_index_genesis:
  assumes "InitGenesis E ctx st gs = Ok st'" and "ledger_empty st"
  shows "credit_index E st'"
proof -
  from assms(1) obtain st1 st2 where st1: "initLeases E (SetParams st (gs_Params gs)) (gs_Leases gs) = Ok st1"
    and st2: "initAccounts E st1 (gs_CreditAccounts gs) = Ok st2" and st': "st' = st2 \<or> st' = st2\<lparr>LeaseSequence := gs_LeaseSequence gs\<rparr>"
    by (auto simp: InitGenesis_def)
  have "credit_index E st1"
    using initLeases_sel [OF st1] initLeases_rest [OF st1] assms(2)
    by (simp add: credit_index_def ledger_empty_def SetParams_def kv_ok_def)
  from credit_index_accounts [OF st2 this] st' show ?thesis by (auto simp: credit_index_def)
qed

lemma same_credit_index:
  assumes "credit_index E st" and "credit_index E st'" and "CreditAccounts st' = CreditAccounts st"
    and "inj_on (DeriveCreditAddress E) (fst ` set (CreditAccounts st))"
  shows "CreditAddressIndex st' = CreditAddressIndex st"
proof (rule kvs.entries_ext)
  show "kv_ok (CreditAddressIndex st')" "kv_ok (CreditAddressIndex st)" using assms(1,2) by (simp_all add: credit_index_def)
  have stored: "kv_get (CreditAccounts st) t \<noteq> None \<longleftrightarrow> t \<in> fst ` set (CreditAccounts st)" for t
    by (auto simp: kv_get_None)
  have "kv_get (CreditAddressIndex s) c = Some t \<longleftrightarrow> t \<in> fst ` set (CreditAccounts st) \<and> c = DeriveCreditAddress E t"
    if s: "credit_index E s" "CreditAccounts s = CreditAccounts st" for s :: "'a ledger" and c t
  proof
    assume "kv_get (CreditAddressIndex s) c = Some t"
    with s stored show "t \<in> fst ` set (CreditAccounts st) \<and> c = DeriveCreditAddress E t" unfolding credit_index_def by metis
  next
    assume t: "t \<in> fst ` set (CreditAccounts st) \<and> c = DeriveCreditAddress E t"
    with s stored obtain t' where "kv_get (CreditAddressIndex s) c = Some t'" unfolding credit_index_def by (metis option.exhaust)
    moreover with s stored have "t' \<in> fst ` set (CreditAccounts st)" "c = DeriveCreditAddress E t'" unfolding credit_index_def by metis+
    ultimately show "kv_get (CreditAddressIndex s) c = Some t" using t assms(4) by (metis inj_onD)
  qed
  then have "kv_get (CreditAddressIndex st') k = Some t \<longleftrightarrow> kv_get (CreditAddressIndex st) k = Some t" for k t
    using assms(1-3) by simp
  then show "kv_get (CreditAddressIndex st') k = kv_get (CreditAddressIndex st) k" for k by (metis option.exhaust)
qed

context sdk_laws
begin

lemma chain_step_credit_index:
  assumes "chain_step E B st st'" and "chain_inv E st" and "credit_index E st"
  shows "credit_index E st'"
  using assms
proof (induction rule: chain_step.induct)
  case (BillingMsg ctx st m st' r)
  then have "micros E (funders E m) ctx st st'"
    by (intro adm_micros) (auto simp: chain_inv_def billing_inv_def domain_inv_def)
  with BillingMsg show ?case by (blast intro: credit_index_micros)
next
  case (BlockEnd ctx st st')
  then have "micros E {} ctx st st'"
    by (intro EndBlocker_micros) (auto simp: chain_inv_def billing_inv_def domain_inv_def)
  with BlockEnd show ?case by (blast intro: credit_index_micros)
qed (simp_all add: credit_index_def)

lemma chain_credit_index:
  assumes "chain_genesis E gs st0" and "genesis_clean E gs" and "(chain_step E B)\<^sup>*\<^sup>* st0 st"
  shows "credit_index E st"
  using assms(3)
proof (induction rule: rtranclp_induct)
  case base
  from assms(1) show ?case by (auto elim!: chain_genesisE intro: credit_index_genesis)
next
  case (step st1 st2)
  with chain_reachable_inv [OF assms(1,2)] show ?case by (blast intro: chain_step_credit_index)
qed

lemma Export_Init_exact:
  assumes inv: "billing_inv E st" and ci: "credit_index E st"
    and inj: "inj_on (DeriveCreditAddress E) (fst ` set (CreditAccounts st))"
    and time: "blockTimeLoop (BlockTime ctx) (map snd (Leases st)) = Ok ()"
    and empty: "ledger_empty st0" "sku_keeper st0 = sku_keeper st"
  shows "\<exists>gs. ExportGenesis st = Ok gs \<and>
     InitGenesis E ctx st0 gs = Ok (st\<lparr>bank := bank st0, authority := authority st0, events := events st0\<rparr>)"
proof -
  from ci obtain p where "lg_Params st = Some p" by (auto simp: credit_index_def)
  from Export_Init [OF inv this time empty] obtain gs st' where gs: "ExportGenesis st = Ok gs" "InitGenesis E ctx st0 gs = Ok st'"
    and eq: "lg_Params st' = lg_Params st" "Leases st' = Leases st" "CreditAccounts st' = CreditAccounts st"
      "LeaseSequence st' = LeaseSequence st" "CustomDomainIndex st' = CustomDomainIndex st" "LeaseBySKUIndex st' = LeaseBySKUIndex st"
      "sku_keeper st' = sku_keeper st" "bank st' = bank st0" "authority st' = authority st0" "events st' = events st0"
    by blast
  have "CreditAddressIndex st' = CreditAddressIndex st"
    by (rule same_credit_index [OF ci credit_index_genesis [OF gs(2) empty(1)] eq(3) inj])
  with eq have "st' = st\<lparr>bank := bank st0, authority := authority st0, events := events st0\<rparr>"
    by (intro ledger.equality) simp_all
  with gs show ?thesis by blast
qed

end

section \<open>A chain that has started\<close>

lemma sample_credit_index: "credit_index ref_sdk sample_ledger"
  by (simp add: credit_index_def sample_ledger_def kv_get_Cons kv_ok_def)

lemma sample_chain: "chain_genesis ref_sdk sample_genesis sample_ledger"
proof -
  have inj: "inj_on (DeriveCreditAddress ref_sdk) (fst ` set (CreditAccounts sample_ledger))" by (simp add: sample_ledger_def)
  have "sample_ledger\<lparr>bank := bank sample_empty, authority := authority sample_empty, events := events sample_empty\<rparr> = sample_ledger"
    by (simp add: sample_ledger_def sample_empty_def)
  then have init: "InitGenesis ref_sdk sample_ctx sample_empty sample_genesis = Ok sample_ledger"
    using sdk_laws.Export_Init_exact [OF ref.sdk_laws_axioms sample_billing_inv sample_credit_index inj sample_ledger_times
        sample_empty_ledger] sample_export by simp
  have p: "sku_Params sample_sku_state = Some sku_DefaultParams"
    "sample_sku_state\<lparr>sku_events := []\<rparr> = sku_keeper sample_empty"
    by (simp_all add: sample_sku_state_def sample_empty_def)
  have len: "SkuParams_Validate ref_sdk sku_DefaultParams = Ok ()"
    "of_nat (length (Providers sample_sku_state)) \<le> ProviderSequence sample_sku_state"
    "of_nat (length (SKUs sample_sku_state)) \<le> SKUSequence sample_sku_state"
    by (simp_all add: sample_sku_state_def sku_DefaultParams_def SkuParams_Validate_def)
  obtain sg where sg: "sku_ExportGenesis sample_sku_state = Ok sg"
    "sku_InitGenesis ref_sdk (sku_empty (sku_authority sample_sku_state)) sg = Ok (sku_keeper sample_empty)"
    using sku_Export_Init [OF sample_sku_inv p(1)] unfolding p(2) by blast
  note valid = sdk_laws.Export_valid [OF ref.sdk_laws_axioms sample_sku_inv p(1) len sg(1)]
  show ?thesis by (rule chain_genesis.intros [OF valid sg(2) sample_genesis_valid sample_empty_ledger(1) init])
qed

lemma sample_chain_step:
  obtains st r where "billing_handle ref_sdk sample_ctx sample_ledger (AcknowledgeLeaseMsg sample_ack) = Ok (st, r)"
    and "chain_step ref_sdk ref_mint_sdk sample_ledger st"
proof -
  obtain st r where run: "billing_handle ref_sdk sample_ctx sample_ledger (AcknowledgeLeaseMsg sample_ack) = Ok (st, r)"
    using sample_ack_ok by (auto elim: isOkE)
  have "billing_adm ref_sdk sample_ctx sample_ledger (AcknowledgeLeaseMsg sample_ack)" by (simp add: billing_adm_def)
  from that [OF run BillingMsg [OF this run]] show thesis .
qed

lemma sample_acked:
  assumes "billing_handle ref_sdk sample_ctx sample_ledger (AcknowledgeLeaseMsg sample_ack) = Ok (st, r)"
  shows "\<exists>ca. kv_get (CreditAccounts st) (bytes_of ''ten'') = Some ca"
    and "Leases st = [(sample_l1, sample_active), (sample_l2, sample_pending\<lparr>State := LEASE_STATE_ACTIVE,
       AcknowledgedAt := Some (BlockTime sample_ctx), LastSettledAt := BlockTime sample_ctx\<rparr>)]"
  using assms
  by (auto simp: AcknowledgeLease_def sample_ack_def MsgAcknowledgeLease_ValidateBasic_def ValidateBatchLeaseUUIDs_def
      MaxBatchLeaseSize_def validatePendingLeaseBatch_def GetLease_def sample_data kv_get_Cons GetCreditAccount_def
      validateProviderAuthorization_def GetProvider_def sample_sku_state_def sample_stored_def SetLease_def
      reconcileCustomDomainIndex_def domainsByService_def setSKUIndex_def editable_def SetCreditAccount_def
      account_of_def DecrementPendingLeaseCount_def Let_def emit_def split: if_split_asm)

section \<open>Counters and export\<close>

text \<open>
  Claim C13.  The constant-time lease counts agree with a scan of the tenant's leases in every
  reachable state: however messages, blocks and other modules interleave after genesis, the
  counters stored in a credit account, which the handlers increment and decrement, are what
  counting the active, or the pending, leases through the index gives.  The genesis has address
  strings as the SDK prints them, live leases that record their minimum duration, and fewer
  than \<open>2 ^ 64\<close> leases; leases are created under fresh identifiers for tenants in printed form.
\<close>

theorem counts_match_scan:
  assumes "sdk_laws E" and "chain_genesis E gs st0" and "genesis_clean E gs" and "(chain_step E B)\<^sup>*\<^sup>* st0 st"
    and "AccAddressFromBech32 E t = Some a"
  shows "CountActiveLeasesByTenant E st t = countLeasesByTenantAndStateScan E st t LEASE_STATE_ACTIVE \<and>
     CountPendingLeasesByTenant E st t = countLeasesByTenantAndStateScan E st t LEASE_STATE_PENDING"
proof (cases "kv_get (CreditAccounts st) a")
  case None
  then show ?thesis
    using assms(5) by (simp add: CountActiveLeasesByTenant_def CountPendingLeasesByTenant_def GetCreditAccount_def)
next
  case (Some ca)
  have inv: "accounts_inv E st"
    using sdk_laws.chain_reachable_inv [OF assms(1-4)] by (simp add: chain_inv_def billing_inv_def)
  note m = inv_account [OF inv Some] and wf = inv_wf [OF inv]
  have "countLeasesByTenantAndStateScan E st t LEASE_STATE_ACTIVE = Ok (ActiveLeaseCount ca)"
    using m by (intro scan_count [OF wf assms(5), of "aw E a"]) (simp_all add: aw_def account_matches_def actives_def)
  moreover have "countLeasesByTenantAndStateScan E st t LEASE_STATE_PENDING = Ok (PendingLeaseCount ca)"
    using m by (intro scan_count [OF wf assms(5), of "pw E a"]) (simp_all add: pw_def account_matches_def pendings_def)
  ultimately show ?thesis
    using assms(5) Some by (simp add: CountActiveLeasesByTenant_def CountPendingLeasesByTenant_def GetCreditAccount_def)
qed

theorem counts_match_scan_witness:
  "\<exists>st r. billing_handle ref_sdk sample_ctx sample_ledger (AcknowledgeLeaseMsg sample_ack) = Ok (st, r) \<and>
     CountActiveLeasesByTenant ref_sdk st ''manifest1ten'' =
       countLeasesByTenantAndStateScan ref_sdk st ''manifest1ten'' LEASE_STATE_ACTIVE"
proof (rule sample_chain_step)
  fix st r
  assume run: "billing_handle ref_sdk sample_ctx sample_ledger (AcknowledgeLeaseMsg sample_ack) = Ok (st, r)"
    and "chain_step ref_sdk ref_mint_sdk sample_ledger st"
  then have "(chain_step ref_sdk ref_mint_sdk)\<^sup>*\<^sup>* sample_ledger st" by blast
  from counts_match_scan [OF ref.sdk_laws_axioms sample_chain sample_clean this sample_decode(1)] run show ?thesis by blast
qed

text \<open>
  Claim C19.  Export followed by import restores the module: in every state the chain reaches,
  importing what was exported into an empty ledger with the same catalogue succeeds and gives
  the state back, with all its stores and indexes, the reverse index of credit addresses
  included; only the bank, the authority and the events, which genesis does not carry, are those
  of the importing ledger.  The block that imports is not before a time stamp of a lease, no two
  tenants have the same credit address (a hash collision), the genesis has address strings
  as the SDK prints them, live leases that record their minimum duration and fewer than
  \<open>2 ^ 64\<close> leases, and leases are created under fresh identifiers for tenants in printed form.
\<close>

theorem billing_genesis_roundtrip:
  assumes "sdk_laws E" and "chain_genesis E gs0 st0" and "genesis_clean E gs0" and "(chain_step E B)\<^sup>*\<^sup>* st0 st"
    and "inj_on (DeriveCreditAddress E) (fst ` set (CreditAccounts st))"
    and "blockTimeLoop (BlockTime ctx) (map snd (Leases st)) = Ok ()"
    and "ledger_empty new" and "sku_keeper new = sku_keeper st"
  shows "\<exists>gs. ExportGenesis st = Ok gs \<and>
     InitGenesis E ctx new gs = Ok (st\<lparr>bank := bank new, authority := authority new, events := events new\<rparr>)"
proof -
  have "billing_inv E st" using sdk_laws.chain_reachable_inv [OF assms(1-4)] by (simp add: chain_inv_def)
  from sdk_laws.Export_Init_exact [OF assms(1) this sdk_laws.chain_credit_index [OF assms(1-4)] assms(5-8)] show ?thesis .
qed

theorem billing_genesis_roundtrip_witness:
  "InitGenesis ref_sdk sample_ctx sample_empty sample_genesis =
     Ok (sample_ledger\<lparr>bank := bank sample_empty, authority := authority sample_empty, events := events sample_empty\<rparr>)"
proof -
  have inj: "inj_on (DeriveCreditAddress ref_sdk) (fst ` set (CreditAccounts sample_ledger))" by (simp add: sample_ledger_def)
  from billing_genesis_roundtrip [OF ref.sdk_laws_axioms sample_chain sample_clean rtranclp.rtrancl_refl
      [of "chain_step ref_sdk ref_mint_sdk"] inj sample_ledger_times sample_empty_ledger] sample_export
  show ?thesis by simp
qed

end
