(* ===== verification/Spec2Isabelle.thy ===== *)
theory Spec2Isabelle
  imports Uuid Dns Sku_Queries Lease_Creation Query_Props Block_End Client_Queries Msg_Filter Money_Flow
    Chain_Props
begin

text \<open>
  \<^bold>\<open>Verification of the ledger modules of manifest-ledger.\<close>

  \<^bold>\<open>The program.\<close>  The repository is a Cosmos SDK chain.  Its own logic is in three modules.
  \<open>x/sku\<close> keeps a catalogue of providers and of the SKUs they sell.  \<open>x/billing\<close> keeps leases of
  SKUs, the credit accounts tenants fund in advance, and a reverse index of the custom domains
  of leases; tenants create leases, providers acknowledge or reject them and withdraw what has
  accrued, and the end of a block expires pending leases that nobody acknowledged.
  \<open>x/manifest\<close> lets the authority of the chain mint payouts and burn coins.  The billing module
  reads the SKU keeper and moves coins with the bank keeper of the SDK.  Around them are
  \<open>pkg/uuid\<close> (deterministic identifiers), \<open>pkg/pagination\<close>, \<open>pkg/sanitize\<close>, the ante filter
  \<open>app/decorators/msg_filter.go\<close> (a template that \<open>app/ante.go\<close> does not install) and the command lines under \<open>x/*/client/cli\<close>.

  \<^bold>\<open>Modelling.\<close>  A struct is a record with the fields of the source, an enum a datatype with one
  more constructor for out-of-range numbers, an unsigned 64-bit integer a \<open>64 word\<close>, an int64
  computation that can wrap is written with \<open>i64\<close>, \<open>math.Int\<close> is \<open>int\<close>.  A fallible function
  returns a \<open>result\<close>: \<open>Ok\<close>, \<open>Err\<close> with the registered error, or \<open>Panic\<close>; an error or panic
  carries no state, as the SDK discards the writes of a failed message.  A \<open>collections.Map\<close> is
  a sorted association list, an index of it the filtered list of primary keys in key order.
  Stores are fields of one state record per keeper (\<open>sku_state\<close>, \<open>ledger\<close>), which the
  operations take and return.  Events are part of the state.  Go maps whose iteration order
  matters (the reconciliation of domains) are lists in an arbitrary order.  Strings are byte
  strings, and \<open>ToLower\<close>, \<open>TrimSpace\<close> and the event sanitiser are modelled on ASCII.

  \<^bold>\<open>Outside code.\<close>  The SDK (bech32, coins, \<open>math.Int\<close>, bank and account keepers, SHA-256, URL
  parsing) is the parameter \<open>E :: 'x sdk\<close>; the locale \<open>sdk_laws\<close> states the documented
  behaviour the proofs use, \<open>sdk_total\<close> adds when coin arithmetic does not panic, \<open>mint_laws\<close>
  what minting and burning do.  All three are interpreted on an executable reference
  implementation (\<open>ref_sdk\<close>, \<open>ref_mint_sdk\<close>), on which the witnesses are evaluated.
  \<open>query.CollectionPaginate\<close> and \<open>sdk.ParseCoinNormalized\<close> are parameters of the definitions
  that call them; so are the helpers that read pagination flags, with the laws of the locale
  \<open>page_flags\<close>, interpreted on an implementation with base64.

  \<^bold>\<open>Theories.\<close>
  \<^item> \<open>Prelude\<close>: results, machine integers, the store with its laws (locale \<open>ordered_store\<close>), message
    servers (locale \<open>msg_server\<close>: an invariant every message keeps holds along every run);
    \<open>Sdk\<close>: the interface of the SDK, its laws, the reference implementation, time.
  \<^item> \<open>Uuid\<close> (\<open>pkg/uuid\<close>), \<open>Dns\<close> (host names and reserved suffixes of \<open>x/billing/types/msgs.go\<close>),
    \<open>Pagination\<close> (\<open>pkg/pagination\<close>).
  \<^item> \<open>Sku_Types\<close>, \<open>Sku_Keeper\<close>, \<open>Sku_Queries\<close>: \<open>x/sku\<close>, with the invariant of its stores.
  \<^item> \<open>Billing_Types\<close>, \<open>Credit\<close>, \<open>Settlement\<close>, \<open>Billing_Keeper\<close>, \<open>Billing_Msgs\<close>, \<open>Billing_Payouts\<close>,
    \<open>Billing_Genesis\<close>, \<open>Billing_Queries\<close>: the model of \<open>x/billing\<close>, one definition per function
    of \<open>types/*.go\<close> and \<open>keeper/*.go\<close>.
  \<^item> \<open>Accounts_Inv\<close>, \<open>Handlers_Inv\<close>, \<open>Batches_Inv\<close>, \<open>Payouts_Inv\<close>: every operation keeps the
    books of the credit accounts.  \<open>Domains_Inv\<close>: the domain index is exact.  \<open>Lease_Steps\<close>: every
    handler is a sequence of small steps of a transition system.  \<open>Billing_Inv\<close>: the invariant
    of the module and its preservation.
  \<^item> \<open>Billing_Props\<close>, \<open>Handlers_Props\<close>, \<open>Lease_Creation\<close>, \<open>Lease_Board\<close>, \<open>Genesis_Props\<close>,
    \<open>Query_Props\<close>, \<open>Block_End\<close>, \<open>Acknowledgement\<close>: the properties of \<open>x/billing\<close>; \<open>Samples\<close>: the
    ledger of the witnesses.
  \<^item> \<open>Manifest\<close> (\<open>x/manifest\<close>), \<open>Msg_Filter\<close> (the ante filter), \<open>Client\<close> (transaction commands),
    \<open>Client_Queries\<close> (query commands).
  \<^item> \<open>Chain\<close>: steps and genesis of the modules together; \<open>Money_Flow\<close>: the coins they move;
    \<open>Chain_Props\<close>: counters, the index of credit addresses and the genesis round trip over
    all reachable states.

  \<^bold>\<open>What is shown.\<close>
  \<^item> Over all reachable states (this theory, \<open>Chain_Props\<close>): books, catalogue, domains and the life
    cycle; the counters agree with a scan; an export is imported to the same state.
    Over all runs of each module: leases are never lost and move only along the arrows of the
    documented state diagram, only entitled
    senders act, the domain lookup is exact, the SKU stores stay well formed.
  \<^item> Refinement: every accepted billing message is a step of an abstract board of leases.
  \<^item> Coins: every message is a list of deposits of its sender and of payments from the credit of
    a tenant to the payout address of the provider of a charged lease; balances change by these
    transfers and nothing else.
  \<^item> Errors: \<open>AcknowledgeLease\<close> fails exactly outside its documented conditions and never panics;
    reserving a suffix in use blocks exports, for ever when the lease has ended and the suffix
    stays reserved; a validated genesis is imported exactly under stated conditions; a printed page key ends the lease listings
    of the command line silently.
  \<^item> Single operations: what a created lease guarantees, what a settlement transfers, what is
    billed when settlements are split, when a withdrawal closes a lease, which leases the
    end of a block expires, what a deactivation cascades to, what payouts and burns do.
  \<^item> Liveness and termination: the end blocker never fails and works off any backlog; following
    next-page keys visits every entry once and ends.
  \<^item> Round trips: genesis export and import of both modules, leases written on the command line.
  \<^item> Equivalences: constant-time counts and a scan, the withdrawable amount and a settlement,
    the checks of names and items and their grammars, the reconciliation in any order,
    the filter and occurrence at any depth.
  \<^item> Identifiers: format, collisions, order by time.

  \<^bold>\<open>Bounds and assumptions.\<close>  No definition of the model uses fuel: loops are structural over the
  lists the code ranges over, or end when the page or batch is full.  \<open>all_pages\<close>, which follows
  next-page keys, takes fuel, and one more page than there are entries is shown to suffice.
  Runs of the billing module assume of a lease-creating message that its identifier is not
  taken (a hash collision), that the tenant is written in the form the SDK prints (two spellings
  of one address, the second in upper case, would be two accounts in a batch, and an update of
  one would be lost), and that fewer than \<open>2 ^ 64\<close> leases exist.  Properties of reachable states
  assume of the genesis \<open>genesis_clean\<close>, which validation does not check: address strings in
  printed form, fewer than \<open>2 ^ 64\<close> leases, and live leases that record the minimum duration
  they were created under.  Older leases that record none are accepted by the program, but
  release what the current parameter gives, so their reservation is exact only while that
  parameter does not change.  The credit addresses of distinct tenants are assumed distinct
  only for the genesis round trip.

  \<^bold>\<open>Not modelled.\<close>  Gas, logging, telemetry, the texts of errors, authentication and fees; the
  construction of the application (\<open>app/app.go\<close>, \<open>app/ante.go\<close>), module registration and
  simulation; protobuf code and JSON forms; cobra's flag and argument machinery and the printing
  of responses.  Message constructors that only fill
  fields appear as record values.
\<close>

section \<open>The chain as a whole\<close>

context sdk_laws
begin

lemma chain_accounts:
  assumes "chain_inv E st" and "kv_get (CreditAccounts st) a = Some ca"
  shows "(\<forall>d. amt (ReservedAmounts ca) d = (\<Sum>e\<leftarrow>Leases st. if tenantAddr E (snd e) = Some a \<and> live (State (snd e))
       then items_rate (Items (snd e)) d * uint (MinLeaseDurationAtCreation (snd e)) else 0)) \<and>
     uint (ActiveLeaseCount ca) = int (length (filter (\<lambda>e. tenantAddr E (snd e) = Some a \<and> State (snd e) = LEASE_STATE_ACTIVE) (Leases st))) \<and>
     uint (PendingLeaseCount ca) = int (length (filter (\<lambda>e. tenantAddr E (snd e) = Some a \<and> State (snd e) = LEASE_STATE_PENDING) (Leases st)))"
proof -
  have m: "account_matches E (Leases st) a ca"
    using assms by (intro inv_account) (auto simp: chain_inv_def billing_inv_def)
  have h: "hw E a d = (\<lambda>l. if tenantAddr E l = Some a \<and> live (State l)
      then items_rate (Items l) d * uint (MinLeaseDurationAtCreation l) else 0)" for d
    by (rule ext) (simp add: hw_def reservation_def reserved_duration_def)
  have c: "kv_sum (\<lambda>l. if P l then 1 else 0 :: int) (Leases st) = int (length (filter (\<lambda>e. P (snd e)) (Leases st)))" for P
    unfolding kv_sum_def by (rule sum_list_count)
  have "held E (Leases st) a d = (\<Sum>e\<leftarrow>Leases st. if tenantAddr E (snd e) = Some a \<and> live (State (snd e))
      then items_rate (Items (snd e)) d * uint (MinLeaseDurationAtCreation (snd e)) else 0)" for d
    unfolding held_def h kv_sum_def ..
  moreover have "actives E (Leases st) a =
      int (length (filter (\<lambda>e. tenantAddr E (snd e) = Some a \<and> State (snd e) = LEASE_STATE_ACTIVE) (Leases st)))"
    unfolding actives_def aw_def [abs_def] by (rule c)
  moreover have "pendings E (Leases st) a =
      int (length (filter (\<lambda>e. tenantAddr E (snd e) = Some a \<and> State (snd e) = LEASE_STATE_PENDING) (Leases st)))"
    unfolding pendings_def pw_def [abs_def] by (rule c)
  ultimately show ?thesis using m unfolding account_matches_def by simp
qed

lemma chain_domains:
  assumes "chain_inv E st"
  shows "kv_get (CustomDomainIndex st) d = Some e \<longleftrightarrow>
     (\<exists>l. kv_get (Leases st) (tgt_LeaseUuid e) = Some l \<and> editable l \<and> claims (Items l) (tgt_ServiceName e) d)"
proof -
  have di: "domain_inv st" using assms by (simp add: chain_inv_def billing_inv_def)
  show ?thesis
  proof
    assume "kv_get (CustomDomainIndex st) d = Some e"
    with di have "index_sound st d e" by (auto simp: domain_inv_def intro: kv_all_get)
    then show "\<exists>l. kv_get (Leases st) (tgt_LeaseUuid e) = Some l \<and> editable l \<and> claims (Items l) (tgt_ServiceName e) d"
      by (auto simp: index_sound_def)
  next
    assume "\<exists>l. kv_get (Leases st) (tgt_LeaseUuid e) = Some l \<and> editable l \<and> claims (Items l) (tgt_ServiceName e) d"
    then obtain l where l: "kv_get (Leases st) (tgt_LeaseUuid e) = Some l" "editable l" "claims (Items l) (tgt_ServiceName e) d"
      by blast
    with di have "index_complete st (tgt_LeaseUuid e) l" by (auto simp: domain_inv_def intro: kv_all_get)
    with l have "kv_get (CustomDomainIndex st) d = Some (own l (tgt_ServiceName e))"
      by (auto simp: index_complete_def claims_def list_all_iff list_ex_iff)
    moreover have "lease_Uuid l = tgt_LeaseUuid e" using keyed_uuid l(1) di by (auto simp: domain_inv_def)
    ultimately show "kv_get (CustomDomainIndex st) d = Some e" by (simp add: own_def)
  qed
qed

end

text \<open>
  Claim C1.  In every state the chain reaches, whatever messages of the modules are delivered
  and however blocks and other modules interleave: every credit account reserves exactly the
  minimum-duration cost of its live leases and counts exactly its active and pending leases;
  every lease refers to a provider and SKUs of that provider in the catalogue, which is itself
  well formed; the domain index maps a domain to a lease and service exactly when that live
  lease claims it there; and no lease present at genesis is lost, changed in its terms or moved
  backwards.  The side conditions: the chain starts from a validated genesis in which address
  strings are in the form the SDK prints, live leases record their minimum duration (validation
  also accepts older leases that record none) and there are fewer than \<open>2 ^ 64\<close> leases; a lease
  is created for a tenant in printed form (the handlers also accept the upper-case spelling),
  under an identifier not taken, with room to count it; a SKU is created under an identifier
  not taken.
\<close>

theorem chain_invariant:
  assumes "sdk_laws E" and "chain_genesis E gs st0" and "genesis_clean E gs" and "(chain_step E B)\<^sup>*\<^sup>* st0 st"
  shows "(\<forall>a ca. kv_get (CreditAccounts st) a = Some ca \<longrightarrow>
       (\<forall>d. amt (ReservedAmounts ca) d = (\<Sum>e\<leftarrow>Leases st. if tenantAddr E (snd e) = Some a \<and> live (State (snd e))
          then items_rate (Items (snd e)) d * uint (MinLeaseDurationAtCreation (snd e)) else 0)) \<and>
       uint (ActiveLeaseCount ca) = int (length (filter (\<lambda>e. tenantAddr E (snd e) = Some a \<and> State (snd e) = LEASE_STATE_ACTIVE) (Leases st))) \<and>
       uint (PendingLeaseCount ca) = int (length (filter (\<lambda>e. tenantAddr E (snd e) = Some a \<and> State (snd e) = LEASE_STATE_PENDING) (Leases st)))) \<and>
     (\<forall>u l. kv_get (Leases st) u = Some l \<longrightarrow> catalogued (sku_keeper st) l) \<and> sku_inv E (sku_keeper st) \<and>
     (\<forall>d e. kv_get (CustomDomainIndex st) d = Some e \<longleftrightarrow>
       (\<exists>l. kv_get (Leases st) (tgt_LeaseUuid e) = Some l \<and> editable l \<and> claims (Items l) (tgt_ServiceName e) d)) \<and>
     leases_le (Leases st0) (Leases st)"
proof -
  note run = sdk_laws.chain_reachable_inv [OF assms]
  then have inv: "chain_inv E st" by simp
  then have "\<forall>u l. kv_get (Leases st) u = Some l \<longrightarrow> catalogued (sku_keeper st) l" "sku_inv E (sku_keeper st)"
    by (auto simp: chain_inv_def billing_inv_def catalogue_inv_def dest: kv_all_get)
  with run sdk_laws.chain_accounts [OF assms(1) inv] sdk_laws.chain_domains [OF assms(1) inv] show ?thesis by simp
qed

theorem chain_invariant_witness:
  "\<exists>st r ca. billing_handle ref_sdk sample_ctx sample_ledger (AcknowledgeLeaseMsg sample_ack) = Ok (st, r) \<and>
     kv_get (CreditAccounts st) (bytes_of ''ten'') = Some ca \<and>
     uint (ActiveLeaseCount ca) = 2 \<and> uint (PendingLeaseCount ca) = 0"
proof (rule sample_chain_step)
  fix st r
  assume run: "billing_handle ref_sdk sample_ctx sample_ledger (AcknowledgeLeaseMsg sample_ack) = Ok (st, r)"
    and "chain_step ref_sdk ref_mint_sdk sample_ledger st"
  then have steps: "(chain_step ref_sdk ref_mint_sdk)\<^sup>*\<^sup>* sample_ledger st" by blast
  obtain ca where ca: "kv_get (CreditAccounts st) (bytes_of ''ten'') = Some ca" using sample_acked(1) [OF run] by blast
  note c = chain_invariant [OF ref.sdk_laws_axioms sample_chain sample_clean steps, THEN conjunct1, THEN spec, THEN spec, THEN mp, OF ca]
  have "uint (ActiveLeaseCount ca) = 2" "uint (PendingLeaseCount ca) = 0"
    using c [THEN conjunct2, THEN conjunct1] c [THEN conjunct2, THEN conjunct2] sample_acked(2) [OF run]
    by (simp_all add: tenantAddr_def sample_active_def sample_pending_def)
  with run ca show ?thesis by blast
qed

end
